theory Spec2Isabelle
  imports Main "HOL-Library.Word" "HOL-Library.Monad_Syntax" "HOL-Library.Signed_Division"
begin

unbundle bit_operations_syntax

section \<open>Data model (xeroskernel.h, kbd.h, deltalist.h)\<close>

text \<open>
  The kernel is a 32-bit C program: \<open>int\<close>, \<open>unsigned int\<close>, \<open>unsigned long\<close>, \<open>size_t\<close>
  and every pointer are 32-bit words.  Signed comparisons are written with \<open><s\<close> and
  \<open>\<le>s\<close>, unsigned ones with \<open><\<close> and \<open>\<le>\<close>; \<open>+\<close> and \<open>-\<close> wrap around.
\<close>

type_synonym word32 = "32 word"
type_synonym byte = "8 word"

datatype process_state_t = RUNNING | READY | BLOCKED | STOPPED

datatype blocked_queue_t = SENDER | RECEIVER | WAIT | RECEIVE_ANY | SLEEP | READ | NONE

text \<open>
  A \<open>pcb_t *\<close> is the null pointer, the address of a slot of \<open>pcb_table\<close> or the address
  of \<open>idle_proc\<close>.
\<close>

datatype pcb_ptr = NULL | Table nat | IdleProc

record queue =
  q_size :: word32
  q_head :: pcb_ptr
  q_tail :: pcb_ptr

record delta_list =
  dl_size :: word32
  dl_head :: pcb_ptr

text \<open>
  \<open>struct pcb\<close>.  Function pointers (\<open>signal_table\<close>) and data pointers into process
  memory (\<open>esp\<close>, \<open>mem_start\<close>, \<open>ipc_args\<close>) are addresses; an \<open>fd_table\<close> entry is null
  (\<open>None\<close>) or the index of a slot of \<open>dev_table\<close>.  The arrays \<open>blocked_queues[3]\<close>,
  \<open>signal_table[32]\<close> and \<open>fd_table[4]\<close> are stores from the index to the element.
\<close>

record pcb =
  pid :: word32
  state :: process_state_t
  prev :: pcb_ptr
  "next" :: pcb_ptr
  mem_start :: word32
  esp :: word32
  result_code :: word32
  priority :: word32
  blocked_on :: pcb_ptr
  blocked_queue :: blocked_queue_t
  blocked_queues :: "blocked_queue_t \<Rightarrow> queue"
  ipc_args :: word32
  key :: word32
  cpuTime :: word32
  signal_table :: "nat \<Rightarrow> word32"
  pending_signals :: word32
  last_signal_delivered :: word32
  fd_table :: "nat \<Rightarrow> nat option"

text \<open>
  The statics of kbd.c.  \<open>kbd_hw_enabled\<close> stands for what the keyboard controller was
  last told through the control port (0xAE enables, 0xAD disables).
\<close>

record kbd =
  kbd_buf :: "nat \<Rightarrow> byte"
  kbd_buf_head :: word32
  kbd_buf_tail :: word32
  read_buf :: word32
  read_buflen :: word32
  chars_transferred :: word32
  read_finished :: word32
  eof :: byte
  eof_flag :: word32
  echo_flag :: word32
  kbd_proc :: pcb_ptr
  kbd_state :: word32
  kbd_hw_enabled :: bool

text \<open>
  The kernel state: the statics of disp.c, msg.c, sleep.c, ctsw.c and kbd.c, and the
  byte-addressed memory in which process stacks and user buffers live.

  \<open>pcbs\<close> is the store of process control blocks.  The machine has a flat address space
  without paging, so an access through a null \<open>pcb_t *\<close> reads or writes low memory
  instead of trapping; \<open>pcbs s NULL\<close> is that memory, seen through the layout of a PCB.
  The kernel's own data structures are not part of \<open>mem\<close>: a write through a user
  pointer does not change a PCB.

  \<open>HOLESTART\<close>, \<open>HOLEEND\<close> (i386.h), \<open>maxaddr\<close> (i386.c) and the addresses of
  \<open>sysstop\<close> and \<open>sigtramp\<close> and the code segment are taken as they are on the machine.
\<close>

record kernel =
  pcbs :: "pcb_ptr \<Rightarrow> pcb"
  ready_queues :: "nat \<Rightarrow> queue"
  stopped_queue :: queue
  receive_any_queue :: queue
  sleep_queue :: delta_list
  current_proc :: pcb_ptr
  user_proc_count :: word32
  args :: word32
  mem :: "word32 \<Rightarrow> byte"
  kbd_dev :: kbd
  HOLESTART :: word32
  HOLEEND :: word32
  maxaddr :: word32
  freemem_aligned :: word32
  sysstop_addr :: word32
  sigtramp_addr :: word32
  getCS :: word32

definition PCB_TABLE_SIZE :: nat where "PCB_TABLE_SIZE = 32"
definition NUM_PRIORITIES :: nat where "NUM_PRIORITIES = 4"
definition INIT_PRIORITY :: word32 where "INIT_PRIORITY = 3"
definition IDLE_PROC_PID :: word32 where "IDLE_PROC_PID = 0"
definition TIME_SLICE :: word32 where "TIME_SLICE = 10"
definition SIGNAL_TABLE_SIZE :: nat where "SIGNAL_TABLE_SIZE = 32"
definition FD_TABLE_SIZE :: nat where "FD_TABLE_SIZE = 4"
definition BUFFER_SIZE :: nat where "BUFFER_SIZE = 4"
definition EFLAGS :: word32 where "EFLAGS = 0x00003200"
definition KBD_BUFFER_SIZE :: word32 where "KBD_BUFFER_SIZE = 4 + 1"
definition DEFAULT_EOF :: byte where "DEFAULT_EOF = 0x04"

subsection \<open>Access to the stores\<close>

text \<open>\<open>p->f = v\<close> for a field of the PCB that \<open>p\<close> points to.\<close>

definition upd_pcb :: "pcb_ptr \<Rightarrow> (pcb \<Rightarrow> pcb) \<Rightarrow> kernel \<Rightarrow> kernel" where
  "upd_pcb p f s = s\<lparr>pcbs := (pcbs s)(p := f (pcbs s p))\<rparr>"

text \<open>
  A \<open>Queue *\<close> is the address of one of the ready queues, of the stopped queue, of the
  receive-any queue or of a blocked queue inside a PCB.
\<close>

datatype queue_ref = ReadyQ nat | StoppedQ | ReceiveAnyQ | BlockedQ pcb_ptr blocked_queue_t

fun get_queue :: "kernel \<Rightarrow> queue_ref \<Rightarrow> queue" where
  "get_queue s (ReadyQ i) = ready_queues s i"
| "get_queue s StoppedQ = stopped_queue s"
| "get_queue s ReceiveAnyQ = receive_any_queue s"
| "get_queue s (BlockedQ p b) = blocked_queues (pcbs s p) b"

fun upd_queue :: "queue_ref \<Rightarrow> (queue \<Rightarrow> queue) \<Rightarrow> kernel \<Rightarrow> kernel" where
  "upd_queue (ReadyQ i) f s = s\<lparr>ready_queues := (ready_queues s)(i := f (ready_queues s i))\<rparr>"
| "upd_queue StoppedQ f s = s\<lparr>stopped_queue := f (stopped_queue s)\<rparr>"
| "upd_queue ReceiveAnyQ f s = s\<lparr>receive_any_queue := f (receive_any_queue s)\<rparr>"
| "upd_queue (BlockedQ p b) f s =
     upd_pcb p (\<lambda>c. c\<lparr>blocked_queues := (blocked_queues c)(b := f (blocked_queues c b))\<rparr>) s"

text \<open>Little-endian 32-bit loads and stores (x86).\<close>

definition load32 :: "(word32 \<Rightarrow> byte) \<Rightarrow> word32 \<Rightarrow> word32" where
  "load32 m a =
     ucast (m a) OR push_bit 8 (ucast (m (a + 1))) OR push_bit 16 (ucast (m (a + 2)))
       OR push_bit 24 (ucast (m (a + 3)))"

definition store32 :: "word32 \<Rightarrow> word32 \<Rightarrow> (word32 \<Rightarrow> byte) \<Rightarrow> (word32 \<Rightarrow> byte)" where
  "store32 a v m =
     m(a := ucast v, a + 1 := ucast (drop_bit 8 v), a + 2 := ucast (drop_bit 16 v),
       a + 3 := ucast (drop_bit 24 v))"

text \<open>\<open>args[i]\<close>: the \<open>i\<close>-th system call argument on the caller's stack.\<close>

definition arg :: "kernel \<Rightarrow> nat \<Rightarrow> word32" where
  "arg s i = load32 (mem s) (args s + 4 * of_nat i)"

section \<open>queue.c\<close>

definition init_queue :: "queue_ref \<Rightarrow> kernel \<Rightarrow> kernel" where
  "init_queue q s = upd_queue q (\<lambda>_. \<lparr>q_size = 0, q_head = NULL, q_tail = NULL\<rparr>) s"

text \<open>
  \<open>assert\<close> (util.c) prints and then spins in \<open>while (1)\<close>: a failed assertion never
  returns.  A kernel routine that does not return has the value \<open>None\<close>.
\<close>

definition enqueue :: "queue_ref \<Rightarrow> pcb_ptr \<Rightarrow> kernel \<Rightarrow> kernel option" where
  "enqueue q proc s =
     (if proc = NULL then None
      else
        let s1 =
          (if q_tail (get_queue s q) = NULL then
             let s = upd_pcb proc (\<lambda>c. c\<lparr>prev := NULL\<rparr>) s;
                 s = upd_pcb proc (\<lambda>c. c\<lparr>next := NULL\<rparr>) s;
                 s = upd_queue q (\<lambda>c. c\<lparr>q_head := proc\<rparr>) s
             in upd_queue q (\<lambda>c. c\<lparr>q_tail := proc\<rparr>) s
           else
             let s = upd_pcb proc (\<lambda>c. c\<lparr>prev := q_tail (get_queue s q)\<rparr>) s;
                 s = upd_pcb (prev (pcbs s proc)) (\<lambda>c. c\<lparr>next := proc\<rparr>) s;
                 s = upd_pcb proc (\<lambda>c. c\<lparr>next := NULL\<rparr>) s
             in upd_queue q (\<lambda>c. c\<lparr>q_tail := proc\<rparr>) s)
        in Some (upd_queue q (\<lambda>c. c\<lparr>q_size := q_size c + 1\<rparr>) s1))"

definition dequeue :: "queue_ref \<Rightarrow> kernel \<Rightarrow> pcb_ptr \<times> kernel" where
  "dequeue q s =
     (if q_size (get_queue s q) = 0 then (NULL, s)
      else
        let proc = q_head (get_queue s q);
            s = upd_queue q (\<lambda>c. c\<lparr>q_head := next (pcbs s proc)\<rparr>) s;
            s = (if next (pcbs s proc) \<noteq> NULL
                 then upd_pcb (next (pcbs s proc)) (\<lambda>c. c\<lparr>prev := prev (pcbs s proc)\<rparr>) s
                 else upd_queue q (\<lambda>c. c\<lparr>q_tail := prev (pcbs s proc)\<rparr>) s);
            s = upd_pcb proc (\<lambda>c. c\<lparr>prev := NULL\<rparr>) s;
            s = upd_pcb proc (\<lambda>c. c\<lparr>next := NULL\<rparr>) s;
            s = upd_queue q (\<lambda>c. c\<lparr>q_size := q_size c - 1\<rparr>) s
        in (proc, s))"

definition peek_tail :: "queue_ref \<Rightarrow> kernel \<Rightarrow> pcb_ptr" where
  "peek_tail q s = (if q_size (get_queue s q) = 0 then NULL else q_tail (get_queue s q))"

definition is_empty_q :: "queue_ref \<Rightarrow> kernel \<Rightarrow> bool" where
  "is_empty_q q s = (q_size (get_queue s q) = 0)"

definition remove_q :: "queue_ref \<Rightarrow> pcb_ptr \<Rightarrow> kernel \<Rightarrow> kernel option" where
  "remove_q q proc s =
     (if proc = NULL \<or> q_size (get_queue s q) = 0 then None
      else
        let s = (if prev (pcbs s proc) \<noteq> NULL
                 then upd_pcb (prev (pcbs s proc)) (\<lambda>c. c\<lparr>next := next (pcbs s proc)\<rparr>) s
                 else upd_queue q (\<lambda>c. c\<lparr>q_head := next (pcbs s proc)\<rparr>) s);
            s = (if next (pcbs s proc) \<noteq> NULL
                 then upd_pcb (next (pcbs s proc)) (\<lambda>c. c\<lparr>prev := prev (pcbs s proc)\<rparr>) s
                 else upd_queue q (\<lambda>c. c\<lparr>q_tail := prev (pcbs s proc)\<rparr>) s);
            s = upd_pcb proc (\<lambda>c. c\<lparr>prev := NULL\<rparr>) s;
            s = upd_pcb proc (\<lambda>c. c\<lparr>next := NULL\<rparr>) s
        in Some (upd_queue q (\<lambda>c. c\<lparr>q_size := q_size c - 1\<rparr>) s))"


section \<open>deltalist.c\<close>

text \<open>The only delta list of the kernel is \<open>sleep_queue\<close> (sleep.c).\<close>

definition init_delta_list :: "kernel \<Rightarrow> kernel" where
  "init_delta_list s = s\<lparr>sleep_queue := \<lparr>dl_size = 0, dl_head = NULL\<rparr>\<rparr>"

definition dl_size_add :: "word32 \<Rightarrow> kernel \<Rightarrow> kernel" where
  "dl_size_add d s = s\<lparr>sleep_queue := (sleep_queue s)\<lparr>dl_size := dl_size (sleep_queue s) + d\<rparr>\<rparr>"

definition dl_set_head :: "pcb_ptr \<Rightarrow> kernel \<Rightarrow> kernel" where
  "dl_set_head p s = s\<lparr>sleep_queue := (sleep_queue s)\<lparr>dl_head := p\<rparr>\<rparr>"

text \<open>
  The \<open>while (curr != NULL)\<close> loop of \<open>insert\<close>.  It walks \<open>next\<close> pointers and need not
  end on a cyclic list, so it is a partial function.
\<close>

partial_function (option)
  insert_loop :: "pcb_ptr \<Rightarrow> word32 \<Rightarrow> pcb_ptr \<Rightarrow> pcb_ptr \<Rightarrow> kernel \<Rightarrow> kernel option" where
  "insert_loop proc delay prv cur s =
     (if cur \<noteq> NULL then
        (if delay <s key (pcbs s cur) then
           let s = upd_pcb proc (\<lambda>c. c\<lparr>key := delay\<rparr>) s;
               s = (if prv \<noteq> NULL then upd_pcb prv (\<lambda>c. c\<lparr>next := proc\<rparr>) s
                    else dl_set_head proc s);
               s = upd_pcb proc (\<lambda>c. c\<lparr>next := cur\<rparr>) s;
               s = upd_pcb cur (\<lambda>c. c\<lparr>key := key c - delay\<rparr>) s
           in Some (dl_size_add 1 s)
         else insert_loop proc (delay - key (pcbs s cur)) cur (next (pcbs s cur)) s)
      else
        let s = upd_pcb proc (\<lambda>c. c\<lparr>key := delay\<rparr>) s;
            s = upd_pcb prv (\<lambda>c. c\<lparr>next := proc\<rparr>) s
        in Some (dl_size_add 1 s))"

definition insert_dl :: "pcb_ptr \<Rightarrow> word32 \<Rightarrow> kernel \<Rightarrow> kernel option" where
  "insert_dl proc delay s =
     (if proc = NULL \<or> \<not> (0 \<le>s delay) \<or> next (pcbs s proc) \<noteq> NULL then None
      else if dl_head (sleep_queue s) = NULL then
        let s = upd_pcb proc (\<lambda>c. c\<lparr>key := delay\<rparr>) s;
            s = dl_set_head proc s
        in Some (dl_size_add 1 s)
      else insert_loop proc delay NULL (dl_head (sleep_queue s)) s)"

definition poll :: "kernel \<Rightarrow> pcb_ptr \<times> kernel" where
  "poll s =
     (if dl_size (sleep_queue s) = 0 then (NULL, s)
      else
        let proc = dl_head (sleep_queue s);
            s = dl_set_head (next (pcbs s proc)) s;
            s = upd_pcb (next (pcbs s proc)) (\<lambda>c. c\<lparr>key := key c + key (pcbs s proc)\<rparr>) s;
            s = dl_size_add (- 1) s;
            s = upd_pcb proc (\<lambda>c. c\<lparr>prev := NULL\<rparr>) s;
            s = upd_pcb proc (\<lambda>c. c\<lparr>next := NULL\<rparr>) s
        in (proc, s))"

definition delta_peek :: "kernel \<Rightarrow> pcb_ptr" where
  "delta_peek s = (if dl_size (sleep_queue s) = 0 then NULL else dl_head (sleep_queue s))"

text \<open>
  The loop of \<open>delta_remove\<close>; leaving it with \<open>curr == NULL\<close> runs into \<open>assert(0)\<close>.
\<close>

partial_function (option)
  delta_remove_loop ::
    "pcb_ptr \<Rightarrow> pcb_ptr \<Rightarrow> pcb_ptr \<Rightarrow> word32 \<Rightarrow> kernel \<Rightarrow> (word32 \<times> kernel) option" where
  "delta_remove_loop proc prv cur acc s =
     (if cur \<noteq> NULL then
        (if cur = proc then
           let s = upd_pcb prv (\<lambda>c. c\<lparr>next := next (pcbs s cur)\<rparr>) s;
               s = dl_size_add (- 1) s;
               s = (if next (pcbs s cur) \<noteq> NULL
                    then upd_pcb (next (pcbs s cur)) (\<lambda>c. c\<lparr>key := key c + key (pcbs s cur)\<rparr>) s
                    else s);
               s = upd_pcb proc (\<lambda>c. c\<lparr>next := NULL\<rparr>) s
           in Some (acc + key (pcbs s proc), s)
         else
           delta_remove_loop proc cur (next (pcbs s cur)) (acc + key (pcbs s cur)) s)
      else None)"

definition delta_remove :: "pcb_ptr \<Rightarrow> kernel \<Rightarrow> (word32 \<times> kernel) option" where
  "delta_remove proc s =
     (if proc = NULL \<or> dl_size (sleep_queue s) = 0 then None
      else if dl_head (sleep_queue s) = proc then
        let s = snd (poll s) in Some (key (pcbs s proc), s)
      else
        let prv = dl_head (sleep_queue s)
        in delta_remove_loop proc prv (next (pcbs s prv)) (key (pcbs s prv)) s)"

section \<open>disp.c: scheduling primitives\<close>

definition ready :: "pcb_ptr \<Rightarrow> kernel \<Rightarrow> kernel option" where
  "ready proc s =
     (if pid (pcbs s proc) \<noteq> IDLE_PROC_PID then
        let s = upd_pcb proc (\<lambda>c. c\<lparr>blocked_on := NULL\<rparr>) s;
            s = upd_pcb proc (\<lambda>c. c\<lparr>blocked_queue := NONE\<rparr>) s;
            s = upd_pcb proc (\<lambda>c. c\<lparr>state := READY\<rparr>) s
        in enqueue (ReadyQ (unat (priority (pcbs s proc)))) proc s
      else Some s)"

text \<open>The scan of \<open>next()\<close> over the ready queues, highest priority first.\<close>

function next_loop :: "nat \<Rightarrow> pcb_ptr \<Rightarrow> kernel \<Rightarrow> pcb_ptr \<times> kernel" where
  "next_loop i proc s =
     (if i < 4 \<and> proc = NULL then
        (if \<not> is_empty_q (ReadyQ i) s
         then next_loop (i + 1) (fst (dequeue (ReadyQ i) s)) (snd (dequeue (ReadyQ i) s))
         else next_loop (i + 1) proc s)
      else (proc, s))"
  by pat_completeness auto
termination
  by (relation "measure (\<lambda>(i, proc, s). 4 - i)") auto

definition next_proc :: "kernel \<Rightarrow> pcb_ptr \<times> kernel" where
  "next_proc s =
     (let r = next_loop 0 NULL s;
          proc = (if fst r = NULL then IdleProc else fst r)
      in (proc, upd_pcb proc (\<lambda>c. c\<lparr>state := RUNNING\<rparr>) (snd r)))"

text \<open>\<open>current_proc = next();\<close>\<close>

definition schedule_next :: "kernel \<Rightarrow> kernel" where
  "schedule_next s = (let r = next_proc s in (snd r)\<lparr>current_proc := fst r\<rparr>)"

section \<open>sleep.c\<close>

definition ms_to_time_slices :: "word32 \<Rightarrow> word32" where
  "ms_to_time_slices milliseconds =
     milliseconds div TIME_SLICE + (if milliseconds mod TIME_SLICE \<noteq> 0 then 1 else 0)"

definition sleep :: "pcb_ptr \<Rightarrow> word32 \<Rightarrow> kernel \<Rightarrow> kernel option" where
  "sleep proc milliseconds s =
     do {
       s \<leftarrow> insert_dl proc (ms_to_time_slices milliseconds) s;
       let s = upd_pcb proc (\<lambda>c. c\<lparr>state := BLOCKED\<rparr>) s;
       Some (upd_pcb proc (\<lambda>c. c\<lparr>blocked_queue := SLEEP\<rparr>) s)
     }"

partial_function (option) tick_loop :: "pcb_ptr \<Rightarrow> kernel \<Rightarrow> kernel option" where
  "tick_loop proc s =
     (if proc \<noteq> NULL \<and> key (pcbs s proc) \<le>s 0 then
        do {
          let proc_to_wake = fst (poll s);
          let s = snd (poll s);
          let s = upd_pcb proc_to_wake (\<lambda>c. c\<lparr>result_code := 0\<rparr>) s;
          s \<leftarrow> ready proc_to_wake s;
          tick_loop (delta_peek s) s
        }
      else Some s)"

definition tick :: "kernel \<Rightarrow> kernel option" where
  "tick s =
     (let proc = delta_peek s in
      if proc \<noteq> NULL then
        tick_loop proc (upd_pcb proc (\<lambda>c. c\<lparr>key := key c - 1\<rparr>) s)
      else Some s)"

section \<open>disp.c: servicing system calls\<close>

definition service_syssleep :: "kernel \<Rightarrow> kernel option" where
  "service_syssleep s =
     (let milliseconds = arg s 0 in
      if 0 < milliseconds then
        do {
          s \<leftarrow> sleep (current_proc s) milliseconds s;
          Some (schedule_next s)
        }
      else Some s)"

text \<open>
  \<open>contextswitch\<close> (ctsw.c) loads \<open>EAX\<close> from \<open>proc->result_code\<close> on the way back to the
  process: the value a system call returns to user mode.
\<close>

definition returned_to_user :: "kernel \<Rightarrow> word32" where
  "returned_to_user s = result_code (pcbs s (current_proc s))"


section \<open>mem.c: pointer validation\<close>

definition in_memory_range :: "kernel \<Rightarrow> word32 \<Rightarrow> bool" where
  "in_memory_range s addr =
     (let in_pre_hole = (0 < addr \<and> addr < HOLESTART s);
          in_post_hole = (HOLEEND s \<le> addr \<and> addr < maxaddr s)
      in in_pre_hole \<or> in_post_hole)"

definition in_kernel_memory_range :: "kernel \<Rightarrow> word32 \<Rightarrow> bool" where
  "in_kernel_memory_range s addr = (0 < addr \<and> addr < freemem_aligned s)"

definition valid_ptr :: "kernel \<Rightarrow> word32 \<Rightarrow> bool" where
  "valid_ptr s ptr = (ptr \<noteq> 0 \<and> in_memory_range s ptr)"

definition valid_buf :: "kernel \<Rightarrow> word32 \<Rightarrow> word32 \<Rightarrow> bool" where
  "valid_buf s ptr len =
     (if valid_ptr s ptr \<and> \<not> in_kernel_memory_range s ptr \<and> 0 < len then
        let buf_start = ptr; buf_end = buf_start + len
        in in_memory_range s buf_end \<and> \<not> in_kernel_memory_range s buf_end
      else False)"

section \<open>disp.c: \<open>service_syssighandler\<close>\<close>

text \<open>\<open>current_proc->result_code = v\<close>\<close>

definition set_result_code :: "word32 \<Rightarrow> kernel \<Rightarrow> kernel" where
  "set_result_code v s = upd_pcb (current_proc s) (\<lambda>c. c\<lparr>result_code := v\<rparr>) s"

definition service_syssighandler :: "kernel \<Rightarrow> kernel" where
  "service_syssighandler s =
     (let signal = arg s 0; new_handler = arg s 1; old_handler = arg s 2;
          signal_31 = of_nat SIGNAL_TABLE_SIZE - 1
      in if signal <s 0 \<or> signal_31 \<le>s signal then set_result_code (- 1) s
         else if new_handler \<noteq> 0 \<and> \<not> valid_ptr s new_handler then set_result_code (- 2) s
         else if \<not> valid_ptr s old_handler then set_result_code (- 3) s
         else
           let s = s\<lparr>mem := store32 old_handler
                                (signal_table (pcbs s (current_proc s)) (unat signal)) (mem s)\<rparr>;
               s = upd_pcb (current_proc s)
                     (\<lambda>c. c\<lparr>signal_table := (signal_table c)(unat signal := new_handler)\<rparr>) s
           in set_result_code 0 s)"


section \<open>Example states\<close>

text \<open>
  The statics of a C program start as zeroes.  \<open>zero_kernel\<close> is the kernel before any
  initialisation ran, on a machine with 4 MB of memory whose hole lies between 640 KB
  and 1624 KB and whose kernel image ends at 0x20000.  The concrete states below are
  built from it.
\<close>

definition zero_queue :: queue where
  "zero_queue = \<lparr>q_size = 0, q_head = NULL, q_tail = NULL\<rparr>"

definition zero_pcb :: pcb where
  "zero_pcb =
     \<lparr>pid = 0, state = RUNNING, prev = NULL, next = NULL, mem_start = 0, esp = 0,
      result_code = 0, priority = 0, blocked_on = NULL, blocked_queue = SENDER,
      blocked_queues = (\<lambda>_. zero_queue), ipc_args = 0, key = 0, cpuTime = 0,
      signal_table = (\<lambda>_. 0), pending_signals = 0, last_signal_delivered = 0,
      fd_table = (\<lambda>_. None)\<rparr>"

definition zero_kbd :: kbd where
  "zero_kbd =
     \<lparr>kbd_buf = (\<lambda>_. 0), kbd_buf_head = 0, kbd_buf_tail = 0, read_buf = 0, read_buflen = 0,
      chars_transferred = 0, read_finished = 0, eof = 0, eof_flag = 0, echo_flag = 0,
      kbd_proc = NULL, kbd_state = 0, kbd_hw_enabled = False\<rparr>"

definition zero_kernel :: kernel where
  "zero_kernel =
     \<lparr>pcbs = (\<lambda>_. zero_pcb), ready_queues = (\<lambda>_. zero_queue), stopped_queue = zero_queue,
      receive_any_queue = zero_queue, sleep_queue = \<lparr>dl_size = 0, dl_head = NULL\<rparr>,
      current_proc = NULL, user_proc_count = 0, args = 0, mem = (\<lambda>_. 0), kbd_dev = zero_kbd,
      HOLESTART = 0xA0000, HOLEEND = 0x196000, maxaddr = 0x400000, freemem_aligned = 0x20000,
      sysstop_addr = 0x1000, sigtramp_addr = 0x2000, getCS = 8\<rparr>"

text \<open>
  A running process in slot 0 with pid 1 whose last system call left 7 in
  \<open>result_code\<close>, and whose next system call has the argument words 0, 0, 0.
\<close>

definition one_running :: kernel where
  "one_running =
     (upd_pcb (Table 0) (\<lambda>c. c\<lparr>pid := 1, state := RUNNING, result_code := 7, priority := 3,
                                 blocked_queue := NONE, last_signal_delivered := - 1\<rparr>)
        zero_kernel)\<lparr>current_proc := Table 0, user_proc_count := 1, args := 0x300000\<rparr>"

text \<open>
  The user side of a system call (\<open>syscall\<close>, syscall.c): the arguments lie on the
  caller's stack at address \<open>a\<close>, and the trap hands \<open>a\<close> to the kernel as \<open>args\<close>.
\<close>

fun store_words :: "word32 \<Rightarrow> word32 list \<Rightarrow> (word32 \<Rightarrow> byte) \<Rightarrow> (word32 \<Rightarrow> byte)" where
  "store_words a [] m = m"
| "store_words a (v # vs) m = store_words (a + 4) vs (store32 a v m)"

definition syscall_trap :: "word32 \<Rightarrow> word32 list \<Rightarrow> kernel \<Rightarrow> kernel" where
  "syscall_trap a vs s = s\<lparr>args := a, mem := store_words a vs (mem s)\<rparr>"

text \<open>
  The process in slot 0 calls \<open>syssighandler(5, 0x3000, 0x310000)\<close> and then
  \<open>syssighandler(5, old, 0x310004)\<close>, where \<open>old\<close> is what the first call stored at
  0x310000.
\<close>

definition sig_call1 :: kernel where
  "sig_call1 = syscall_trap 0x300000 [5, 0x3000, 0x310000] one_running"

definition sig_call2 :: kernel where
  "sig_call2 =
     syscall_trap 0x300000 [5, load32 (mem (service_syssighandler sig_call1)) 0x310000, 0x310004]
       (service_syssighandler sig_call1)"



section \<open>disp.c: the PCB table and PIDs\<close>

text \<open>\<open>a % b\<close> on \<open>int\<close>: the remainder of the division that truncates towards zero.\<close>

definition c_rem :: "word32 \<Rightarrow> word32 \<Rightarrow> word32" where
  "c_rem a b = word_of_int (sint a smod sint b)"

text \<open>\<open>for (i = lo; i < hi; i++) body\<close>\<close>

function for_loop ::
  "nat \<Rightarrow> nat \<Rightarrow> (nat \<Rightarrow> kernel \<Rightarrow> kernel option) \<Rightarrow> kernel \<Rightarrow> kernel option" where
  "for_loop i hi body s =
     (if i < hi then do { s \<leftarrow> body i s; for_loop (i + 1) hi body s } else Some s)"
  by pat_completeness auto
termination
  by (relation "measure (\<lambda>(i, hi, body, s). hi - i)") auto

declare for_loop.simps [simp del]

text \<open>\<open>stop\<close> also runs for every slot at boot, before \<open>user_proc_count\<close> is set to 0.\<close>

definition stop :: "pcb_ptr \<Rightarrow> kernel \<Rightarrow> kernel option" where
  "stop proc s =
     do {
       let s = upd_pcb proc (\<lambda>c. c\<lparr>state := STOPPED\<rparr>) s;
       s \<leftarrow> enqueue StoppedQ proc s;
       Some (s\<lparr>user_proc_count := user_proc_count s - 1\<rparr>)
     }"

text \<open>
  \<open>create_idle_proc\<close> (create.c).  \<open>proc_mem_start\<close> is what \<open>kmalloc\<close> returned for the
  stack of the idle process, and \<open>idleproc_addr\<close> the address of \<open>idleproc\<close>.
  \<open>memset(context_frame, 0, sizeof(context_frame))\<close> clears the four bytes of a pointer.
\<close>

definition create_idle_proc :: "word32 \<Rightarrow> word32 \<Rightarrow> pcb_ptr \<Rightarrow> kernel \<Rightarrow> kernel option" where
  "create_idle_proc proc_mem_start idleproc_addr idle_proc s =
     (if proc_mem_start = 0 then None
      else
        let mem_end = proc_mem_start + 512;
            esp = mem_end - 44;
            s = upd_pcb idle_proc (\<lambda>c. c\<lparr>esp := esp\<rparr>) s;
            s = upd_pcb idle_proc (\<lambda>c. c\<lparr>pid := 0\<rparr>) s;
            s = s\<lparr>mem := store32 esp 0 (mem s)\<rparr>;
            s = s\<lparr>mem := store32 (esp + 32) idleproc_addr (mem s)\<rparr>;
            s = s\<lparr>mem := store32 (esp + 36) (getCS s) (mem s)\<rparr>
        in Some (s\<lparr>mem := store32 (esp + 40) EFLAGS (mem s)\<rparr>))"

text \<open>The body of the loop of \<open>kdispinit\<close> over the PCB table.\<close>

definition kdispinit_slot :: "nat \<Rightarrow> kernel \<Rightarrow> kernel option" where
  "kdispinit_slot i s =
     (let proc = Table i;
          s = upd_pcb proc (\<lambda>c. c\<lparr>pid := of_nat i + 1\<rparr>) s;
          s = init_queue (BlockedQ proc SENDER) s;
          s = init_queue (BlockedQ proc RECEIVER) s
      in stop proc s)"

definition kdispinit :: "word32 \<Rightarrow> word32 \<Rightarrow> kernel \<Rightarrow> kernel option" where
  "kdispinit idle_stack idleproc_addr s =
     do {
       s \<leftarrow> for_loop 0 NUM_PRIORITIES (\<lambda>i s. Some (init_queue (ReadyQ i) s)) s;
       let s = init_queue StoppedQ s;
       s \<leftarrow> for_loop 0 PCB_TABLE_SIZE kdispinit_slot s;
       let s = init_queue ReceiveAnyQ s;
       s \<leftarrow> create_idle_proc idle_stack idleproc_addr IdleProc s;
       Some (s\<lparr>user_proc_count := 0\<rparr>)
     }"

text \<open>
  \<open>get_unused_pcb\<close>.  \<open>prev_pid + PCB_TABLE_SIZE\<close> wraps around on signed overflow, which
  the test \<open>new_pid < 1\<close> detects; the assertion \<open>new_pid >= 1\<close> follows.
\<close>

definition get_unused_pcb :: "kernel \<Rightarrow> (pcb_ptr \<times> kernel) option" where
  "get_unused_pcb s =
     (if is_empty_q StoppedQ s then Some (NULL, s)
      else
        let unused_pcb = fst (dequeue StoppedQ s);
            s = snd (dequeue StoppedQ s);
            prev_pid = pid (pcbs s unused_pcb);
            new_pid = prev_pid + of_nat PCB_TABLE_SIZE;
            new_pid = (if new_pid <s 1 then c_rem prev_pid (of_nat PCB_TABLE_SIZE) else new_pid)
        in if \<not> (1 \<le>s new_pid) then None
           else
             let s = upd_pcb unused_pcb (\<lambda>c. c\<lparr>pid := new_pid\<rparr>) s;
                 s = upd_pcb unused_pcb (\<lambda>c. c\<lparr>cpuTime := 0\<rparr>) s;
                 signal_31 = SIGNAL_TABLE_SIZE - 1;
                 s = fold (\<lambda>i. upd_pcb unused_pcb
                             (\<lambda>c. c\<lparr>signal_table := (signal_table c)(i := 0)\<rparr>)) [0..<signal_31] s;
                 s = upd_pcb unused_pcb
                       (\<lambda>c. c\<lparr>signal_table := (signal_table c)(signal_31 := sysstop_addr s)\<rparr>) s;
                 s = upd_pcb unused_pcb (\<lambda>c. c\<lparr>pending_signals := 0\<rparr>) s;
                 s = upd_pcb unused_pcb (\<lambda>c. c\<lparr>last_signal_delivered := - 1\<rparr>) s;
                 s = fold (\<lambda>i. upd_pcb unused_pcb (\<lambda>c. c\<lparr>fd_table := (fd_table c)(i := None)\<rparr>))
                       [0..<FD_TABLE_SIZE] s
             in Some (unused_pcb, s))"

text \<open>\<open>get_pcb\<close> takes a \<open>PID_t\<close>: its comparisons and its \<open>%\<close> are unsigned.\<close>

definition get_pcb :: "word32 \<Rightarrow> kernel \<Rightarrow> pcb_ptr" where
  "get_pcb p s =
     (if 1 \<le> p then
        let proc = Table (unat ((p - 1) mod of_nat PCB_TABLE_SIZE))
        in if pid (pcbs s proc) = p \<and> state (pcbs s proc) \<noteq> STOPPED then proc else NULL
      else NULL)"

text \<open>The PID stored in each PCB.\<close>

definition pids :: "kernel \<Rightarrow> pcb_ptr \<Rightarrow> word32" where
  "pids s q = pid (pcbs s q)"

text \<open>
  The invariant behind the PID policy: the PID of slot \<open>i\<close> is at least 1 and is
  congruent to \<open>i + 1\<close> modulo the table size.
\<close>

definition pid_inv :: "kernel \<Rightarrow> bool" where
  "pid_inv s =
     (\<forall>i<PCB_TABLE_SIZE. 1 \<le>s pids s (Table i) \<and> unat ((pids s (Table i) - 1) mod 32) = i)"

text \<open>The PID that \<open>get_unused_pcb\<close> computes from the previous PID of the slot.\<close>

definition reused_pid :: "word32 \<Rightarrow> word32" where
  "reused_pid old = (if old + 32 <s 1 then c_rem old 32 else old + 32)"

text \<open>
  The state of the loop of \<open>kdispinit\<close> before iteration \<open>j\<close>: slots below \<open>j\<close> carry
  their initial PID, are stopped and form the stopped queue.
\<close>

definition slots_set :: "nat \<Rightarrow> kernel \<Rightarrow> kernel \<Rightarrow> bool" where
  "slots_set j s t =
     ((\<forall>m. pids t (Table m) = (if m < j then of_nat m + 1 else pids s (Table m)))
      \<and> pids t IdleProc = pids s IdleProc \<and> pids t NULL = pids s NULL
      \<and> (\<forall>m<j. state (pcbs t (Table m)) = STOPPED)
      \<and> (if j = 0 then stopped_queue t = stopped_queue s
          else q_head (stopped_queue t) = Table 0 \<and> q_tail (stopped_queue t) = Table (j - 1)
               \<and> q_size (stopped_queue t) = of_nat j))"

text \<open>
  The states the kernel can reach, as far as PIDs are concerned: \<open>kdispinit\<close> writes the
  initial PIDs, \<open>get_unused_pcb\<close> is the only other routine that writes the \<open>pid\<close> of a
  table slot, and every other step of the kernel leaves all PIDs as they are
  (\<open>create_idle_proc\<close> writes the PID of the idle process, which is not in the table).
\<close>

inductive reachable :: "kernel \<Rightarrow> bool" where
  boot: "kdispinit idle_stack idleproc_addr s0 = Some s \<Longrightarrow> reachable s"
| reuse: "reachable s \<Longrightarrow> get_unused_pcb s = Some (p, s') \<Longrightarrow> reachable s'"
| other: "reachable s \<Longrightarrow> pids s' = pids s \<Longrightarrow> reachable s'"

text \<open>
  The kernel after \<open>kdispinit\<close>, and after the first \<open>create\<close>: the head of the stopped
  queue is taken by \<open>get_unused_pcb\<close> and made ready.
\<close>

definition booted :: kernel where
  "booted = the (kdispinit 0x200000 0x4000 zero_kernel)"

definition first_created :: kernel where
  "first_created =
     upd_pcb (Table 0) (\<lambda>c. c\<lparr>state := READY\<rparr>) (snd (the (get_unused_pcb booted)))"


section \<open>signal.c\<close>

text \<open>
  The bit operations on the \<open>pending_signals\<close> mask.  \<open>signal_number\<close> is an \<open>int\<close>; the
  shift instructions of the x86 use the low five bits of the count, and \<open>>>\<close> on an
  \<open>int\<close> is the arithmetic shift.
\<close>

definition shift_count :: "word32 \<Rightarrow> nat" where
  "shift_count n = unat (n AND 31)"

definition set_signal_bit :: "word32 \<Rightarrow> word32 \<Rightarrow> word32" where
  "set_signal_bit bitmask signal_number = bitmask OR push_bit (shift_count signal_number) 1"

definition is_signal_bit_set :: "word32 \<Rightarrow> word32 \<Rightarrow> word32" where
  "is_signal_bit_set bitmask signal_number =
     1 AND signed_drop_bit (shift_count signal_number) bitmask"

definition clear_signal_bit :: "word32 \<Rightarrow> word32 \<Rightarrow> word32" where
  "clear_signal_bit bitmask signal_number =
     bitmask AND NOT (push_bit (shift_count signal_number) 1)"

text \<open>
  The scan of \<open>handle_pending_signals\<close>:
  \<open>while (!is_signal_bit_set(pending, signal_number) && signal_number != -1) signal_number--;\<close>
\<close>

function scan_pending :: "word32 \<Rightarrow> word32 \<Rightarrow> word32" where
  "scan_pending pending signal_number =
     (if is_signal_bit_set pending signal_number = 0 \<and> signal_number \<noteq> - 1
      then scan_pending pending (signal_number - 1) else signal_number)"
  by pat_completeness auto
termination
proof (relation "measure (\<lambda>(pending, n). unat (n + 1))")
  show "wf (measure (\<lambda>(pending, n). unat (n + 1)))" by simp
next
  fix pending n :: word32
  assume "is_signal_bit_set pending n = 0 \<and> n \<noteq> - 1"
  then have "n + 1 \<noteq> 0" by (metis add.commute add_eq_0_iff)
  then have "unat (n + 1 - 1) < unat (n + 1)" by (rule measure_unat)
  then show "((pending, n - 1), (pending, n)) \<in> measure (\<lambda>(pending, n). unat (n + 1))"
    by simp
qed

declare scan_pending.simps [simp del]

text \<open>\<open>*(unsigned long *) a = v\<close> in process memory.\<close>

definition poke :: "word32 \<Rightarrow> word32 \<Rightarrow> kernel \<Rightarrow> kernel" where
  "poke a v s = s\<lparr>mem := store32 a v (mem s)\<rparr>"

text \<open>
  \<open>handle_pending_signals\<close>.  The frame is a \<open>signal_delivery_context_t\<close> of 64 bytes:
  the eleven words of the context frame (\<open>ebp\<close> at offset 8, \<open>iret_eip\<close> at 32, \<open>iret_cs\<close>
  at 36, \<open>eflags\<close> at 40), \<open>return_address\<close> at 44, \<open>handler\<close> at 48, \<open>cntx\<close> at 52,
  \<open>last_signal_delivered\<close> at 56 and \<open>saved_result_code\<close> at 60.
  \<open>memset(signal_delivery_context, 0, sizeof(signal_delivery_context))\<close> clears the four
  bytes of a pointer.
\<close>

definition handle_pending_signals :: "pcb_ptr \<Rightarrow> kernel \<Rightarrow> kernel" where
  "handle_pending_signals proc s =
     (let signal_number = scan_pending (pending_signals (pcbs s proc)) (of_nat SIGNAL_TABLE_SIZE - 1)
      in if signal_number \<noteq> - 1 then
           (if last_signal_delivered (pcbs s proc) <s signal_number then
              let s = upd_pcb proc
                        (\<lambda>c. c\<lparr>pending_signals := clear_signal_bit (pending_signals c) signal_number\<rparr>) s;
                  old_esp = esp (pcbs s proc);
                  new_esp = old_esp - 64;
                  s = upd_pcb proc (\<lambda>c. c\<lparr>esp := new_esp\<rparr>) s;
                  s = poke new_esp 0 s;
                  s = poke (new_esp + 8) (new_esp + 44) s;
                  s = poke (new_esp + 32) (sigtramp_addr s) s;
                  s = poke (new_esp + 36) (getCS s) s;
                  s = poke (new_esp + 40) EFLAGS s;
                  s = poke (new_esp + 48) (signal_table (pcbs s proc) (unat signal_number)) s;
                  s = poke (new_esp + 52) old_esp s;
                  s = poke (new_esp + 56) (last_signal_delivered (pcbs s proc)) s;
                  s = poke (new_esp + 60) (result_code (pcbs s proc)) s
              in upd_pcb proc (\<lambda>c. c\<lparr>last_signal_delivered := signal_number\<rparr>) s
            else s)
         else s)"

section \<open>disp.c: \<open>service_syssigreturn\<close>\<close>

text \<open>The saved values lie just below the context that \<open>old_sp\<close> points to.\<close>

definition service_syssigreturn :: "kernel \<Rightarrow> kernel" where
  "service_syssigreturn s =
     (let old_sp = arg s 0;
          s = upd_pcb (current_proc s) (\<lambda>c. c\<lparr>esp := old_sp\<rparr>) s;
          s = set_result_code (load32 (mem s) (old_sp - 4)) s
      in upd_pcb (current_proc s)
           (\<lambda>c. c\<lparr>last_signal_delivered := load32 (mem s) (old_sp - 2 * 4)\<rparr>) s)"

text \<open>The highest-numbered signal that is pending in a mask, if any.\<close>

definition highest_pending :: "word32 \<Rightarrow> nat \<Rightarrow> bool" where
  "highest_pending pending n = (bit pending n \<and> (\<forall>m. n < m \<longrightarrow> \<not> bit pending m))"

text \<open>The memory after \<open>handle_pending_signals\<close> has written the frame below \<open>e\<close>.\<close>

definition frame_mem ::
  "word32 \<Rightarrow> word32 \<Rightarrow> word32 \<Rightarrow> word32 \<Rightarrow> word32 \<Rightarrow> word32 \<Rightarrow> word32
     \<Rightarrow> (word32 \<Rightarrow> byte) \<Rightarrow> (word32 \<Rightarrow> byte)" where
  "frame_mem e rc lsd h fl cs tr m =
     store32 (e - 64 + 60) rc (store32 (e - 64 + 56) lsd (store32 (e - 64 + 52) e
       (store32 (e - 64 + 48) h (store32 (e - 64 + 40) fl (store32 (e - 64 + 36) cs
       (store32 (e - 64 + 32) tr (store32 (e - 64 + 8) (e - 64 + 44) (store32 (e - 64) 0 m))))))))"

text \<open>
  The process in slot 0 with signals 2 and 5 pending, handlers installed for both, no
  handler running and its stack pointer at 0x300100; and the same process when the
  trampoline of the delivered signal issues \<open>syssigreturn(0x300100)\<close> after the handler
  made a system call that returned 99.
\<close>

definition sig_pending :: kernel where
  "sig_pending =
     upd_pcb (Table 0)
       (\<lambda>c. c\<lparr>pending_signals := set_signal_bit (set_signal_bit 0 2) 5,
               signal_table := (signal_table c)(2 := 0x3100, 5 := 0x3000),
               esp := 0x300100\<rparr>) one_running"

definition sig_returning :: kernel where
  "sig_returning =
     syscall_trap 0x300000 [0x300100]
       (set_result_code 99 (handle_pending_signals (Table 0) sig_pending))"


section \<open>disp.c: blocked queues\<close>

definition enqueue_blocked_queue ::
  "pcb_ptr \<Rightarrow> pcb_ptr \<Rightarrow> blocked_queue_t \<Rightarrow> kernel \<Rightarrow> kernel option" where
  "enqueue_blocked_queue proc blocked_on_proc bq s =
     do {
       s \<leftarrow> enqueue (BlockedQ blocked_on_proc bq) proc s;
       let s = upd_pcb proc (\<lambda>c. c\<lparr>blocked_on := blocked_on_proc\<rparr>) s;
       let s = upd_pcb proc (\<lambda>c. c\<lparr>blocked_queue := bq\<rparr>) s;
       Some (upd_pcb proc (\<lambda>c. c\<lparr>state := BLOCKED\<rparr>) s)
     }"

definition remove_from_blocked_queue ::
  "pcb_ptr \<Rightarrow> pcb_ptr \<Rightarrow> blocked_queue_t \<Rightarrow> kernel \<Rightarrow> (word32 \<times> kernel) option" where
  "remove_from_blocked_queue proc blocked_on_proc bq s =
     (if blocked_on (pcbs s proc) = blocked_on_proc \<and> blocked_queue (pcbs s proc) = bq then
        do { s \<leftarrow> remove_q (BlockedQ blocked_on_proc bq) proc s; Some (1, s) }
      else Some (0, s))"

definition remove_from_receive_any_queue :: "pcb_ptr \<Rightarrow> kernel \<Rightarrow> (word32 \<times> kernel) option" where
  "remove_from_receive_any_queue proc s =
     (if blocked_queue (pcbs s proc) = RECEIVE_ANY then
        do { s \<leftarrow> remove_q ReceiveAnyQ proc s; Some (1, s) }
      else Some (0, s))"

definition only_process :: "kernel \<Rightarrow> bool" where
  "only_process s = (user_proc_count s = 1)"

definition unblock :: "pcb_ptr \<Rightarrow> word32 \<Rightarrow> kernel \<Rightarrow> kernel option" where
  "unblock proc rc s = ready proc (upd_pcb proc (\<lambda>c. c\<lparr>result_code := rc\<rparr>) s)"

section \<open>msg.c\<close>

text \<open>
  \<open>strncpy\<close> is the C library routine (xeroslib, not among the sources); it is modelled
  from its specification in the C standard: at most \<open>n\<close> characters are copied from the
  source, characters that follow a null character are not copied, and if the source
  is shorter than \<open>n\<close> null characters are appended until \<open>n\<close> characters are written.
  \<open>src\<close> is the content of the source object.
\<close>

fun strncpy_bytes :: "byte list \<Rightarrow> nat \<Rightarrow> byte list" where
  "strncpy_bytes src 0 = []"
| "strncpy_bytes [] (Suc n) = replicate (Suc n) 0"
| "strncpy_bytes (c # cs) (Suc n) =
     (if c = 0 then replicate (Suc n) 0 else c # strncpy_bytes cs n)"

fun store_bytes :: "word32 \<Rightarrow> byte list \<Rightarrow> (word32 \<Rightarrow> byte) \<Rightarrow> (word32 \<Rightarrow> byte)" where
  "store_bytes a [] m = m"
| "store_bytes a (b # bs) m = store_bytes (a + 1) bs (m(a := b))"

definition load_bytes :: "word32 \<Rightarrow> nat \<Rightarrow> (word32 \<Rightarrow> byte) \<Rightarrow> byte list" where
  "load_bytes a n m = map (\<lambda>i. m (a + of_nat i)) [0..<n]"

text \<open>The bytes of an \<open>unsigned long\<close> in memory (little-endian).\<close>

definition word_bytes :: "word32 \<Rightarrow> byte list" where
  "word_bytes v = [ucast v, ucast (drop_bit 8 v), ucast (drop_bit 16 v), ucast (drop_bit 24 v)]"

definition strncpy :: "word32 \<Rightarrow> byte list \<Rightarrow> nat \<Rightarrow> kernel \<Rightarrow> kernel" where
  "strncpy dst src n s = s\<lparr>mem := store_bytes dst (strncpy_bytes src n) (mem s)\<rparr>"

text \<open>
  \<open>send\<close>.  \<open>send_buf\<close> is the address of the local \<open>num\<close> of \<open>service_syssend\<close>, so the
  source of the copy is the four bytes of \<open>num\<close>.  The result is the return value and
  the new state.
\<close>

definition send :: "pcb_ptr \<Rightarrow> pcb_ptr \<Rightarrow> word32 \<Rightarrow> kernel \<Rightarrow> (word32 \<times> kernel) option" where
  "send send_proc recv_proc num s =
     do {
       r1 \<leftarrow> remove_from_blocked_queue recv_proc send_proc RECEIVER s;
       r2 \<leftarrow> (if fst r1 \<noteq> 0 then Some r1 else remove_from_receive_any_queue recv_proc (snd r1));
       let s = snd r2;
       if fst r2 \<noteq> 0 then
         do {
           let from_pid = load32 (mem s) (ipc_args (pcbs s recv_proc));
           let recv_buff = load32 (mem s) (ipc_args (pcbs s recv_proc) + 4);
           let s = poke from_pid (pid (pcbs s send_proc)) s;
           let s = strncpy recv_buff (word_bytes num) BUFFER_SIZE s;
           let s = upd_pcb recv_proc (\<lambda>c. c\<lparr>result_code := 0\<rparr>) s;
           s \<leftarrow> ready recv_proc s;
           Some (0, s)
         }
       else
         do {
           s \<leftarrow> enqueue_blocked_queue send_proc recv_proc SENDER s;
           Some (- 1, s)
         }
     }"

text \<open>
  \<open>recv\<close>.  The source of the copy is \<open>&send_proc->ipc_args[1]\<close>: the second argument
  word of the blocked sender, on the sender's stack.
\<close>

definition recv ::
  "pcb_ptr \<Rightarrow> pcb_ptr \<Rightarrow> word32 \<Rightarrow> word32 \<Rightarrow> kernel \<Rightarrow> (word32 \<times> kernel) option" where
  "recv recv_proc send_proc from_pid recv_buf s =
     (if send_proc \<noteq> NULL then
        do {
          r \<leftarrow> remove_from_blocked_queue send_proc recv_proc SENDER s;
          let s = snd r;
          if fst r \<noteq> 0 then
            do {
              let send_buf = ipc_args (pcbs s send_proc) + 4;
              let s = strncpy recv_buf (load_bytes send_buf BUFFER_SIZE (mem s)) BUFFER_SIZE s;
              let s = upd_pcb send_proc (\<lambda>c. c\<lparr>result_code := 0\<rparr>) s;
              s \<leftarrow> ready send_proc s;
              Some (0, s)
            }
          else
            do {
              s \<leftarrow> enqueue_blocked_queue recv_proc send_proc RECEIVER s;
              Some (- 1, s)
            }
        }
      else
        (let send_proc = fst (dequeue (BlockedQ recv_proc SENDER) s);
             s = snd (dequeue (BlockedQ recv_proc SENDER) s)
         in if send_proc \<noteq> NULL then
              do {
                let send_buf = ipc_args (pcbs s send_proc) + 4;
                let s = strncpy recv_buf (load_bytes send_buf BUFFER_SIZE (mem s)) BUFFER_SIZE s;
                let s = poke from_pid (pid (pcbs s send_proc)) s;
                let s = upd_pcb send_proc (\<lambda>c. c\<lparr>result_code := 0\<rparr>) s;
                s \<leftarrow> ready send_proc s;
                Some (0, s)
              }
            else
              do {
                let s = upd_pcb recv_proc (\<lambda>c. c\<lparr>state := BLOCKED\<rparr>) s;
                let s = upd_pcb recv_proc (\<lambda>c. c\<lparr>blocked_queue := RECEIVE_ANY\<rparr>) s;
                s \<leftarrow> enqueue ReceiveAnyQ recv_proc s;
                Some (- 1, s)
              }))"

section \<open>disp.c: \<open>service_syssend\<close> and \<open>service_sysrecv\<close>\<close>

definition service_syssend :: "kernel \<Rightarrow> kernel option" where
  "service_syssend s =
     (let s = upd_pcb (current_proc s) (\<lambda>c. c\<lparr>ipc_args := args s\<rparr>) s;
          dest_pid = arg s 0;
          num = arg s 1
      in do {
           r \<leftarrow> (if pid (pcbs s (current_proc s)) = dest_pid then Some (- 3, s)
                else
                  let receiving_proc = get_pcb dest_pid s
                  in if receiving_proc = NULL then Some (- 2, s)
                     else send (current_proc s) receiving_proc num s);
           let send_result_code = fst r;
           let s = set_result_code send_result_code (snd r);
           Some (if send_result_code = - 1 then schedule_next s else s)
         })"

definition service_sysrecv :: "kernel \<Rightarrow> kernel option" where
  "service_sysrecv s =
     (let s = upd_pcb (current_proc s) (\<lambda>c. c\<lparr>ipc_args := args s\<rparr>) s;
          from_pid = arg s 0;
          num = arg s 1
      in do {
           r \<leftarrow> (if \<not> valid_buf s from_pid (of_nat BUFFER_SIZE) then Some (- 5, s)
                else if \<not> valid_buf s num (of_nat BUFFER_SIZE) then Some (- 4, s)
                else
                  let sender_pid = load32 (mem s) from_pid
                  in if sender_pid = 0 then
                       (if only_process s then Some (- 10, s)
                        else recv (current_proc s) NULL from_pid num s)
                     else if pid (pcbs s (current_proc s)) = sender_pid then Some (- 3, s)
                     else
                       let sending_proc = get_pcb sender_pid s
                       in if sending_proc = NULL then Some (- 2, s)
                          else recv (current_proc s) sending_proc from_pid num s);
           let recv_result_code = fst r;
           let s = set_result_code recv_result_code (snd r);
           Some (if recv_result_code = - 1 then schedule_next s else s)
         })"

text \<open>
  Two processes: P1 (slot 0, pid 1) is ready, P2 (slot 1, pid 2) runs.  P2 holds
  \<open>from = 1\<close> at 0x310004 and \<open>num\<close> at 0x310000 and calls \<open>sysrecv(&from, &num)\<close>; then
  P1 runs and calls \<open>syssend(2, 0x100)\<close>.
\<close>

definition ipc_start :: kernel where
  "ipc_start =
     the (ready (Table 0)
       ((upd_pcb (Table 1)
           (\<lambda>c. c\<lparr>pid := 2, state := RUNNING, priority := 3, blocked_queue := NONE,
                   last_signal_delivered := - 1\<rparr>)
           (upd_pcb (Table 0)
              (\<lambda>c. c\<lparr>pid := 1, priority := 3, blocked_queue := NONE,
                      last_signal_delivered := - 1\<rparr>) zero_kernel))
        \<lparr>current_proc := Table 1, user_proc_count := 2,
          mem := store32 0x310004 1 (\<lambda>_. 0)\<rparr>))"

definition ipc_recv :: kernel where
  "ipc_recv = the (service_sysrecv (syscall_trap 0x308000 [0x310004, 0x310000] ipc_start))"

definition ipc_send :: "kernel option" where
  "ipc_send = service_syssend (syscall_trap 0x300000 [2, 0x100] ipc_recv)"


section \<open>kbd.c\<close>

definition upd_kbd :: "(kbd \<Rightarrow> kbd) \<Rightarrow> kernel \<Rightarrow> kernel" where
  "upd_kbd f s = s\<lparr>kbd_dev := f (kbd_dev s)\<rparr>"

definition flush_kbd_buf :: "kbd \<Rightarrow> kbd" where
  "flush_kbd_buf k =
     (fold (\<lambda>i k. k\<lparr>kbd_buf := (kbd_buf k)(i := 0)\<rparr>) [0..<unat KBD_BUFFER_SIZE] k)
       \<lparr>kbd_buf_head := 0, kbd_buf_tail := 0\<rparr>"

definition kbd_reset :: "kbd \<Rightarrow> kbd" where
  "kbd_reset k =
     (flush_kbd_buf k)\<lparr>read_buf := 0, read_buflen := 0, chars_transferred := 0,
                       read_finished := 0, eof := DEFAULT_EOF, eof_flag := 0, kbd_state := 0\<rparr>"

definition disable_keyboard_hardware :: "kbd \<Rightarrow> kbd" where
  "disable_keyboard_hardware k = k\<lparr>kbd_hw_enabled := False\<rparr>"

text \<open>The result of \<open>kbdopen\<close>, \<open>kbdclose\<close> is the return value and the new state.\<close>

definition kbdopen :: "pcb_ptr \<Rightarrow> word32 \<Rightarrow> kernel \<Rightarrow> word32 \<times> kernel" where
  "kbdopen proc device_no s =
     (if kbd_proc (kbd_dev s) \<noteq> NULL then (- 1, s)
      else
        (0, upd_kbd (\<lambda>k. (kbd_reset k)\<lparr>echo_flag := (if device_no = 0 then 0 else 1),
                                       kbd_proc := proc, kbd_hw_enabled := True\<rparr>) s))"

definition kbdclose :: "pcb_ptr \<Rightarrow> kernel \<Rightarrow> word32 \<times> kernel" where
  "kbdclose proc s =
     (0, upd_kbd (\<lambda>k. disable_keyboard_hardware ((kbd_reset k)\<lparr>echo_flag := 0, kbd_proc := NULL\<rparr>)) s)"

definition is_kbd_buf_full :: "kbd \<Rightarrow> bool" where
  "is_kbd_buf_full k = (c_rem (kbd_buf_head k + 1) KBD_BUFFER_SIZE = kbd_buf_tail k)"

definition write_to_kbd_buf :: "byte \<Rightarrow> kbd \<Rightarrow> kbd" where
  "write_to_kbd_buf c k =
     (if \<not> is_kbd_buf_full k then
        let k = k\<lparr>kbd_buf := (kbd_buf k)(unat (kbd_buf_head k) := c)\<rparr>
        in k\<lparr>kbd_buf_head := c_rem (kbd_buf_head k + 1) KBD_BUFFER_SIZE\<rparr>
      else k)"

text \<open>\<open>copy_char_to_read_buf\<close>: the result is 1 when the read is fully serviced.\<close>

definition copy_char_to_read_buf :: "byte \<Rightarrow> kernel \<Rightarrow> word32 \<times> kernel" where
  "copy_char_to_read_buf c s =
     (let k = kbd_dev s;
          s = s\<lparr>mem := (mem s)(read_buf k + chars_transferred k := c)\<rparr>;
          s = upd_kbd (\<lambda>k. k\<lparr>chars_transferred := chars_transferred k + 1\<rparr>) s
      in (if chars_transferred (kbd_dev s) = read_buflen (kbd_dev s) \<or> c = 0x0A then 1 else 0, s))"

definition handle_eof :: "kernel \<Rightarrow> kernel" where
  "handle_eof s = upd_kbd (\<lambda>k. (disable_keyboard_hardware k)\<lparr>eof_flag := 1\<rparr>) s"

text \<open>The loop of \<open>transfer_to_read_buf\<close> over the ring buffer.\<close>

partial_function (option) transfer_loop :: "kernel \<Rightarrow> (word32 \<times> kernel) option" where
  "transfer_loop s =
     (if kbd_buf_tail (kbd_dev s) \<noteq> kbd_buf_head (kbd_dev s) then
        (let c = kbd_buf (kbd_dev s) (unat (kbd_buf_tail (kbd_dev s)));
             s = upd_kbd (\<lambda>k. k\<lparr>kbd_buf_tail := c_rem (kbd_buf_tail k + 1) KBD_BUFFER_SIZE\<rparr>) s
         in if c = eof (kbd_dev s) then Some (1, handle_eof s)
            else if fst (copy_char_to_read_buf c s) \<noteq> 0
                 then Some (1, snd (copy_char_to_read_buf c s))
                 else transfer_loop (snd (copy_char_to_read_buf c s)))
      else Some (0, s))"

definition transfer_to_read_buf :: "kernel \<Rightarrow> (word32 \<times> kernel) option" where
  "transfer_to_read_buf s =
     (if kbd_proc (kbd_dev s) = NULL \<or> read_buf (kbd_dev s) = 0 then None
      else transfer_loop s)"

text \<open>
  \<open>kbdread\<close>: 0 after an end of file, \<open>buflen\<close> when the buffer was filled, and -2 when
  the caller is to block.  The value that \<open>transfer_to_read_buf\<close> returns is not used.
\<close>

definition kbdread :: "pcb_ptr \<Rightarrow> word32 \<Rightarrow> word32 \<Rightarrow> kernel \<Rightarrow> (word32 \<times> kernel) option" where
  "kbdread proc buf buflen s =
     (if eof_flag (kbd_dev s) \<noteq> 0 then Some (0, s)
      else
        do {
          let s = upd_kbd (\<lambda>k. k\<lparr>read_buf := buf\<rparr>) s;
          let s = upd_kbd (\<lambda>k. k\<lparr>read_buflen := buflen\<rparr>) s;
          r \<leftarrow> transfer_to_read_buf s;
          let s = snd r;
          if chars_transferred (kbd_dev s) = read_buflen (kbd_dev s)
          then Some (read_buflen (kbd_dev s), s)
          else Some (- 2, upd_kbd (\<lambda>k. k\<lparr>read_finished := 0\<rparr>) s)
        })"

definition finish_read :: "kernel \<Rightarrow> kernel option" where
  "finish_read s =
     (let s = upd_pcb (kbd_proc (kbd_dev s))
                (\<lambda>c. c\<lparr>result_code := chars_transferred (kbd_dev s)\<rparr>) s;
          s = upd_kbd (\<lambda>k. k\<lparr>chars_transferred := 0\<rparr>) s
      in ready (kbd_proc (kbd_dev s)) s)"

text \<open>
  \<open>kbd_isr\<close> for an interrupt with data present.  \<open>c\<close> is what \<open>kbtoa\<close> makes of the scan
  code read from the data port (256 for no character); the translation of scan codes
  is not part of this model.  Echoing prints and changes no state.
\<close>

definition kbd_isr :: "word32 \<Rightarrow> kernel \<Rightarrow> kernel option" where
  "kbd_isr c s =
     (if kbd_proc (kbd_dev s) = NULL then None
      else if 0 < c \<and> c \<le> 127 then
        (let s = upd_kbd (write_to_kbd_buf (ucast c)) s
         in if read_buf (kbd_dev s) \<noteq> 0 \<and> read_finished (kbd_dev s) = 0 then
              do {
                r \<leftarrow> transfer_to_read_buf s;
                let s = upd_kbd (\<lambda>k. k\<lparr>read_finished := fst r\<rparr>) (snd r);
                if read_finished (kbd_dev s) \<noteq> 0
                   \<and> blocked_queue (pcbs s (kbd_proc (kbd_dev s))) = READ
                then finish_read s else Some s
              }
            else Some s)
      else Some s)"

section \<open>di_calls.c\<close>

text \<open>
  Both entries of \<open>dev_table\<close> are keyboards: \<open>dvopen\<close>, \<open>dvread\<close> of either are
  \<open>kbdopen\<close>, \<open>kbdread\<close>.
\<close>

definition is_valid_fd :: "pcb_ptr \<Rightarrow> word32 \<Rightarrow> kernel \<Rightarrow> bool" where
  "is_valid_fd proc fd s =
     (0 \<le>s fd \<and> fd <s of_nat FD_TABLE_SIZE \<and> fd_table (pcbs s proc) (unat fd) \<noteq> None)"

text \<open>The scan of \<open>di_open\<close> for a free entry of the descriptor table.\<close>

fun free_fd :: "(nat \<Rightarrow> nat option) \<Rightarrow> nat \<Rightarrow> nat \<Rightarrow> nat" where
  "free_fd tab fd 0 = fd"
| "free_fd tab fd (Suc n) = (if tab fd = None then fd else free_fd tab (fd + 1) n)"

definition di_open :: "pcb_ptr \<Rightarrow> word32 \<Rightarrow> kernel \<Rightarrow> word32 \<times> kernel" where
  "di_open proc device_no s =
     (if 0 \<le>s device_no \<and> device_no <s 2 then
        let fd = free_fd (fd_table (pcbs s proc)) 0 FD_TABLE_SIZE
        in if fd = FD_TABLE_SIZE then (- 1, s)
           else
             let r = kbdopen proc device_no s
             in if fst r \<noteq> 0 then (- 1, snd r)
                else (of_nat fd,
                      upd_pcb proc (\<lambda>c. c\<lparr>fd_table := (fd_table c)(fd := Some (unat device_no))\<rparr>)
                        (snd r))
      else (- 1, s))"

definition di_read ::
  "pcb_ptr \<Rightarrow> word32 \<Rightarrow> word32 \<Rightarrow> word32 \<Rightarrow> kernel \<Rightarrow> (word32 \<times> kernel) option" where
  "di_read proc fd buf buflen s =
     (if valid_buf s buf buflen \<and> is_valid_fd proc fd s then kbdread proc buf buflen s
      else Some (- 1, s))"

section \<open>disp.c: \<open>service_sysopen\<close> and \<open>service_sysread\<close>\<close>

definition service_sysopen :: "kernel \<Rightarrow> kernel" where
  "service_sysopen s =
     (let device_no = arg s 0; r = di_open (current_proc s) device_no s
      in set_result_code (fst r) (snd r))"

definition service_sysread :: "kernel \<Rightarrow> kernel option" where
  "service_sysread s =
     (let fd = arg s 0; buf = arg s 1; buflen = arg s 2
      in do {
           r \<leftarrow> di_read (current_proc s) fd buf buflen s;
           let di_read_return = fst r;
           let s = snd r;
           if di_read_return = - 2 then
             let s = upd_pcb (current_proc s) (\<lambda>c. c\<lparr>state := BLOCKED\<rparr>) s;
                 s = upd_pcb (current_proc s) (\<lambda>c. c\<lparr>blocked_queue := READ\<rparr>) s
             in Some (schedule_next s)
           else Some (set_result_code di_read_return s)
         })"

text \<open>
  The only process opens the keyboard, the keys \<open>a\<close> and Ctrl-D (the end-of-file
  character 4) are typed, and then the process calls \<open>sysread(fd, 0x310000, 10)\<close>.
\<close>

definition kbd_typed :: "kernel option" where
  "kbd_typed =
     do {
       let s = service_sysopen (syscall_trap 0x300000 [1] one_running);
       s \<leftarrow> kbd_isr 0x61 s;
       kbd_isr 4 s
     }"

definition kbd_read10 :: "kernel option" where
  "kbd_read10 =
     do {
       s \<leftarrow> kbd_typed;
       service_sysread (syscall_trap 0x300000 [result_code (pcbs s (Table 0)), 0x310000, 10] s)
     }"


section \<open>disp.c: the timer interrupt\<close>

definition yield :: "kernel \<Rightarrow> kernel option" where
  "yield s = do { s \<leftarrow> ready (current_proc s) s; Some (schedule_next s) }"

text \<open>
  A timer interrupt: \<open>contextswitch\<close> (ctsw.c) saves the interrupted process's \<open>EAX\<close> in
  its \<open>result_code\<close>, then \<open>dispatch\<close> runs its \<open>TIMER_INT\<close> case.
\<close>

definition timer_int :: "word32 \<Rightarrow> kernel \<Rightarrow> kernel option" where
  "timer_int eax s =
     do {
       let s = upd_pcb (current_proc s) (\<lambda>c. c\<lparr>result_code := eax\<rparr>) s;
       let s = upd_pcb (current_proc s) (\<lambda>c. c\<lparr>cpuTime := cpuTime c + 1\<rparr>) s;
       s \<leftarrow> tick s;
       yield s
     }"

text \<open>
  Timer interrupts in a row, nothing else entering the kernel in between; the list holds
  the \<open>EAX\<close> of the interrupted process at each of them.
\<close>

fun timer_ints :: "word32 list \<Rightarrow> kernel \<Rightarrow> kernel option" where
  "timer_ints [] s = Some s"
| "timer_ints (eax # es) s = do { s \<leftarrow> timer_int eax s; timer_ints es s }"

text \<open>
  A process that is the only sleeper and the only user process, \<open>n\<close> ticks before it is
  due: it is the single node of the delta list, the ready queues are empty and the idle
  process runs.
\<close>

definition sleeping :: "pcb_ptr \<Rightarrow> nat \<Rightarrow> kernel \<Rightarrow> bool" where
  "sleeping cp n t =
     (dl_size (sleep_queue t) = 1 \<and> dl_head (sleep_queue t) = cp
      \<and> key (pcbs t cp) = of_nat n \<and> next (pcbs t cp) = NULL
      \<and> state (pcbs t cp) = BLOCKED \<and> blocked_queue (pcbs t cp) = SLEEP
      \<and> current_proc t = IdleProc \<and> pid (pcbs t IdleProc) = IDLE_PROC_PID
      \<and> pid (pcbs t cp) \<noteq> IDLE_PROC_PID \<and> cp \<noteq> NULL \<and> cp \<noteq> IdleProc
      \<and> unat (priority (pcbs t cp)) < 4
      \<and> (\<forall>i<4. ready_queues t i = \<lparr>q_size = 0, q_head = NULL, q_tail = NULL\<rparr>))"

text \<open>
  The process in slot 0 calls \<open>syssleep(25)\<close>, and the state after the request has been
  served: the caller is then the only node of the delta list.
\<close>

definition sleep_call :: kernel where
  "sleep_call = syscall_trap 0x300000 [25] one_running"

definition one_sleeper :: kernel where
  "one_sleeper = the (service_syssleep sleep_call)"





section \<open>The delta list as a list of sleepers\<close>

text \<open>
  The statements about the delta list read it as the list of its nodes.  \<open>lseg s xs z\<close>:
  the nodes \<open>xs\<close> are linked in this order through \<open>next\<close>, the last one pointing to \<open>z\<close>.
  \<open>is_delta s ys\<close>: \<open>sleep_queue\<close> holds exactly the nodes \<open>ys\<close>.  \<open>due s ys x\<close>: the number of
  ticks after which \<open>x\<close> is due, the sum of the keys from the head up to \<open>x\<close>.
\<close>

fun lseg :: "kernel \<Rightarrow> pcb_ptr list \<Rightarrow> pcb_ptr \<Rightarrow> bool" where
  "lseg s [] z = True"
| "lseg s (x # xs) z =
     (x \<noteq> NULL \<and> next (pcbs s x) = (case xs of [] \<Rightarrow> z | y # _ \<Rightarrow> y) \<and> lseg s xs z)"

definition is_delta :: "kernel \<Rightarrow> pcb_ptr list \<Rightarrow> bool" where
  "is_delta s ys =
     (dl_size (sleep_queue s) = of_nat (length ys)
      \<and> dl_head (sleep_queue s) = (case ys of [] \<Rightarrow> NULL | y # _ \<Rightarrow> y)
      \<and> distinct ys \<and> lseg s ys NULL)"

fun due :: "kernel \<Rightarrow> pcb_ptr list \<Rightarrow> pcb_ptr \<Rightarrow> word32" where
  "due s [] x = 0"
| "due s (y # ys) x = key (pcbs s y) + (if y = x then 0 else due s ys x)"

definition sum_keys :: "kernel \<Rightarrow> pcb_ptr list \<Rightarrow> word32" where
  "sum_keys s ys = sum_list (map (\<lambda>y. key (pcbs s y)) ys)"




text \<open>
  A second process, in slot 2 with pid 3, calls \<open>syssleep(15)\<close> while the process in slot 0
  is asleep with three ticks to go.
\<close>

definition second_call :: kernel where
  "second_call =
     syscall_trap 0x300000 [15]
       ((upd_pcb (Table 2) (\<lambda>c. c\<lparr>pid := 3, state := RUNNING, priority := 3, blocked_queue := NONE\<rparr>)
           one_sleeper)\<lparr>current_proc := Table 2\<rparr>)"

section \<open>Memory\<close>

lemma load32_zero: "load32 (\<lambda>_. 0) a = 0"
  by (simp add: load32_def)

lemma bytes_word32:
  "(ucast (ucast v :: byte) :: word32) OR push_bit 8 (ucast (ucast (drop_bit 8 v) :: byte))
     OR push_bit 16 (ucast (ucast (drop_bit 16 v) :: byte))
     OR push_bit 24 (ucast (ucast (drop_bit 24 v) :: byte)) = (v :: word32)"
proof (rule bit_word_eqI)
  fix n :: nat
  assume n: "n < LENGTH(32)"
  have c: "n < 8 \<or> (8 \<le> n \<and> n < 16) \<or> (16 \<le> n \<and> n < 24) \<or> 24 \<le> n" by arith
  show "bit (ucast (ucast v :: byte) OR push_bit 8 (ucast (ucast (drop_bit 8 v) :: byte))
     OR push_bit 16 (ucast (ucast (drop_bit 16 v) :: byte))
     OR push_bit 24 (ucast (ucast (drop_bit 24 v) :: byte)) :: word32) n = bit v n"
    using c n by (auto simp add: bit_simps)
qed

lemma load32_store32_same: "load32 (store32 a v m) a = v"
  by (simp add: load32_def store32_def bytes_word32)

lemma load32_store32_disj:
  assumes "4 \<le> a - b" "4 \<le> b - a"
  shows "load32 (store32 b v m) a = load32 m a"
proof -
  have "a + i \<noteq> b + j" if "i \<in> {0, 1, 2, 3}" "j \<in> {0, 1, 2, 3}" for i j :: word32
  proof
    assume "a + i = b + j"
    then have "a - b = j - i" by (simp add: algebra_simps)
    then have "b - a = i - j" by (metis minus_diff_eq)
    with \<open>a - b = j - i\<close> assms that show False by (auto simp add: word_le_nat_alt)
  qed
  from this [of 0 0] this [of 0 1] this [of 0 2] this [of 0 3]
       this [of 1 0] this [of 1 1] this [of 1 2] this [of 1 3]
       this [of 2 0] this [of 2 1] this [of 2 2] this [of 2 3]
       this [of 3 0] this [of 3 1] this [of 3 2] this [of 3 3]
  show ?thesis by (simp add: load32_def store32_def)
qed

lemma arg_syscall_trap3:
  "arg (syscall_trap a [x, y, z] s) 0 = x"
  "arg (syscall_trap a [x, y, z] s) (Suc 0) = y"
  "arg (syscall_trap a [x, y, z] s) 2 = z"
proof -
  have e: "8 + a = a + 8" by simp
  show "arg (syscall_trap a [x, y, z] s) 0 = x" "arg (syscall_trap a [x, y, z] s) (Suc 0) = y"
    by (simp_all add: arg_def syscall_trap_def load32_store32_same load32_store32_disj
        diff_add_eq_diff_diff_swap word_le_nat_alt)
  show "arg (syscall_trap a [x, y, z] s) 2 = z"
    unfolding arg_def syscall_trap_def
    apply simp
    apply (subst e)
    apply (rule load32_store32_same)
    done
qed

section \<open>syssleep(0)\<close>

text \<open>
  C10.  A \<open>syssleep\<close> request whose argument is 0 leaves the whole kernel state as it
  was: the caller stays the current process and is not blocked, the delta list is not
  touched and \<open>result_code\<close> is not written, so the value handed back to user mode is
  the \<open>result_code\<close> of the caller's previous kernel interaction.
\<close>

theorem service_syssleep_zero:
  assumes "arg s 0 = 0"
  shows "service_syssleep s = Some s"
  using assms by (simp add: service_syssleep_def)

theorem service_syssleep_zero_witness:
  "arg one_running 0 = 0 \<and> service_syssleep one_running = Some one_running
     \<and> returned_to_user one_running = 7"
proof -
  have a: "arg one_running 0 = 0"
    by (simp add: arg_def one_running_def upd_pcb_def zero_kernel_def load32_zero)
  have r: "returned_to_user one_running = 7"
    by (simp add: returned_to_user_def one_running_def upd_pcb_def zero_kernel_def)
  from service_syssleep_zero [OF a] a r show ?thesis by simp
qed


section \<open>Installing signal handlers\<close>

lemma valid_ptr_layout:
  "HOLESTART t = HOLESTART s \<Longrightarrow> HOLEEND t = HOLEEND s \<Longrightarrow> maxaddr t = maxaddr s
   \<Longrightarrow> valid_ptr t = valid_ptr s"
  by (simp add: valid_ptr_def in_memory_range_def fun_eq_iff)

lemma service_syssighandler_ok:
  assumes "0 \<le>s arg s 0" "arg s 0 <s 31" "arg s 1 = 0 \<or> valid_ptr s (arg s 1)"
    "valid_ptr s (arg s 2)"
  shows "service_syssighandler s =
     s\<lparr>mem := store32 (arg s 2) (signal_table (pcbs s (current_proc s)) (unat (arg s 0))) (mem s),
       pcbs := (pcbs s)(current_proc s := (pcbs s (current_proc s))
         \<lparr>signal_table := (signal_table (pcbs s (current_proc s)))(unat (arg s 0) := arg s 1),
          result_code := 0\<rparr>)\<rparr>"
  using assms
  by (auto simp add: service_syssighandler_def Let_def SIGNAL_TABLE_SIZE_def set_result_code_def
      upd_pcb_def word_sless_alt word_sle_eq valid_ptr_def in_memory_range_def)

text \<open>
  C9.  For a signal number in 0..30, a handler \<open>h\<close> that is null or a valid pointer, and
  valid addresses \<open>oldp\<close> and \<open>h2p\<close> of two user variables:
  \<open>sighandler(sig, h, oldp)\<close> followed by \<open>sighandler(sig, *oldp, h2p)\<close> leaves the signal
  table of the process as it was before the first call, stores \<open>h\<close> at \<open>h2p\<close>, and both
  calls return 0.  Between the calls the process may write its memory (\<open>m'\<close>) and push
  the second call's arguments (\<open>a'\<close>); the entry that the first call replaces is null
  or a valid pointer, as every entry is that the kernel has written.
\<close>

theorem sighandler_round_trip:
  assumes sig: "0 \<le>s sig" "sig <s 31"
    and a1: "arg s 0 = sig" "arg s 1 = h" "arg s 2 = oldp"
    and vh: "h = 0 \<or> valid_ptr s h"
    and vo: "valid_ptr s oldp" "valid_ptr s h2p"
    and v0: "signal_table (pcbs s (current_proc s)) (unat sig) = 0
             \<or> valid_ptr s (signal_table (pcbs s (current_proc s)) (unat sig))"
    and s1: "s1 = service_syssighandler s"
    and t: "t = s1\<lparr>args := a', mem := m'\<rparr>"
    and a2: "arg t 0 = sig" "arg t 1 = load32 (mem s1) oldp" "arg t 2 = h2p"
    and s2: "s2 = service_syssighandler t"
  shows "signal_table (pcbs s2 (current_proc s)) = signal_table (pcbs s (current_proc s))
         \<and> load32 (mem s2) h2p = h
         \<and> result_code (pcbs s1 (current_proc s)) = 0
         \<and> result_code (pcbs s2 (current_proc s)) = 0"
proof -
  let ?cp = "current_proc s"
  let ?h0 = "signal_table (pcbs s ?cp) (unat sig)"
  have e1: "s1 = s\<lparr>mem := store32 oldp ?h0 (mem s),
       pcbs := (pcbs s)(?cp := (pcbs s ?cp)
         \<lparr>signal_table := (signal_table (pcbs s ?cp))(unat sig := h), result_code := 0\<rparr>)\<rparr>"
    unfolding s1 using service_syssighandler_ok [of s] sig a1 vh vo by simp
  have old: "load32 (mem s1) oldp = ?h0"
    by (simp add: e1 load32_store32_same)
  have vt: "valid_ptr t = valid_ptr s"
    by (rule valid_ptr_layout) (simp_all add: t e1)
  have cpt: "current_proc t = ?cp" by (simp add: t e1)
  have e2: "s2 = t\<lparr>mem := store32 h2p (signal_table (pcbs t ?cp) (unat sig)) (mem t),
       pcbs := (pcbs t)(?cp := (pcbs t ?cp)
         \<lparr>signal_table := (signal_table (pcbs t ?cp))(unat sig := ?h0), result_code := 0\<rparr>)\<rparr>"
    unfolding s2 using service_syssighandler_ok [of t] sig a2 v0 vo by (simp add: vt cpt old)
  have tab: "signal_table (pcbs t ?cp) = (signal_table (pcbs s ?cp))(unat sig := h)"
    by (simp add: t e1)
  show ?thesis
    by (simp add: e2 tab load32_store32_same) (simp add: e1)
qed


theorem sighandler_round_trip_witness:
  "signal_table (pcbs (service_syssighandler sig_call2) (Table 0))
     = signal_table (pcbs sig_call1 (Table 0))
   \<and> load32 (mem (service_syssighandler sig_call2)) 0x310004 = 0x3000
   \<and> result_code (pcbs (service_syssighandler sig_call1) (Table 0)) = 0
   \<and> result_code (pcbs (service_syssighandler sig_call2) (Table 0)) = 0"
proof -
  have cp: "current_proc sig_call1 = Table 0"
    by (simp add: sig_call1_def syscall_trap_def one_running_def)
  have lay: "HOLESTART sig_call1 = 0xA0000" "HOLEEND sig_call1 = 0x196000"
    "maxaddr sig_call1 = 0x400000"
    by (simp_all add: sig_call1_def syscall_trap_def one_running_def upd_pcb_def zero_kernel_def)
  have tab: "signal_table (pcbs sig_call1 (Table 0)) (unat (5 :: word32)) = 0"
    by (simp add: sig_call1_def syscall_trap_def one_running_def upd_pcb_def zero_kernel_def
        zero_pcb_def)
  have v: "valid_ptr sig_call1 0x3000" "valid_ptr sig_call1 0x310000"
    "valid_ptr sig_call1 0x310004"
    by (simp_all add: valid_ptr_def in_memory_range_def lay)
  have a1: "arg sig_call1 0 = 5" "arg sig_call1 1 = 0x3000" "arg sig_call1 2 = 0x310000"
    by (simp_all add: sig_call1_def arg_syscall_trap3)
  have a2: "arg sig_call2 0 = 5"
    "arg sig_call2 1 = load32 (mem (service_syssighandler sig_call1)) 0x310000"
    "arg sig_call2 2 = 0x310004"
    by (simp_all add: sig_call2_def arg_syscall_trap3)
  have s: "(0 :: word32) \<le>s 5" "(5 :: word32) <s 31"
    by (simp_all add: word_sle_eq word_sless_alt)
  from sighandler_round_trip [where sig = 5 and s = sig_call1 and h = "0x3000"
      and oldp = "0x310000" and ?h2p = "0x310004" and ?s1.0 = "service_syssighandler sig_call1"
      and t = sig_call2 and a' = "0x300000" and ?s2.0 = "service_syssighandler sig_call2"
      and m' = "store_words 0x300000
         [5, load32 (mem (service_syssighandler sig_call1)) 0x310000, 0x310004]
         (mem (service_syssighandler sig_call1))"]
    s a1 a2 v tab
  show ?thesis by (simp add: cp sig_call2_def syscall_trap_def)
qed



lemma pids_upd_pcb:
  "pids (upd_pcb p f s) = (pids s)(p := pid (f (pcbs s p)))"
  by (auto simp add: pids_def upd_pcb_def fun_eq_iff)

lemma pids_upd_queue [simp]: "pids (upd_queue q f s) = pids s"
  by (cases q) (auto simp add: pids_def upd_pcb_def fun_eq_iff)

lemma pids_fields [simp]:
  "pids (s\<lparr>user_proc_count := u\<rparr>) = pids s"
  "pids (s\<lparr>mem := m\<rparr>) = pids s"
  "pids (s\<lparr>current_proc := c\<rparr>) = pids s"
  "pids (s\<lparr>sleep_queue := d\<rparr>) = pids s"
  "pids (s\<lparr>args := a\<rparr>) = pids s"
  "pids (s\<lparr>kbd_dev := k\<rparr>) = pids s"
  by (simp_all add: pids_def fun_eq_iff)

lemma pids_upd_pcb_same [simp]: "pid (f (pcbs s p)) = pid (pcbs s p) \<Longrightarrow> pids (upd_pcb p f s) = pids s"
  by (auto simp add: pids_upd_pcb pids_def fun_eq_iff)

lemma pids_init_queue [simp]: "pids (init_queue q s) = pids s"
  by (simp add: init_queue_def)

lemma pids_enqueue: "enqueue q p s = Some s' \<Longrightarrow> pids s' = pids s"
  by (auto simp add: enqueue_def Let_def split: if_splits)

lemma pids_dequeue [simp]: "pids (snd (dequeue q s)) = pids s"
  by (simp add: dequeue_def Let_def)

lemma pids_remove_q: "remove_q q p s = Some s' \<Longrightarrow> pids s' = pids s"
  by (auto simp add: remove_q_def Let_def split: if_splits)

lemma pids_ready: "ready p s = Some s' \<Longrightarrow> pids s' = pids s"
  by (auto simp add: ready_def Let_def dest!: pids_enqueue split: if_splits)

lemma pids_fold_upd_pcb:
  "(\<And>i c. pid (f i c) = pid c) \<Longrightarrow> pids (fold (\<lambda>i. upd_pcb p (f i)) xs s) = pids s"
  by (induction xs arbitrary: s) simp_all

lemma mod32_plus32: "((y :: word32) + 32) mod 32 = y mod 32"
  by (simp add: word_unat_eq_iff unat_mod unat_word_ariths mod_mod_cancel)

lemma mod32_add32: "(31 + (x :: word32)) mod 32 = (x - 1) mod 32"
proof -
  have "31 + x = (x - 1) + 32" by simp
  then show ?thesis by (simp only: mod32_plus32)
qed

lemma uint_pred_mod32:
  fixes k :: int
  assumes "1 \<le> k" "k < 2 ^ 31"
  shows "uint ((word_of_int k - 1 :: word32) mod 32) = (k - 1) mod 32"
proof -
  have e: "(word_of_int k - 1 :: word32) = word_of_int (k - 1)" by simp
  have "uint (word_of_int (k - 1) :: word32) = k - 1"
    using assms by (simp del: of_int_diff add: uint_word_of_int_eq take_bit_int_eq_self)
  then show ?thesis unfolding e by (simp del: of_int_diff add: uint_mod)
qed

lemma wrap_rule:
  fixes old :: word32
  assumes old: "1 \<le>s old" and new: "1 \<le>s c_rem old 32"
  shows "(c_rem old 32 - 1) mod 32 = (old - 1) mod 32"
proof -
  define k where "k = sint old"
  have k1: "1 \<le> k" using old by (simp add: word_sle_eq k_def)
  have k2: "k < 2 ^ 31" using sint_lt [of old] by (simp add: k_def)
  have o: "old = word_of_int k" by (simp add: k_def)
  define r where "r = k mod 32"
  have r0: "0 \<le> r" "r < 32" by (simp_all add: r_def)
  have c: "c_rem old 32 = word_of_int r"
    using k1 by (simp add: c_rem_def k_def [symmetric] r_def smod_mod_positive)
  have "sint (word_of_int r :: word32) = r"
    using r0 by (simp add: sint_sbintrunc' signed_take_bit_int_eq_self)
  with new c have r1: "1 \<le> r" by (simp add: word_sle_eq)
  have "uint ((word_of_int r - 1 :: word32) mod 32) = (r - 1) mod 32"
    using r1 r0 by (intro uint_pred_mod32) simp_all
  moreover have "uint ((word_of_int k - 1 :: word32) mod 32) = (k - 1) mod 32"
    using k1 k2 by (rule uint_pred_mod32)
  moreover have "(r - 1) mod 32 = (k - 1) mod 32"
    unfolding r_def by (simp add: mod_diff_left_eq)
  ultimately have "(word_of_int r - 1) mod 32 = (word_of_int k - 1 :: word32) mod 32"
    by (simp add: word_uint_eq_iff)
  then show ?thesis unfolding c by (simp only: o [symmetric])
qed

lemma pid_rule:
  assumes "1 \<le>s old" and "1 \<le>s reused_pid old"
  shows "(reused_pid old - 1) mod 32 = (old - 1) mod 32"
  using assms by (auto simp add: reused_pid_def wrap_rule mod32_add32 split: if_splits)

lemma fst_dequeue: "\<not> is_empty_q q s \<Longrightarrow> fst (dequeue q s) = q_head (get_queue s q)"
  by (simp add: dequeue_def is_empty_q_def Let_def)

lemma get_unused_pcb_pids:
  assumes "get_unused_pcb s = Some (p, s')"
  shows "(is_empty_q StoppedQ s \<and> p = NULL \<and> s' = s)
       \<or> (\<not> is_empty_q StoppedQ s \<and> p = q_head (stopped_queue s)
           \<and> 1 \<le>s reused_pid (pids s p)
           \<and> pids s' = (pids s)(p := reused_pid (pids s p)))"
proof (cases "is_empty_q StoppedQ s")
  case True
  with assms show ?thesis by (simp add: get_unused_pcb_def)
next
  case False
  define t where "t = snd (dequeue StoppedQ s)"
  have pt: "pids t = pids s" by (simp add: t_def)
  have p: "fst (dequeue StoppedQ s) = q_head (stopped_queue s)"
    using False by (simp add: fst_dequeue)
  from assms False have 1: "1 \<le>s reused_pid (pids s (q_head (stopped_queue s)))"
    and 2: "p = q_head (stopped_queue s)"
    by (auto simp add: get_unused_pcb_def Let_def p t_def [symmetric] reused_pid_def
        PCB_TABLE_SIZE_def pids_def [symmetric] pt split: if_splits)
  from assms False 1 have "pids s' = (pids s)(p := reused_pid (pids s p))"
    by (auto simp add: get_unused_pcb_def Let_def p t_def [symmetric] reused_pid_def
        PCB_TABLE_SIZE_def pids_def [symmetric] pt pids_fold_upd_pcb pids_upd_pcb
        split: if_splits)
  with False 1 2 show ?thesis by simp
qed

lemma get_unused_pcb_pid_inv:
  assumes "get_unused_pcb s = Some (p, s')" and "pid_inv s"
  shows "pid_inv s'"
proof -
  from get_unused_pcb_pids [OF assms(1)] show ?thesis
  proof
    assume "is_empty_q StoppedQ s \<and> p = NULL \<and> s' = s"
    with assms(2) show ?thesis by simp
  next
    assume a: "\<not> is_empty_q StoppedQ s \<and> p = q_head (stopped_queue s)
           \<and> 1 \<le>s reused_pid (pids s p)
           \<and> pids s' = (pids s)(p := reused_pid (pids s p))"
    show ?thesis
      unfolding pid_inv_def
    proof (intro allI impI)
      fix i assume i: "i < PCB_TABLE_SIZE"
      with assms(2) have old: "1 \<le>s pids s (Table i)" "unat ((pids s (Table i) - 1) mod 32) = i"
        by (simp_all add: pid_inv_def)
      show "1 \<le>s pids s' (Table i) \<and> unat ((pids s' (Table i) - 1) mod 32) = i"
      proof (cases "p = Table i")
        case True
        from a have a1: "1 \<le>s reused_pid (pids s p)"
          and a2: "pids s' = (pids s)(p := reused_pid (pids s p))" by blast+
        from a1 a2 have n: "1 \<le>s reused_pid (pids s (Table i))"
          and e: "pids s' (Table i) = reused_pid (pids s (Table i))"
          unfolding True by simp_all
        from pid_rule [OF old(1) n] old(2) n show ?thesis by (simp only: e)
      next
        case False
        from a have "pids s' = (pids s)(p := reused_pid (pids s p))" by blast
        with False old show ?thesis by simp
      qed
    qed
  qed
qed

lemma for_loop_rule:
  assumes "P i s" and "i \<le> hi"
    and "\<And>j t. i \<le> j \<Longrightarrow> j < hi \<Longrightarrow> P j t \<Longrightarrow> \<exists>t'. body j t = Some t' \<and> P (j + 1) t'"
  shows "\<exists>s'. for_loop i hi body s = Some s' \<and> P hi s'"
  using assms
proof (induction "hi - i" arbitrary: i s)
  case 0
  then show ?case by (subst for_loop.simps) simp
next
  case (Suc k)
  then have lt: "i < hi" by simp
  from Suc.prems(3) [OF le_refl lt Suc.prems(1)]
  obtain t' where b: "body i s = Some t'" and p: "P (i + 1) t'" by blast
  have "\<exists>s'. for_loop (i + 1) hi body t' = Some s' \<and> P hi s'"
  proof (rule Suc.hyps(1))
    show "k = hi - (i + 1)" using Suc.hyps(2) by simp
    show "P (i + 1) t'" by (rule p)
    show "i + 1 \<le> hi" using lt by simp
    show "\<exists>t'. body j t = Some t' \<and> P (j + 1) t'" if "i + 1 \<le> j" "j < hi" "P j t" for j t
      using that Suc.prems(3) [of j t] by simp
  qed
  with b lt show ?case by (subst for_loop.simps) simp
qed

lemma kdispinit_slot_step:
  assumes "slots_set j s t" and "q_tail (stopped_queue s) = NULL" "q_size (stopped_queue s) = 0"
  shows "\<exists>t'. kdispinit_slot j t = Some t' \<and> slots_set (j + 1) s t'"
proof (cases "j = 0")
  case True
  with assms show ?thesis
    by (simp add: kdispinit_slot_def stop_def enqueue_def init_queue_def Let_def upd_pcb_def
        slots_set_def pids_def)
next
  case False
  with assms show ?thesis
    by (auto simp add: kdispinit_slot_def stop_def enqueue_def init_queue_def Let_def upd_pcb_def
        slots_set_def pids_def less_Suc_eq)
qed

lemma kdispinit_unfold:
  "\<exists>s2 s3. slots_set PCB_TABLE_SIZE s2 s3
      \<and> kdispinit a b s =
          do { t \<leftarrow> create_idle_proc a b IdleProc (init_queue ReceiveAnyQ s3);
               Some (t\<lparr>user_proc_count := 0\<rparr>) }"
proof -
  have "\<exists>s1. for_loop 0 NUM_PRIORITIES (\<lambda>i s. Some (init_queue (ReadyQ i) s)) s = Some s1
          \<and> pids s1 = pids s"
    by (rule for_loop_rule) simp_all
  then obtain s1 where l1: "for_loop 0 NUM_PRIORITIES (\<lambda>i s. Some (init_queue (ReadyQ i) s)) s = Some s1"
    and p1: "pids s1 = pids s" by blast
  let ?s2 = "init_queue StoppedQ s1"
  have q: "q_tail (stopped_queue ?s2) = NULL" "q_size (stopped_queue ?s2) = 0"
    by (simp_all add: init_queue_def)
  have "\<exists>s3. for_loop 0 PCB_TABLE_SIZE kdispinit_slot ?s2 = Some s3
          \<and> slots_set PCB_TABLE_SIZE ?s2 s3"
  proof (rule for_loop_rule)
    show "slots_set 0 ?s2 ?s2" by (simp add: slots_set_def)
    show "0 \<le> PCB_TABLE_SIZE" by simp
    show "\<exists>t'. kdispinit_slot j t = Some t' \<and> slots_set (j + 1) ?s2 t'"
      if "slots_set j ?s2 t" for j t
      using that q by (rule kdispinit_slot_step)
  qed
  then obtain s3 where l2: "for_loop 0 PCB_TABLE_SIZE kdispinit_slot ?s2 = Some s3"
    and p3: "slots_set PCB_TABLE_SIZE ?s2 s3" by blast
  have "kdispinit a b s =
          do { t \<leftarrow> create_idle_proc a b IdleProc (init_queue ReceiveAnyQ s3);
               Some (t\<lparr>user_proc_count := 0\<rparr>) }"
    by (simp add: kdispinit_def l1 l2)
  with p3 show ?thesis by blast
qed

lemma create_idle_proc_frame:
  assumes "create_idle_proc a b IdleProc s = Some t"
  shows "stopped_queue t = stopped_queue s \<and> (\<forall>m. pcbs t (Table m) = pcbs s (Table m))"
  using assms by (auto simp add: create_idle_proc_def Let_def upd_pcb_def split: if_splits)

lemma kdispinit_Some:
  assumes "kdispinit a b s = Some s'"
  shows "(\<forall>m<PCB_TABLE_SIZE. pids s' (Table m) = of_nat m + 1)
       \<and> (\<forall>m<PCB_TABLE_SIZE. state (pcbs s' (Table m)) = STOPPED)
       \<and> q_head (stopped_queue s') = Table 0 \<and> q_size (stopped_queue s') = 32"
proof -
  from kdispinit_unfold [of a b s] obtain s2 s3 where
    p: "slots_set PCB_TABLE_SIZE s2 s3" and
    k: "kdispinit a b s =
          do { t \<leftarrow> create_idle_proc a b IdleProc (init_queue ReceiveAnyQ s3);
               Some (t\<lparr>user_proc_count := 0\<rparr>) }" by blast
  from assms k obtain t where c: "create_idle_proc a b IdleProc (init_queue ReceiveAnyQ s3) = Some t"
    and s': "s' = t\<lparr>user_proc_count := 0\<rparr>"
    by (auto simp add: bind_eq_Some_conv)
  from create_idle_proc_frame [OF c] have f: "stopped_queue s' = stopped_queue s3"
    "\<And>m. pcbs s' (Table m) = pcbs s3 (Table m)"
    by (simp_all add: s' init_queue_def)
  from p have "\<forall>m<PCB_TABLE_SIZE. pids s3 (Table m) = of_nat m + 1"
    "\<forall>m<PCB_TABLE_SIZE. state (pcbs s3 (Table m)) = STOPPED"
    "q_head (stopped_queue s3) = Table 0" "q_size (stopped_queue s3) = 32"
    by (simp_all add: slots_set_def PCB_TABLE_SIZE_def)
  then show ?thesis by (simp add: f pids_def)
qed

lemma kdispinit_returns:
  assumes "a \<noteq> 0"
  shows "\<exists>s'. kdispinit a b s = Some s'"
proof -
  from kdispinit_unfold [of a b s] obtain s3 where
    k: "kdispinit a b s =
          do { t \<leftarrow> create_idle_proc a b IdleProc (init_queue ReceiveAnyQ s3);
               Some (t\<lparr>user_proc_count := 0\<rparr>) }" by blast
  have "\<exists>t. create_idle_proc a b IdleProc (init_queue ReceiveAnyQ s3) = Some t"
    using assms by (simp add: create_idle_proc_def Let_def)
  with k show ?thesis by auto
qed

lemma sint_of_nat32: "n < 2 ^ 31 \<Longrightarrow> sint (of_nat n :: word32) = int n"
  by (simp add: signed_of_nat signed_take_bit_int_eq_self)

lemma initial_pid_ok:
  assumes "m < 32"
  shows "1 \<le>s (of_nat m + 1 :: word32)" and "unat ((of_nat m :: word32) mod 32) = m"
proof -
  have e: "(of_nat m + 1 :: word32) = of_nat (Suc m)" by simp
  have "sint (of_nat (Suc m) :: word32) = int (Suc m)"
    using assms by (intro sint_of_nat32) simp
  then show "1 \<le>s (of_nat m + 1 :: word32)" unfolding e by (simp add: word_sle_eq)
  show "unat ((of_nat m :: word32) mod 32) = m"
    using assms by (simp add: unat_mod unat_of_nat)
qed

lemma reachable_pid_inv: "reachable s \<Longrightarrow> pid_inv s"
proof (induction rule: reachable.induct)
  case (boot idle_stack idleproc_addr s0 s)
  from kdispinit_Some [OF boot] show ?case
    by (simp add: pid_inv_def PCB_TABLE_SIZE_def initial_pid_ok)
next
  case (reuse s p s')
  then show ?case by (blast intro: get_unused_pcb_pid_inv)
next
  case (other s s')
  then show ?case by (simp add: pid_inv_def)
qed

lemma uint_eq_sint: "0 \<le> sint (x :: word32) \<Longrightarrow> uint x = sint x"
  using sint_lt [of x] by (simp add: uint_sint take_bit_int_eq_self)

lemma c_rem_nonneg:
  assumes "0 \<le> sint (old :: word32)"
  shows "c_rem old 32 = old mod 32"
proof -
  have "uint (old mod 32) = sint old mod 32"
    using assms by (simp add: uint_mod uint_eq_sint)
  then have "old mod 32 = word_of_int (sint old mod 32)"
    by (metis word_of_int_uint)
  with assms show ?thesis by (simp add: c_rem_def smod_mod_positive)
qed

lemma add32_wraps:
  assumes "1 \<le> sint (old :: word32)"
  shows "(old + 32 <s 1) = (\<not> sint old + 32 < 2 ^ 31)"
proof (cases "sint old + 32 < 2 ^ 31")
  case True
  have "sint (old + 32) = signed_take_bit 31 (sint old + 32)"
    by (simp add: sint_word_add)
  also have "\<dots> = sint old + 32"
    using True assms by (simp add: signed_take_bit_int_eq_self)
  finally show ?thesis using True assms by (simp add: word_sless_alt)
next
  case False
  have k: "sint old < 2 ^ 31" using sint_lt [of old] by simp
  have "(sint old + 32) div 2 ^ 31 = 1"
    by (rule int_div_pos_eq [where r = "sint old + 32 - 2 ^ 31"]) (use False k in simp_all)
  then have "bit (sint old + 32) 31" by (simp add: bit_iff_odd)
  then have "signed_take_bit 31 (sint old + 32) < 0"
    by (simp add: signed_take_bit_negative_iff)
  moreover have "sint (old + 32) = signed_take_bit 31 (sint old + 32)"
    by (simp add: sint_word_add)
  ultimately have "sint (old + 32) < 1" by linarith
  then show ?thesis using False by (simp add: word_sless_alt)
qed

lemma reused_pid_eq:
  assumes "1 \<le>s (old :: word32)"
  shows "reused_pid old = (if sint old + 32 < 2 ^ 31 then old + 32 else old mod 32)"
  using assms add32_wraps [of old] c_rem_nonneg [of old]
  by (simp add: reused_pid_def word_sle_eq)

lemma get_pcb_iff:
  assumes "pid_inv s"
  shows "(get_pcb p s \<noteq> NULL)
       = (\<exists>i<PCB_TABLE_SIZE. state (pcbs s (Table i)) \<noteq> STOPPED \<and> pids s (Table i) = p)"
proof
  assume "get_pcb p s \<noteq> NULL"
  then have "state (pcbs s (Table (unat ((p - 1) mod 32)))) \<noteq> STOPPED"
    "pids s (Table (unat ((p - 1) mod 32))) = p"
    by (auto simp add: get_pcb_def Let_def PCB_TABLE_SIZE_def pids_def split: if_splits)
  moreover have "unat ((p - 1) mod 32) < PCB_TABLE_SIZE"
    by (simp add: unat_mod PCB_TABLE_SIZE_def)
  ultimately show "\<exists>i<PCB_TABLE_SIZE. state (pcbs s (Table i)) \<noteq> STOPPED \<and> pids s (Table i) = p"
    by blast
next
  assume "\<exists>i<PCB_TABLE_SIZE. state (pcbs s (Table i)) \<noteq> STOPPED \<and> pids s (Table i) = p"
  then obtain i where i: "i < PCB_TABLE_SIZE" "state (pcbs s (Table i)) \<noteq> STOPPED"
    "pids s (Table i) = p" by blast
  with assms have p: "1 \<le>s p" "unat ((p - 1) mod 32) = i" by (auto simp add: pid_inv_def)
  from p(1) have "p \<noteq> 0" by (auto simp add: word_sle_eq)
  then have "1 \<le> p" by (simp add: word_le_nat_alt unat_gt_0 Suc_le_eq)
  with i p show "get_pcb p s \<noteq> NULL"
    by (simp add: get_pcb_def Let_def PCB_TABLE_SIZE_def pids_def)
qed

text \<open>
  The part of the PID policy that holds in every reachable state: each slot of the PCB
  table stores a PID that is at least 1 and from which \<open>(pid - 1) mod 32\<close> gives back the
  slot; the PIDs of different slots differ; \<open>get_pcb pid\<close> is non-null exactly when a
  non-stopped slot stores \<open>pid\<close>; and if \<open>get_unused_pcb\<close> returns a slot, its new PID is
  the old one plus 32, or the old one modulo 32 when the addition overflows.  Whether
  \<open>get_unused_pcb\<close> returns at all is settled separately.
\<close>

theorem pid_policy:
  assumes "reachable s"
  shows "(\<forall>i<PCB_TABLE_SIZE. 1 \<le>s pids s (Table i)
            \<and> Table (unat ((pids s (Table i) - 1) mod of_nat PCB_TABLE_SIZE)) = Table i)
       \<and> (\<forall>i<PCB_TABLE_SIZE. \<forall>j<PCB_TABLE_SIZE. i \<noteq> j \<longrightarrow> pids s (Table i) \<noteq> pids s (Table j))
       \<and> (\<forall>p. (get_pcb p s \<noteq> NULL)
              = (\<exists>i<PCB_TABLE_SIZE. state (pcbs s (Table i)) \<noteq> STOPPED \<and> pids s (Table i) = p))
       \<and> (\<forall>i<PCB_TABLE_SIZE. \<forall>s'. get_unused_pcb s = Some (Table i, s') \<longrightarrow>
              pids s' (Table i)
                = (if sint (pids s (Table i)) + 32 < 2 ^ 31 then pids s (Table i) + 32
                   else pids s (Table i) mod 32))"
proof -
  from assms have inv: "pid_inv s" by (rule reachable_pid_inv)
  have 1: "\<forall>i<PCB_TABLE_SIZE. 1 \<le>s pids s (Table i)
            \<and> Table (unat ((pids s (Table i) - 1) mod of_nat PCB_TABLE_SIZE)) = Table i"
    using inv by (simp add: pid_inv_def PCB_TABLE_SIZE_def)
  have 2: "\<forall>i<PCB_TABLE_SIZE. \<forall>j<PCB_TABLE_SIZE. i \<noteq> j \<longrightarrow> pids s (Table i) \<noteq> pids s (Table j)"
    using inv unfolding pid_inv_def by metis
  have 3: "\<forall>p. (get_pcb p s \<noteq> NULL)
              = (\<exists>i<PCB_TABLE_SIZE. state (pcbs s (Table i)) \<noteq> STOPPED \<and> pids s (Table i) = p)"
    using get_pcb_iff [OF inv] by blast
  have 4: "pids s' (Table i)
                = (if sint (pids s (Table i)) + 32 < 2 ^ 31 then pids s (Table i) + 32
                   else pids s (Table i) mod 32)"
    if i: "i < PCB_TABLE_SIZE" and g: "get_unused_pcb s = Some (Table i, s')" for i s'
  proof -
    from inv i have o: "1 \<le>s pids s (Table i)" by (simp add: pid_inv_def)
    from get_unused_pcb_pids [OF g]
    have "pids s' (Table i) = reused_pid (pids s (Table i))" by auto
    with reused_pid_eq [OF o] show ?thesis by simp
  qed
  from 1 2 3 4 show ?thesis by blast
qed

lemma get_unused_pcb_returns:
  assumes "\<not> is_empty_q StoppedQ s" and "1 \<le>s reused_pid (pids s (q_head (stopped_queue s)))"
  shows "\<exists>s'. get_unused_pcb s = Some (q_head (stopped_queue s), s')"
proof -
  have p: "fst (dequeue StoppedQ s) = q_head (stopped_queue s)"
    using assms(1) by (simp add: fst_dequeue)
  have "pid (pcbs (snd (dequeue StoppedQ s)) (q_head (stopped_queue s)))
        = pids s (q_head (stopped_queue s))"
    by (metis pids_dequeue pids_def)
  with assms show ?thesis
    by (auto simp add: get_unused_pcb_def Let_def p reused_pid_def PCB_TABLE_SIZE_def
        split: if_splits)
qed

theorem pid_policy_witness:
  "reachable first_created \<and> pids first_created (Table 0) = 33
     \<and> 1 \<le>s pids first_created (Table 0)
     \<and> Table (unat ((pids first_created (Table 0) - 1) mod of_nat PCB_TABLE_SIZE)) = Table 0
     \<and> get_pcb 33 first_created \<noteq> NULL"
proof -
  obtain b where b: "kdispinit 0x200000 0x4000 zero_kernel = Some b"
    using kdispinit_returns [of "0x200000" "0x4000" zero_kernel] by auto
  then have bb: "booted = b" by (simp add: booted_def)
  have rb: "reachable booted" unfolding bb using b by (rule reachable.boot)
  from kdispinit_Some [OF b] have k: "pids booted (Table 0) = 1"
    "q_head (stopped_queue booted) = Table 0" "q_size (stopped_queue booted) = 32"
    by (simp_all add: bb PCB_TABLE_SIZE_def)
  have ne: "\<not> is_empty_q StoppedQ booted" by (simp add: is_empty_q_def k)
  have r1: "reused_pid 1 = 33" by (simp add: reused_pid_def word_sless_alt)
  have "1 \<le>s reused_pid (pids booted (q_head (stopped_queue booted)))"
    by (simp add: k r1 word_sle_eq)
  from get_unused_pcb_returns [OF ne this] obtain a
    where g: "get_unused_pcb booted = Some (Table 0, a)" by (auto simp add: k)
  have ra: "reachable a" using rb g by (rule reachable.reuse)
  from get_unused_pcb_pids [OF g] ne have pa: "pids a (Table 0) = 33" by (simp add: k r1)
  have fc: "first_created = upd_pcb (Table 0) (\<lambda>c. c\<lparr>state := READY\<rparr>) a"
    by (simp add: first_created_def g)
  have rf: "reachable first_created"
    using ra by (rule reachable.other) (simp add: fc)
  have pf: "pids first_created (Table 0) = 33" by (simp add: fc pa)
  have st: "state (pcbs first_created (Table 0)) \<noteq> STOPPED" by (simp add: fc upd_pcb_def)
  from pid_policy [OF rf] have
    1: "\<forall>i<PCB_TABLE_SIZE. 1 \<le>s pids first_created (Table i)
          \<and> Table (unat ((pids first_created (Table i) - 1) mod of_nat PCB_TABLE_SIZE)) = Table i"
    and 3: "\<forall>p. (get_pcb p first_created \<noteq> NULL)
              = (\<exists>i<PCB_TABLE_SIZE. state (pcbs first_created (Table i)) \<noteq> STOPPED
                    \<and> pids first_created (Table i) = p)"
    by blast+
  have z: "0 < PCB_TABLE_SIZE" by (simp add: PCB_TABLE_SIZE_def)
  from 3 st pf z have "get_pcb 33 first_created \<noteq> NULL" by blast
  with 1 z rf pf show ?thesis by blast
qed


lemma word31_mask: "(31 :: word32) = mask 5"
  by (simp add: mask_eq_exp_minus_1)

lemma shift_count_of_nat: "k < 32 \<Longrightarrow> shift_count (of_nat k) = k"
  unfolding shift_count_def word31_mask
  by (simp add: unsigned_and_eq take_bit_eq_mod unat_mod unat_of_nat
      flip: take_bit_eq_mask unsigned_take_bit_eq)

lemma is_signal_bit_set_iff:
  assumes "k < 32"
  shows "(is_signal_bit_set w (of_nat k) = 0) = (\<not> bit w k)"
  using assms
  by (simp add: is_signal_bit_set_def shift_count_of_nat and.commute [of 1] and_one_eq
      mod_2_eq_odd bit_0 [symmetric] bit_signed_drop_bit_iff del: bit_0)

lemma bit_clear_signal_bit:
  "k < 32 \<Longrightarrow> bit (clear_signal_bit w (of_nat k)) m = (bit w m \<and> m \<noteq> k)"
  by (auto simp add: clear_signal_bit_def shift_count_of_nat bit_simps dest: bit_imp_le_length)

lemma bit_set_signal_bit:
  "k < 32 \<Longrightarrow> bit (set_signal_bit w (of_nat k)) m = (bit w m \<or> m = k)"
  by (auto simp add: set_signal_bit_def shift_count_of_nat bit_simps)

lemma of_nat_neq_minus1: "k < 32 \<Longrightarrow> (of_nat k :: word32) \<noteq> - 1"
proof
  assume k: "k < 32" and e: "(of_nat k :: word32) = - 1"
  from e have "(of_nat (Suc k) :: word32) = 0" by simp
  then have "unat (of_nat (Suc k) :: word32) = 0" by (simp del: of_nat_Suc)
  then show False using k by (simp add: unat_of_nat del: of_nat_Suc)
qed

lemma scan_pending_none:
  "k < 32 \<Longrightarrow> \<forall>m\<le>k. \<not> bit w m \<Longrightarrow> scan_pending w (of_nat k) = - 1"
proof (induction k)
  case 0
  then have "is_signal_bit_set w 0 = 0" using is_signal_bit_set_iff [of 0 w] by simp
  then show ?case
    by (subst scan_pending.simps, subst scan_pending.simps) simp
next
  case (Suc k)
  then have "is_signal_bit_set w (of_nat (Suc k)) = 0"
    using is_signal_bit_set_iff [of "Suc k" w] by simp
  moreover have "(of_nat (Suc k) :: word32) \<noteq> - 1" using Suc.prems by (intro of_nat_neq_minus1)
  moreover have "(of_nat (Suc k) :: word32) - 1 = of_nat k" by simp
  moreover have "scan_pending w (of_nat k) = - 1" using Suc by simp
  ultimately show ?case by (subst scan_pending.simps) (simp del: of_nat_Suc)
qed

lemma scan_pending_highest:
  assumes "highest_pending w n" "n \<le> k" "k < 32"
  shows "scan_pending w (of_nat k) = of_nat n"
  using assms(2,3)
proof (induction k)
  case 0
  then have "n = 0" by simp
  with assms(1) have "is_signal_bit_set w 0 \<noteq> 0"
    using is_signal_bit_set_iff [of 0 w] by (simp add: highest_pending_def)
  then show ?case using \<open>n = 0\<close> by (subst scan_pending.simps) simp
next
  case (Suc k)
  show ?case
  proof (cases "n = Suc k")
    case True
    with assms(1) Suc.prems have "is_signal_bit_set w (of_nat (Suc k)) \<noteq> 0"
      using is_signal_bit_set_iff [of "Suc k" w] by (simp add: highest_pending_def)
    then show ?thesis using True by (subst scan_pending.simps) (simp del: of_nat_Suc)
  next
    case False
    with Suc.prems have lt: "n < Suc k" "n \<le> k" "k < 32" by simp_all
    with assms(1) have "\<not> bit w (Suc k)" by (simp add: highest_pending_def)
    then have "is_signal_bit_set w (of_nat (Suc k)) = 0"
      using is_signal_bit_set_iff [of "Suc k" w] Suc.prems by simp
    moreover have "(of_nat (Suc k) :: word32) \<noteq> - 1" using Suc.prems by (intro of_nat_neq_minus1)
    moreover have "(of_nat (Suc k) :: word32) - 1 = of_nat k" by simp
    moreover have "scan_pending w (of_nat k) = of_nat n" using Suc.IH lt by simp
    ultimately show ?thesis by (subst scan_pending.simps) (simp del: of_nat_Suc)
  qed
qed

lemma highest_pending_less: "highest_pending (w :: word32) n \<Longrightarrow> n < 32"
  by (auto simp add: highest_pending_def dest: bit_imp_le_length)

lemma scan_31_highest:
  "highest_pending w n \<Longrightarrow> scan_pending w (of_nat SIGNAL_TABLE_SIZE - 1) = of_nat n"
  using scan_pending_highest [of w n 31] highest_pending_less [of w n]
  by (simp add: SIGNAL_TABLE_SIZE_def)

lemma scan_31_none:
  "w = 0 \<Longrightarrow> scan_pending w (of_nat SIGNAL_TABLE_SIZE - 1) = - 1"
  using scan_pending_none [of 31 w] by (simp add: SIGNAL_TABLE_SIZE_def)

lemma sless_of_nat: "n < 32 \<Longrightarrow> (x <s (of_nat n :: word32)) = (sint x < int n)"
  by (simp add: word_sless_alt sint_of_nat32)

lemma frame_loads:
  fixes e rc lsd h fl cs tr bp :: word32 and m :: "word32 \<Rightarrow> byte"
  defines "m' \<equiv> store32 (e - 64 + 60) rc (store32 (e - 64 + 56) lsd (store32 (e - 64 + 52) e
                  (store32 (e - 64 + 48) h (store32 (e - 64 + 40) fl (store32 (e - 64 + 36) cs
                  (store32 (e - 64 + 32) tr (store32 (e - 64 + 8) bp (store32 (e - 64) 0 m))))))))"
  shows "load32 m' (e - 64 + 32) = tr" "load32 m' (e - 64 + 48) = h" "load32 m' (e - 64 + 52) = e"
    "load32 m' (e - 64 + 56) = lsd" "load32 m' (e - 64 + 60) = rc"
    "load32 m' (e - 4) = rc" "load32 m' (e - 8) = lsd"
  unfolding m'_def
  by (simp_all add: load32_store32_same load32_store32_disj diff_add_eq_diff_diff_swap
      word_le_nat_alt)

lemma hps_delivered:
  assumes hp: "highest_pending (pending_signals (pcbs s proc)) n"
    and lt: "sint (last_signal_delivered (pcbs s proc)) < int n"
  shows "handle_pending_signals proc s =
     s\<lparr>pcbs := (pcbs s)(proc := (pcbs s proc)
            \<lparr>pending_signals := clear_signal_bit (pending_signals (pcbs s proc)) (of_nat n),
             esp := esp (pcbs s proc) - 64,
             last_signal_delivered := of_nat n\<rparr>),
       mem := frame_mem (esp (pcbs s proc)) (result_code (pcbs s proc))
                (last_signal_delivered (pcbs s proc)) (signal_table (pcbs s proc) n)
                EFLAGS (getCS s) (sigtramp_addr s) (mem s)\<rparr>"
proof -
  have n: "n < 32" using hp by (rule highest_pending_less)
  have sn: "scan_pending (pending_signals (pcbs s proc)) (of_nat SIGNAL_TABLE_SIZE - 1) = of_nat n"
    using hp by (rule scan_31_highest)
  have ne: "(of_nat n :: word32) \<noteq> - 1" using n by (rule of_nat_neq_minus1)
  have l: "last_signal_delivered (pcbs s proc) <s of_nat n" using lt n by (simp add: sless_of_nat)
  have u: "unat (of_nat n :: word32) = n" using n by (simp add: unat_of_nat)
  show ?thesis
    by (simp add: handle_pending_signals_def sn ne l u Let_def upd_pcb_def poke_def frame_mem_def)
qed

lemma hps_not_delivered:
  assumes hp: "highest_pending (pending_signals (pcbs s proc)) n"
    and lt: "\<not> sint (last_signal_delivered (pcbs s proc)) < int n"
  shows "handle_pending_signals proc s = s"
proof -
  have n: "n < 32" using hp by (rule highest_pending_less)
  have sn: "scan_pending (pending_signals (pcbs s proc)) (of_nat SIGNAL_TABLE_SIZE - 1) = of_nat n"
    using hp by (rule scan_31_highest)
  have l: "\<not> last_signal_delivered (pcbs s proc) <s of_nat n" using lt n by (simp add: sless_of_nat)
  show ?thesis by (simp add: handle_pending_signals_def sn l Let_def)
qed

lemma hps_none: "pending_signals (pcbs s proc) = 0 \<Longrightarrow> handle_pending_signals proc s = s"
  by (simp add: handle_pending_signals_def scan_31_none Let_def)

lemma frame_mem_loads:
  "load32 (frame_mem e rc lsd h fl cs tr m) (e - 32) = tr"
  "load32 (frame_mem e rc lsd h fl cs tr m) (e - 16) = h"
  "load32 (frame_mem e rc lsd h fl cs tr m) (e - 12) = e"
  "load32 (frame_mem e rc lsd h fl cs tr m) (e - 8) = lsd"
  "load32 (frame_mem e rc lsd h fl cs tr m) (e - 4) = rc"
  using frame_loads [of e rc lsd h fl cs tr "e - 64 + 44" m]
  by (simp_all add: frame_mem_def)

lemma service_syssigreturn_fields:
  "esp (pcbs (service_syssigreturn t) (current_proc t)) = arg t 0"
  "result_code (pcbs (service_syssigreturn t) (current_proc t)) = load32 (mem t) (arg t 0 - 4)"
  "last_signal_delivered (pcbs (service_syssigreturn t) (current_proc t))
     = load32 (mem t) (arg t 0 - 8)"
  by (simp_all add: service_syssigreturn_def Let_def upd_pcb_def set_result_code_def)

text \<open>
  C4.  \<open>handle_pending_signals\<close> changes nothing when no signal is pending.  When \<open>n\<close>
  is the highest-numbered pending signal, it changes nothing unless
  \<open>n > last_signal_delivered\<close>; in that case it delivers \<open>n\<close> and only \<open>n\<close>: it clears
  pending bit \<open>n\<close> and no other, moves the stack pointer down by one frame, records in
  the frame the trampoline as return point, the handler of \<open>n\<close>, the old stack
  pointer, the old \<open>last_signal_delivered\<close> and the old \<open>result_code\<close>, and sets
  \<open>last_signal_delivered\<close> to \<open>n\<close>.  A later \<open>sigreturn\<close> of the process with the old
  stack pointer, the two saved words being intact, restores the stack pointer,
  \<open>result_code\<close> and \<open>last_signal_delivered\<close>.  So while \<open>last_signal_delivered = k\<close>, a
  pending signal \<open>n \<le> k\<close> is not dispatched.
\<close>

theorem signal_delivery:
  fixes s :: kernel and proc :: pcb_ptr
  defines "p \<equiv> pcbs s proc" and "s' \<equiv> handle_pending_signals proc s"
  shows "(pending_signals p = 0 \<longrightarrow> s' = s)
     \<and> (\<forall>n. highest_pending (pending_signals p) n \<longrightarrow>
          (if sint (last_signal_delivered p) < int n then
             (\<forall>m. bit (pending_signals (pcbs s' proc)) m = (bit (pending_signals p) m \<and> m \<noteq> n))
             \<and> last_signal_delivered (pcbs s' proc) = of_nat n
             \<and> result_code (pcbs s' proc) = result_code p
             \<and> esp (pcbs s' proc) = esp p - 64
             \<and> load32 (mem s') (esp p - 64 + 32) = sigtramp_addr s
             \<and> load32 (mem s') (esp p - 64 + 48) = signal_table p n
             \<and> load32 (mem s') (esp p - 64 + 52) = esp p
             \<and> load32 (mem s') (esp p - 64 + 56) = last_signal_delivered p
             \<and> load32 (mem s') (esp p - 64 + 60) = result_code p
             \<and> (\<forall>t. current_proc t = proc \<and> arg t 0 = esp p
                    \<and> load32 (mem t) (esp p - 4) = load32 (mem s') (esp p - 4)
                    \<and> load32 (mem t) (esp p - 8) = load32 (mem s') (esp p - 8) \<longrightarrow>
                  esp (pcbs (service_syssigreturn t) proc) = esp p
                  \<and> result_code (pcbs (service_syssigreturn t) proc) = result_code p
                  \<and> last_signal_delivered (pcbs (service_syssigreturn t) proc)
                      = last_signal_delivered p)
           else s' = s))"
proof (intro conjI allI impI)
  assume "pending_signals p = 0"
  then show "s' = s" unfolding p_def s'_def by (rule hps_none)
next
  fix n
  assume hp: "highest_pending (pending_signals p) n"
  show "if sint (last_signal_delivered p) < int n then
             (\<forall>m. bit (pending_signals (pcbs s' proc)) m = (bit (pending_signals p) m \<and> m \<noteq> n))
             \<and> last_signal_delivered (pcbs s' proc) = of_nat n
             \<and> result_code (pcbs s' proc) = result_code p
             \<and> esp (pcbs s' proc) = esp p - 64
             \<and> load32 (mem s') (esp p - 64 + 32) = sigtramp_addr s
             \<and> load32 (mem s') (esp p - 64 + 48) = signal_table p n
             \<and> load32 (mem s') (esp p - 64 + 52) = esp p
             \<and> load32 (mem s') (esp p - 64 + 56) = last_signal_delivered p
             \<and> load32 (mem s') (esp p - 64 + 60) = result_code p
             \<and> (\<forall>t. current_proc t = proc \<and> arg t 0 = esp p
                    \<and> load32 (mem t) (esp p - 4) = load32 (mem s') (esp p - 4)
                    \<and> load32 (mem t) (esp p - 8) = load32 (mem s') (esp p - 8) \<longrightarrow>
                  esp (pcbs (service_syssigreturn t) proc) = esp p
                  \<and> result_code (pcbs (service_syssigreturn t) proc) = result_code p
                  \<and> last_signal_delivered (pcbs (service_syssigreturn t) proc)
                      = last_signal_delivered p)
           else s' = s"
  proof (cases "sint (last_signal_delivered p) < int n")
    case False
    with hp show ?thesis unfolding p_def s'_def by (simp add: hps_not_delivered)
  next
    case True
    have n: "n < 32" using hp by (rule highest_pending_less)
    have e: "s' = s\<lparr>pcbs := (pcbs s)(proc := p
            \<lparr>pending_signals := clear_signal_bit (pending_signals p) (of_nat n),
             esp := esp p - 64,
             last_signal_delivered := of_nat n\<rparr>),
       mem := frame_mem (esp p) (result_code p) (last_signal_delivered p) (signal_table p n)
                EFLAGS (getCS s) (sigtramp_addr s) (mem s)\<rparr>"
      using hp True unfolding p_def s'_def by (rule hps_delivered)
    have ret: "esp (pcbs (service_syssigreturn t) proc) = esp p
                  \<and> result_code (pcbs (service_syssigreturn t) proc) = result_code p
                  \<and> last_signal_delivered (pcbs (service_syssigreturn t) proc)
                      = last_signal_delivered p"
      if "current_proc t = proc \<and> arg t 0 = esp p
                    \<and> load32 (mem t) (esp p - 4) = load32 (mem s') (esp p - 4)
                    \<and> load32 (mem t) (esp p - 8) = load32 (mem s') (esp p - 8)" for t
      using that service_syssigreturn_fields [of t] by (simp add: e frame_mem_loads)
    from True n ret show ?thesis
      by (simp add: e frame_mem_loads bit_clear_signal_bit)
  qed
qed

lemma hps_current_proc: "current_proc (handle_pending_signals proc s) = current_proc s"
  by (simp add: handle_pending_signals_def Let_def upd_pcb_def poke_def)

lemma arg_syscall_trap1: "arg (syscall_trap a [x] s) 0 = x"
  by (simp add: arg_def syscall_trap_def load32_store32_same)

theorem signal_delivery_witness:
  "highest_pending (pending_signals (pcbs sig_pending (Table 0))) 5
   \<and> sint (last_signal_delivered (pcbs sig_pending (Table 0))) < 5
   \<and> last_signal_delivered (pcbs (handle_pending_signals (Table 0) sig_pending) (Table 0)) = 5
   \<and> bit (pending_signals (pcbs (handle_pending_signals (Table 0) sig_pending) (Table 0))) 2
   \<and> \<not> bit (pending_signals (pcbs (handle_pending_signals (Table 0) sig_pending) (Table 0))) 5
   \<and> esp (pcbs (handle_pending_signals (Table 0) sig_pending) (Table 0)) = 0x3000C0
   \<and> load32 (mem (handle_pending_signals (Table 0) sig_pending)) 0x3000F0 = 0x3000
   \<and> result_code (pcbs sig_returning (Table 0)) = 99
   \<and> result_code (pcbs (service_syssigreturn sig_returning) (Table 0)) = 7
   \<and> last_signal_delivered (pcbs (service_syssigreturn sig_returning) (Table 0)) = - 1
   \<and> esp (pcbs (service_syssigreturn sig_returning) (Table 0)) = 0x300100"
proof -
  let ?p = "pcbs sig_pending (Table 0)"
  let ?s' = "handle_pending_signals (Table 0) sig_pending"
  have f: "pending_signals ?p = set_signal_bit (set_signal_bit 0 2) 5"
    "last_signal_delivered ?p = - 1" "result_code ?p = 7" "esp ?p = 0x300100"
    "signal_table ?p 5 = 0x3000"
    by (simp_all add: sig_pending_def one_running_def upd_pcb_def)
  have b: "bit (set_signal_bit (set_signal_bit 0 2) 5) m = (m = 2 \<or> m = 5)" for m
    using bit_set_signal_bit [of 5 "set_signal_bit 0 2" m] bit_set_signal_bit [of 2 0 m]
    by simp
  have hp: "highest_pending (pending_signals ?p) 5"
    by (auto simp add: highest_pending_def f b)
  have lt: "sint (last_signal_delivered ?p) < 5" by (simp add: f)
  have c0: "current_proc sig_pending = Table 0"
    by (simp add: sig_pending_def one_running_def upd_pcb_def)
  have cp: "current_proc ?s' = Table 0" by (simp only: hps_current_proc c0)
  have t1: "current_proc sig_returning = Table 0"
    by (simp add: sig_returning_def syscall_trap_def set_result_code_def upd_pcb_def cp)
  have t2: "arg sig_returning 0 = 0x300100"
    by (simp add: sig_returning_def arg_syscall_trap1)
  have m: "mem sig_returning = store32 0x300000 0x300100 (mem ?s')"
    by (simp add: sig_returning_def syscall_trap_def set_result_code_def upd_pcb_def)
  have t3: "load32 (mem sig_returning) (0x300100 - 4) = load32 (mem ?s') (0x300100 - 4)"
    "load32 (mem sig_returning) (0x300100 - 8) = load32 (mem ?s') (0x300100 - 8)"
    by (simp_all add: m load32_store32_disj word_le_nat_alt)
  have t4: "result_code (pcbs sig_returning (Table 0)) = 99"
    by (simp add: sig_returning_def syscall_trap_def set_result_code_def upd_pcb_def cp)
  note sd = signal_delivery [of sig_pending "Table 0", THEN conjunct2, rule_format, OF hp]
  from sd lt
  have d: "(\<forall>m. bit (pending_signals (pcbs ?s' (Table 0))) m = (bit (pending_signals ?p) m \<and> m \<noteq> 5))
             \<and> last_signal_delivered (pcbs ?s' (Table 0)) = of_nat 5
             \<and> esp (pcbs ?s' (Table 0)) = esp ?p - 64
             \<and> load32 (mem ?s') (esp ?p - 64 + 48) = signal_table ?p 5
             \<and> (\<forall>t. current_proc t = Table 0 \<and> arg t 0 = esp ?p
                    \<and> load32 (mem t) (esp ?p - 4) = load32 (mem ?s') (esp ?p - 4)
                    \<and> load32 (mem t) (esp ?p - 8) = load32 (mem ?s') (esp ?p - 8) \<longrightarrow>
                  esp (pcbs (service_syssigreturn t) (Table 0)) = esp ?p
                  \<and> result_code (pcbs (service_syssigreturn t) (Table 0)) = result_code ?p
                  \<and> last_signal_delivered (pcbs (service_syssigreturn t) (Table 0))
                      = last_signal_delivered ?p)"
    by simp
  from d have r: "esp (pcbs (service_syssigreturn sig_returning) (Table 0)) = esp ?p
                  \<and> result_code (pcbs (service_syssigreturn sig_returning) (Table 0)) = result_code ?p
                  \<and> last_signal_delivered (pcbs (service_syssigreturn sig_returning) (Table 0))
                      = last_signal_delivered ?p"
    using t1 t2 t3 by (simp add: f)
  from d have "bit (pending_signals (pcbs ?s' (Table 0))) 2"
    "\<not> bit (pending_signals (pcbs ?s' (Table 0))) 5"
    "last_signal_delivered (pcbs ?s' (Table 0)) = 5"
    "esp (pcbs ?s' (Table 0)) = 0x3000C0"
    "load32 (mem ?s') 0x3000F0 = 0x3000"
    by (simp_all add: f b)
  with hp lt r t4 show ?thesis by (simp add: f)
qed


section \<open>Message passing\<close>

lemma strncpy_bytes4:
  "strncpy_bytes [a, b, c, d] 4 =
     (if a = 0 then [0, 0, 0, 0] else if b = 0 then [a, 0, 0, 0]
      else if c = 0 then [a, b, 0, 0] else [a, b, c, d])"
  by (simp add: numeral_eq_Suc)

lemmas ipc_eval =
  syscall_trap_def service_sysrecv_def service_syssend_def recv_def send_def
  remove_from_blocked_queue_def remove_from_receive_any_queue_def enqueue_blocked_queue_def
  ready_def enqueue_def remove_q_def dequeue_def schedule_next_def next_proc_def is_empty_q_def
  get_pcb_def valid_buf_def valid_ptr_def in_memory_range_def in_kernel_memory_range_def
  set_result_code_def upd_pcb_def poke_def strncpy_def word_bytes_def arg_def only_process_def
  zero_kernel_def zero_pcb_def zero_queue_def Let_def IDLE_PROC_PID_def BUFFER_SIZE_def
  PCB_TABLE_SIZE_def load32_store32_same load32_store32_disj diff_add_eq_diff_diff_swap
  word_le_nat_alt strncpy_bytes4

text \<open>
  C1.  The rendezvous does not transfer every word: the copy is made by \<open>strncpy\<close>,
  which stops at the first zero byte of the message and fills the rest with zeroes.
  P2 is blocked in \<open>sysrecv\<close> on P1; P1 sends \<open>0x100\<close>, whose lowest byte is zero.
  \<open>syssend\<close> returns 0 to P1, P2 is made ready with result 0 and its \<open>from\<close> holds 1,
  but its buffer holds 0 instead of \<open>0x100\<close>.
\<close>

theorem send_drops_bytes_after_zero_byte:
  "\<exists>s'. ipc_send = Some s'
     \<and> current_proc s' = Table 0 \<and> result_code (pcbs s' (Table 0)) = 0
     \<and> state (pcbs s' (Table 1)) = READY \<and> result_code (pcbs s' (Table 1)) = 0
     \<and> load32 (mem s') 0x310004 = 1
     \<and> load32 (mem s') 0x310000 = 0"
  apply (simp add: ipc_send_def ipc_recv_def ipc_start_def ipc_eval)
  apply (simp add: load32_def store32_def)
  done


section \<open>Keyboard reads\<close>

lemma free_fd4:
  "free_fd tab 0 4 =
     (if tab 0 = None then 0 else if tab 1 = None then 1 else if tab 2 = None then 2
      else if tab 3 = None then 3 else 4)"
  by (simp add: numeral_eq_Suc)

lemma upt5: "[0..<5] = [0, 1, 2, 3, 4]"
  by (simp add: upt_rec numeral_eq_Suc)

lemma flush_kbd_buf_eq:
  "flush_kbd_buf k =
     k\<lparr>kbd_buf := (kbd_buf k)(0 := 0, 1 := 0, 2 := 0, 3 := 0, 4 := 0),
       kbd_buf_head := 0, kbd_buf_tail := 0\<rparr>"
  by (simp add: flush_kbd_buf_def KBD_BUFFER_SIZE_def upt5)

lemma c_rem_small:
  "c_rem 1 5 = 1" "c_rem 2 5 = 2" "c_rem 3 5 = 3" "c_rem 4 5 = 4" "c_rem 5 5 = 0"
  by (simp_all add: c_rem_def signed_modulo_int_def)

lemmas kbd_eval =
  service_sysopen_def service_sysread_def di_open_def di_read_def is_valid_fd_def kbdopen_def
  kbdread_def kbd_isr_def kbd_reset_def transfer_to_read_buf_def transfer_loop.simps
  copy_char_to_read_buf_def handle_eof_def disable_keyboard_hardware_def finish_read_def
  flush_kbd_buf_eq write_to_kbd_buf_def is_kbd_buf_full_def upd_kbd_def c_rem_small free_fd4
  KBD_BUFFER_SIZE_def DEFAULT_EOF_def FD_TABLE_SIZE_def set_result_code_def upd_pcb_def
  syscall_trap_def arg_def one_running_def zero_kernel_def zero_pcb_def zero_kbd_def
  zero_queue_def valid_buf_def valid_ptr_def in_memory_range_def in_kernel_memory_range_def
  schedule_next_def next_proc_def is_empty_q_def
  load32_store32_same load32_store32_disj diff_add_eq_diff_diff_swap word_le_nat_alt
  Let_def word_sle_eq word_sless_alt

lemma kbdread_after_eof:
  "eof_flag (kbd_dev s) \<noteq> 0 \<Longrightarrow> kbdread proc buf buflen s = Some (0, s)"
  by (simp add: kbdread_def)

text \<open>
  C5.  A read is not completed by an end-of-file character (nor by a newline) that is
  already buffered when \<open>sysread\<close> is called: \<open>kbdread\<close> ignores what
  \<open>transfer_to_read_buf\<close> returns and completes only when \<open>buflen\<close> characters were
  transferred.  With \<open>a\<close> and the end-of-file character buffered, \<open>sysread(fd, buf, 10)\<close>
  transfers \<open>a\<close>, meets the end of file, disables the keyboard and then blocks the
  caller on \<open>READ\<close> instead of returning 1; the idle process runs, and \<open>result_code\<close> of
  the caller is still the 0 that \<open>sysopen\<close> returned.
\<close>

theorem sysread_blocks_on_buffered_eof:
  "\<exists>s'. kbd_read10 = Some s'
     \<and> state (pcbs s' (Table 0)) = BLOCKED \<and> blocked_queue (pcbs s' (Table 0)) = READ
     \<and> current_proc s' = IdleProc \<and> result_code (pcbs s' (Table 0)) = 0
     \<and> mem s' 0x310000 = 0x61 \<and> chars_transferred (kbd_dev s') = 1
     \<and> eof_flag (kbd_dev s') = 1 \<and> \<not> kbd_hw_enabled (kbd_dev s')"
  by (simp add: kbd_read10_def kbd_typed_def kbd_eval)


lemma upd_pcb_sel:
  "pcbs (upd_pcb p f s) q = (if q = p then f (pcbs s p) else pcbs s q)"
  "ready_queues (upd_pcb p f s) = ready_queues s"
  "stopped_queue (upd_pcb p f s) = stopped_queue s"
  "receive_any_queue (upd_pcb p f s) = receive_any_queue s"
  "sleep_queue (upd_pcb p f s) = sleep_queue s"
  "current_proc (upd_pcb p f s) = current_proc s"
  "user_proc_count (upd_pcb p f s) = user_proc_count s"
  "args (upd_pcb p f s) = args s"
  "mem (upd_pcb p f s) = mem s"
  "kbd_dev (upd_pcb p f s) = kbd_dev s"
  by (simp_all add: upd_pcb_def)

lemma dl_sel:
  "pcbs (dl_size_add d s) = pcbs s"
  "ready_queues (dl_size_add d s) = ready_queues s"
  "current_proc (dl_size_add d s) = current_proc s"
  "sleep_queue (dl_size_add d s) = (sleep_queue s)\<lparr>dl_size := dl_size (sleep_queue s) + d\<rparr>"
  "pcbs (dl_set_head p s) = pcbs s"
  "ready_queues (dl_set_head p s) = ready_queues s"
  "current_proc (dl_set_head p s) = current_proc s"
  "sleep_queue (dl_set_head p s) = (sleep_queue s)\<lparr>dl_head := p\<rparr>"
  by (simp_all add: dl_size_add_def dl_set_head_def)

lemma ready_q_sel:
  "pcbs (upd_queue (ReadyQ i) f s) = pcbs s"
  "ready_queues (upd_queue (ReadyQ i) f s) = (ready_queues s)(i := f (ready_queues s i))"
  "sleep_queue (upd_queue (ReadyQ i) f s) = sleep_queue s"
  "current_proc (upd_queue (ReadyQ i) f s) = current_proc s"
  by simp_all

lemma poll_single:
  assumes "dl_size (sleep_queue s) \<noteq> 0"
  shows "poll s =
    (dl_head (sleep_queue s),
     upd_pcb (dl_head (sleep_queue s)) (\<lambda>c. c\<lparr>next := NULL\<rparr>)
       (upd_pcb (dl_head (sleep_queue s)) (\<lambda>c. c\<lparr>prev := NULL\<rparr>)
         (dl_size_add (- 1)
           (upd_pcb (next (pcbs s (dl_head (sleep_queue s))))
              (\<lambda>c. c\<lparr>key := key c + key (pcbs s (dl_head (sleep_queue s)))\<rparr>)
              (dl_set_head (next (pcbs s (dl_head (sleep_queue s)))) s)))))"
  using assms by (simp add: poll_def Let_def dl_sel)

lemma next_loop_empty:
  assumes "\<forall>i<4. q_size (ready_queues t i) = 0"
  shows "next_loop 0 NULL t = (NULL, t)"
  using assms by (simp add: is_empty_q_def)

lemma schedule_next_empty:
  assumes "\<forall>i<4. q_size (ready_queues t i) = 0"
  shows "schedule_next t = (upd_pcb IdleProc (\<lambda>c. c\<lparr>state := RUNNING\<rparr>) t)\<lparr>current_proc := IdleProc\<rparr>"
  using next_loop_empty [OF assms] by (simp add: schedule_next_def next_proc_def Let_def)

lemma sint_of_nat_pos: "n < 2 ^ 31 \<Longrightarrow> ((of_nat n :: word32) \<le>s 0) = (n = 0)"
  by (simp add: word_sle_eq sint_of_nat32)

lemma timer_int_waiting:
  assumes s: "sleeping cp (Suc (Suc n)) t" and n: "Suc (Suc n) < 2 ^ 31"
  shows "\<exists>t'. timer_int eax t = Some t' \<and> sleeping cp (Suc n) t'"
proof -
  let ?t1 = "upd_pcb IdleProc (\<lambda>c. c\<lparr>cpuTime := cpuTime c + 1\<rparr>)
               (upd_pcb IdleProc (\<lambda>c. c\<lparr>result_code := eax\<rparr>) t)"
  let ?t2 = "upd_pcb cp (\<lambda>c. c\<lparr>key := key c - 1\<rparr>) ?t1"
  have p: "delta_peek ?t1 = cp" using s by (simp add: delta_peek_def sleeping_def upd_pcb_def)
  have k: "key (pcbs ?t2 cp) = of_nat (Suc n)"
    using s by (simp add: sleeping_def upd_pcb_def)
  have "\<not> (of_nat (Suc n) :: word32) \<le>s 0" using n sint_of_nat_pos [of "Suc n"] by simp
  then have l: "tick_loop cp ?t2 = Some ?t2"
    by (subst tick_loop.simps) (simp only: k, simp)
  have tk: "tick ?t1 = Some ?t2"
    using s l by (simp add: tick_def p Let_def sleeping_def)
  have y: "yield ?t2 = Some ((upd_pcb IdleProc (\<lambda>c. c\<lparr>state := RUNNING\<rparr>) ?t2)\<lparr>current_proc := IdleProc\<rparr>)"
  proof -
    have "ready IdleProc ?t2 = Some ?t2"
      using s by (simp add: ready_def sleeping_def upd_pcb_def)
    moreover have "\<forall>i<4. q_size (ready_queues ?t2 i) = 0"
      using s by (simp add: sleeping_def upd_pcb_def)
    ultimately show ?thesis
      using s by (simp add: yield_def schedule_next_empty sleeping_def upd_pcb_def)
  qed
  have "timer_int eax t = Some ((upd_pcb IdleProc (\<lambda>c. c\<lparr>state := RUNNING\<rparr>) ?t2)\<lparr>current_proc := IdleProc\<rparr>)"
    using s tk y by (simp add: timer_int_def sleeping_def Let_def upd_pcb_def)
  moreover have "sleeping cp (Suc n) ((upd_pcb IdleProc (\<lambda>c. c\<lparr>state := RUNNING\<rparr>) ?t2)\<lparr>current_proc := IdleProc\<rparr>)"
    using s by (simp add: sleeping_def upd_pcb_def)
  ultimately show ?thesis by blast
qed

lemma next_loop_skip:
  assumes "i < 4" "q_size (ready_queues s i) = 0"
  shows "next_loop i NULL s = next_loop (Suc i) NULL s"
  using assms by (subst next_loop.simps) (simp add: is_empty_q_def del: next_loop.simps)

lemma next_loop_take:
  assumes "i < 4" "q_size (ready_queues s i) \<noteq> 0" "q_head (ready_queues s i) \<noteq> NULL"
  shows "next_loop i NULL s = dequeue (ReadyQ i) s"
proof -
  have "fst (dequeue (ReadyQ i) s) = q_head (ready_queues s i)"
    using assms by (simp add: dequeue_def Let_def)
  then have "next_loop (Suc i) (fst (dequeue (ReadyQ i) s)) (snd (dequeue (ReadyQ i) s))
      = dequeue (ReadyQ i) s"
    using assms(3) by (subst next_loop.simps) (simp del: next_loop.simps add: prod_eq_iff)
  then show ?thesis
    using assms by (subst next_loop.simps) (simp add: is_empty_q_def del: next_loop.simps)
qed

lemma next_loop_first:
  assumes "p < 4" "\<forall>i<p. q_size (ready_queues s i) = 0" "q_size (ready_queues s p) \<noteq> 0"
    "q_head (ready_queues s p) \<noteq> NULL"
  shows "next_loop 0 NULL s = dequeue (ReadyQ p) s"
proof -
  have "i \<le> p \<Longrightarrow> next_loop 0 NULL s = next_loop i NULL s" for i
  proof (induction i)
    case 0
    show ?case ..
  next
    case (Suc i)
    then have "i < 4" "q_size (ready_queues s i) = 0" using assms(1,2) by simp_all
    from next_loop_skip [OF this] Suc show ?case by simp
  qed
  from this [of p] next_loop_take [OF assms(1,3,4)] show ?thesis by simp
qed

lemma ready_empty_queue:
  assumes "pid (pcbs s p) \<noteq> IDLE_PROC_PID" "p \<noteq> NULL"
    "q_tail (ready_queues s (unat (priority (pcbs s p)))) = NULL"
  shows "ready p s =
    Some (upd_queue (ReadyQ (unat (priority (pcbs s p)))) (\<lambda>c. c\<lparr>q_size := q_size c + 1\<rparr>)
      (upd_queue (ReadyQ (unat (priority (pcbs s p)))) (\<lambda>c. c\<lparr>q_tail := p\<rparr>)
        (upd_queue (ReadyQ (unat (priority (pcbs s p)))) (\<lambda>c. c\<lparr>q_head := p\<rparr>)
          (upd_pcb p (\<lambda>c. c\<lparr>next := NULL\<rparr>)
            (upd_pcb p (\<lambda>c. c\<lparr>prev := NULL\<rparr>)
              (upd_pcb p (\<lambda>c. c\<lparr>state := READY\<rparr>)
                (upd_pcb p (\<lambda>c. c\<lparr>blocked_queue := NONE\<rparr>)
                  (upd_pcb p (\<lambda>c. c\<lparr>blocked_on := NULL\<rparr>) s))))))))"
  using assms by (simp add: ready_def enqueue_def Let_def upd_pcb_sel del: upd_queue.simps)

lemma schedule_next_single:
  assumes "p < 4" "\<forall>i<p. q_size (ready_queues s i) = 0"
    "ready_queues s p = \<lparr>q_size = 1, q_head = cp, q_tail = cp\<rparr>" "cp \<noteq> NULL"
    "next (pcbs s cp) = NULL"
  shows "current_proc (schedule_next s) = cp \<and> state (pcbs (schedule_next s) cp) = RUNNING
     \<and> result_code (pcbs (schedule_next s) cp) = result_code (pcbs s cp)
     \<and> blocked_queue (pcbs (schedule_next s) cp) = blocked_queue (pcbs s cp)
     \<and> sleep_queue (schedule_next s) = sleep_queue s"
proof -
  have "next_loop 0 NULL s = dequeue (ReadyQ p) s"
    using assms by (intro next_loop_first) simp_all
  then show ?thesis
    unfolding schedule_next_def next_proc_def
    using assms by (simp add: dequeue_def Let_def upd_pcb_sel)
qed

lemma timer_int_due:
  assumes s: "sleeping cp (Suc 0) t"
  shows "\<exists>t'. timer_int eax t = Some t' \<and> current_proc t' = cp \<and> state (pcbs t' cp) = RUNNING
              \<and> result_code (pcbs t' cp) = 0 \<and> dl_size (sleep_queue t') = 0
              \<and> blocked_queue (pcbs t' cp) = NONE"
proof -
  let ?t1 = "upd_pcb IdleProc (\<lambda>c. c\<lparr>cpuTime := cpuTime c + 1\<rparr>)
               (upd_pcb IdleProc (\<lambda>c. c\<lparr>result_code := eax\<rparr>) t)"
  let ?t2 = "upd_pcb cp (\<lambda>c. c\<lparr>key := key c - 1\<rparr>) ?t1"
  let ?pl = "upd_pcb cp (\<lambda>c. c\<lparr>next := NULL\<rparr>)
       (upd_pcb cp (\<lambda>c. c\<lparr>prev := NULL\<rparr>)
         (dl_size_add (- 1)
           (upd_pcb NULL (\<lambda>c. c\<lparr>key := key c + 0\<rparr>) (dl_set_head NULL ?t2))))"
  let ?t3 = "upd_pcb cp (\<lambda>c. c\<lparr>result_code := 0\<rparr>) ?pl"
  let ?p = "unat (priority (pcbs t cp))"
  let ?t4 = "upd_queue (ReadyQ ?p) (\<lambda>c. c\<lparr>q_size := q_size c + 1\<rparr>)
      (upd_queue (ReadyQ ?p) (\<lambda>c. c\<lparr>q_tail := cp\<rparr>)
        (upd_queue (ReadyQ ?p) (\<lambda>c. c\<lparr>q_head := cp\<rparr>)
          (upd_pcb cp (\<lambda>c. c\<lparr>next := NULL\<rparr>)
            (upd_pcb cp (\<lambda>c. c\<lparr>prev := NULL\<rparr>)
              (upd_pcb cp (\<lambda>c. c\<lparr>state := READY\<rparr>)
                (upd_pcb cp (\<lambda>c. c\<lparr>blocked_queue := NONE\<rparr>)
                  (upd_pcb cp (\<lambda>c. c\<lparr>blocked_on := NULL\<rparr>) ?t3)))))))"
  note sel = sleeping_def upd_pcb_sel dl_sel ready_q_sel
  have p: "delta_peek ?t1 = cp" using s by (simp add: delta_peek_def sel)
  have k: "key (pcbs ?t2 cp) = 0" using s by (simp add: sel)
  have ne: "dl_size (sleep_queue ?t2) \<noteq> 0" using s by (simp add: sel)
  have hd: "dl_head (sleep_queue ?t2) = cp" using s by (simp add: sel)
  have nx: "next (pcbs ?t2 cp) = NULL" using s by (simp add: sel)
  have pl: "poll ?t2 = (cp, ?pl)"
    by (simp only: poll_single [OF ne] hd nx k)
  have pr: "unat (priority (pcbs ?t3 cp)) = ?p" using s by (simp add: sel)
  have r: "ready cp ?t3 = Some ?t4"
  proof -
    have "pid (pcbs ?t3 cp) \<noteq> IDLE_PROC_PID" "cp \<noteq> NULL"
      "q_tail (ready_queues ?t3 (unat (priority (pcbs ?t3 cp)))) = NULL"
      using s by (simp_all add: sel)
    from ready_empty_queue [OF this] show ?thesis by (simp only: pr)
  qed
  have sz: "dl_size (sleep_queue ?t4) = 0"
    using s by (simp add: sel del: upd_queue.simps)
  have cur: "current_proc ?t4 = IdleProc"
    using s by (simp add: sel del: upd_queue.simps)
  have idle: "pid (pcbs ?t4 IdleProc) = IDLE_PROC_PID"
    using s by (simp add: sel del: upd_queue.simps)
  have q: "ready_queues ?t4 ?p = \<lparr>q_size = 1, q_head = cp, q_tail = cp\<rparr>"
    using s by (simp add: sel del: upd_queue.simps)
  have qs: "\<forall>i<?p. q_size (ready_queues ?t4 i) = 0"
    using s by (simp add: sel del: upd_queue.simps)
  have f: "result_code (pcbs ?t4 cp) = 0" "blocked_queue (pcbs ?t4 cp) = NONE"
    "next (pcbs ?t4 cp) = NULL"
    using s by (simp_all add: sel del: upd_queue.simps)
  have pk: "delta_peek ?t4 = NULL"
    by (simp only: delta_peek_def sz simp_thms if_True)
  have l2: "tick_loop NULL ?t4 = Some ?t4" by (subst tick_loop.simps) simp
  have c: "(cp \<noteq> NULL \<and> key (pcbs ?t2 cp) \<le>s 0) = True"
    using s k by (simp add: sleeping_def)
  have l: "tick_loop cp ?t2 = Some ?t4"
    by (subst tick_loop.simps)
       (simp only: c if_True Let_def pl fst_conv snd_conv r Option.bind.simps pk l2)
  have tk: "tick ?t1 = Some ?t4"
    using s by (simp only: tick_def p Let_def l) (simp add: sleeping_def)
  have rd: "ready IdleProc ?t4 = Some ?t4"
    using idle by (simp only: ready_def) simp
  have ti: "timer_int eax t = Some (schedule_next ?t4)"
  proof -
    have c: "current_proc t = IdleProc" using s by (simp add: sleeping_def)
    have c1: "current_proc (upd_pcb IdleProc (\<lambda>c. c\<lparr>result_code := eax\<rparr>) t) = IdleProc"
      using c by (simp add: upd_pcb_sel)
    show ?thesis
      by (simp only: timer_int_def Let_def c c1 tk yield_def cur rd Option.bind.simps)
  qed
  have "?p < 4" "cp \<noteq> NULL" using s by (simp_all add: sleeping_def)
  from schedule_next_single [OF this(1) qs q this(2) f(3)] ti f sz
  show ?thesis by simp
qed

lemma timer_ints_append:
  "timer_ints (es @ fs) s = do { s \<leftarrow> timer_ints es s; timer_ints fs s }"
proof (induction es arbitrary: s)
  case Nil
  show ?case by simp
next
  case (Cons e es)
  show ?case by (cases "timer_int e s") (simp_all add: Cons)
qed

lemma timer_ints_waiting:
  assumes "sleeping cp (length es + Suc n) t" "length es + Suc n < 2 ^ 31"
  shows "\<exists>t'. timer_ints es t = Some t' \<and> sleeping cp (Suc n) t'"
  using assms
proof (induction es arbitrary: t)
  case Nil
  then show ?case by simp
next
  case (Cons e es)
  from Cons.prems have "sleeping cp (Suc (Suc (length es + n))) t" "Suc (Suc (length es + n)) < 2 ^ 31"
    by simp_all
  from timer_int_waiting [OF this] obtain t1 where
    t1: "timer_int e t = Some t1" "sleeping cp (Suc (length es + n)) t1" by blast
  from Cons.IH [of t1] t1 Cons.prems obtain t' where
    "timer_ints es t1 = Some t'" "sleeping cp (Suc n) t'" by auto
  with t1 show ?case by simp
qed

lemma ceil_div10: "n div 10 + (if n mod 10 \<noteq> 0 then 1 else 0) = (n + 9) div (10::nat)"
  by presburger

lemma unat_ms_to_time_slices:
  "unat (ms_to_time_slices ms) = (unat ms + 9) div 10"
proof -
  have d: "unat (ms div 10) = unat ms div 10" by (simp add: unat_div)
  have m: "(ms mod 10 = 0) = (unat ms mod 10 = 0)"
    by (simp add: word_unat_eq_iff unat_mod)
  have "unat ms < 2 ^ 32" by (rule order_less_le_trans [OF unsigned_less]) simp
  then have b: "unat ms div 10 + 1 < 2 ^ 32" by simp
  have "unat (ms div 10 + 1) = unat ms div 10 + 1"
    using d b by (simp add: unat_word_ariths)
  then have "unat (ms_to_time_slices ms) = unat ms div 10 + (if unat ms mod 10 \<noteq> 0 then 1 else 0)"
    using d m by (simp add: ms_to_time_slices_def TIME_SLICE_def)
  then show ?thesis by (simp only: ceil_div10)
qed

lemma ms_to_time_slices_bounds:
  "(unat (ms :: word32) + 9) div 10 < 2 ^ 31" "ms \<noteq> 0 \<Longrightarrow> 0 < (unat ms + 9) div 10"
proof -
  have b: "unat ms < 2 ^ 32" by (rule order_less_le_trans [OF unsigned_less]) simp
  then show "(unat ms + 9) div 10 < 2 ^ 31" by simp
  show "ms \<noteq> 0 \<Longrightarrow> 0 < (unat ms + 9) div 10" by (simp add: unat_gt_0 [symmetric] div_greater_zero_iff)
qed

lemma service_syssleep_sleeping:
  assumes ms: "arg s 0 \<noteq> 0"
    and cp: "current_proc s \<noteq> NULL" "current_proc s \<noteq> IdleProc"
      "pid (pcbs s (current_proc s)) \<noteq> IDLE_PROC_PID"
      "unat (priority (pcbs s (current_proc s))) < 4" "next (pcbs s (current_proc s)) = NULL"
    and idle: "pid (pcbs s IdleProc) = IDLE_PROC_PID"
    and dl: "sleep_queue s = \<lparr>dl_size = 0, dl_head = NULL\<rparr>"
    and rq: "\<forall>i<4. ready_queues s i = \<lparr>q_size = 0, q_head = NULL, q_tail = NULL\<rparr>"
  shows "\<exists>t. service_syssleep s = Some t \<and> sleeping (current_proc s) ((unat (arg s 0) + 9) div 10) t"
proof -
  let ?k = "(unat (arg s 0) + 9) div 10"
  have e: "ms_to_time_slices (arg s 0) = of_nat ?k"
  proof -
    have "of_nat (unat (ms_to_time_slices (arg s 0))) = ms_to_time_slices (arg s 0)" by simp
    then show ?thesis by (simp only: unat_ms_to_time_slices)
  qed
  have nn: "0 \<le>s (of_nat ?k :: word32)"
    using ms_to_time_slices_bounds(1) [of "arg s 0"] by (simp add: word_sle_eq sint_of_nat32)
  let ?s1 = "upd_pcb (current_proc s) (\<lambda>c. c\<lparr>blocked_queue := SLEEP\<rparr>)
      (upd_pcb (current_proc s) (\<lambda>c. c\<lparr>state := BLOCKED\<rparr>)
        (dl_size_add 1 (dl_set_head (current_proc s)
           (upd_pcb (current_proc s) (\<lambda>c. c\<lparr>key := of_nat ?k\<rparr>) s))))"
  have sl: "sleep (current_proc s) (arg s 0) s = Some ?s1"
    using cp dl nn by (simp add: sleep_def insert_dl_def e Let_def)
  have "\<forall>i<4. q_size (ready_queues ?s1 i) = 0"
    using rq by (simp add: upd_pcb_sel dl_sel)
  from schedule_next_empty [OF this]
  have "service_syssleep s = Some ((upd_pcb IdleProc (\<lambda>c. c\<lparr>state := RUNNING\<rparr>) ?s1)\<lparr>current_proc := IdleProc\<rparr>)"
    using ms sl by (simp add: service_syssleep_def Let_def word_greater_zero_iff)
  moreover have "sleeping (current_proc s) ?k ((upd_pcb IdleProc (\<lambda>c. c\<lparr>state := RUNNING\<rparr>) ?s1)\<lparr>current_proc := IdleProc\<rparr>)"
    using cp idle dl rq by (simp add: sleeping_def upd_pcb_sel dl_sel)
  ultimately show ?thesis by blast
qed

section \<open>Sleeping\<close>

text \<open>
  A kernel with a single process.  The process asks to sleep \<open>ms > 0\<close> milliseconds,
  \<open>k = \<lceil>ms / 10\<rceil>\<close>; the delta list and the ready queues are empty.  The idle process runs
  through the first \<open>k - 1\<close> timer interrupts, and the \<open>k\<close>-th timer interrupt dispatches the
  sleeper again with \<open>result_code\<close> 0, which is what \<open>syssleep\<close> returns to it.  The list \<open>es\<close>
  holds the \<open>EAX\<close> values saved at the \<open>k\<close> timer interrupts.
\<close>

theorem sole_process_sleep_returns_zero:
  assumes ms: "arg s 0 \<noteq> 0"
    and cp: "current_proc s \<noteq> NULL" "current_proc s \<noteq> IdleProc"
      "pid (pcbs s (current_proc s)) \<noteq> IDLE_PROC_PID"
      "unat (priority (pcbs s (current_proc s))) < 4" "next (pcbs s (current_proc s)) = NULL"
    and idle: "pid (pcbs s IdleProc) = IDLE_PROC_PID"
    and dl: "sleep_queue s = \<lparr>dl_size = 0, dl_head = NULL\<rparr>"
    and rq: "\<forall>i<4. ready_queues s i = \<lparr>q_size = 0, q_head = NULL, q_tail = NULL\<rparr>"
    and es: "length es = (unat (arg s 0) + 9) div 10"
  shows "\<exists>s1 s2. service_syssleep s = Some s1
      \<and> dl_head (sleep_queue s1) = current_proc s
      \<and> key (pcbs s1 (current_proc s)) = of_nat ((unat (arg s 0) + 9) div 10)
      \<and> state (pcbs s1 (current_proc s)) = BLOCKED
      \<and> blocked_queue (pcbs s1 (current_proc s)) = SLEEP
      \<and> (\<forall>n<length es. \<exists>u. timer_ints (take n es) s1 = Some u
             \<and> state (pcbs u (current_proc s)) = BLOCKED
             \<and> blocked_queue (pcbs u (current_proc s)) = SLEEP
             \<and> current_proc u = IdleProc)
      \<and> timer_ints es s1 = Some s2
      \<and> current_proc s2 = current_proc s
      \<and> state (pcbs s2 (current_proc s)) = RUNNING
      \<and> returned_to_user s2 = 0"
proof -
  let ?cp = "current_proc s"
  let ?k = "(unat (arg s 0) + 9) div 10"
  from service_syssleep_sleeping [OF ms cp idle dl rq] obtain s1 where
    s1: "service_syssleep s = Some s1" "sleeping ?cp ?k s1" by blast
  have kb: "?k < 2 ^ 31" "0 < ?k"
    using ms_to_time_slices_bounds [of "arg s 0"] ms by simp_all
  have w: "\<exists>u. timer_ints (take n es) s1 = Some u \<and> sleeping ?cp (Suc (?k - Suc n)) u"
    if "n < length es" for n
  proof -
    have "length (take n es) + Suc (?k - Suc n) = ?k" using that es by simp
    with s1(2) kb(1) timer_ints_waiting [of ?cp "take n es" "?k - Suc n" s1]
    show ?thesis by simp
  qed
  have a: "\<forall>n<length es. \<exists>u. timer_ints (take n es) s1 = Some u
             \<and> state (pcbs u ?cp) = BLOCKED \<and> blocked_queue (pcbs u ?cp) = SLEEP
             \<and> current_proc u = IdleProc"
  proof (intro allI impI)
    fix n assume "n < length es"
    from w [OF this] show "\<exists>u. timer_ints (take n es) s1 = Some u
             \<and> state (pcbs u ?cp) = BLOCKED \<and> blocked_queue (pcbs u ?cp) = SLEEP
             \<and> current_proc u = IdleProc"
      by (auto simp add: sleeping_def)
  qed
  have ne: "es \<noteq> []" using es kb(2) by auto
  then have sp: "es = take (length es - 1) es @ [last es]"
    by (metis append_butlast_last_id butlast_conv_take)
  have "length es - 1 < length es" using ne by simp
  from w [OF this] es obtain u where
    u: "timer_ints (take (length es - 1) es) s1 = Some u" "sleeping ?cp (Suc 0) u" by auto
  from timer_int_due [OF u(2), of "last es"] obtain s2 where
    s2: "timer_int (last es) u = Some s2" "current_proc s2 = ?cp" "state (pcbs s2 ?cp) = RUNNING"
      "result_code (pcbs s2 ?cp) = 0" by blast
  have "timer_ints (take (length es - 1) es @ [last es]) s1 = Some s2"
    using u(1) s2(1) by (simp add: timer_ints_append)
  with sp have f: "timer_ints es s1 = Some s2" by simp
  have "dl_head (sleep_queue s1) = ?cp" "key (pcbs s1 ?cp) = of_nat ?k"
    "state (pcbs s1 ?cp) = BLOCKED" "blocked_queue (pcbs s1 ?cp) = SLEEP"
    using s1(2) by (simp_all add: sleeping_def)
  with s1(1) a f s2 show ?thesis by (simp add: returned_to_user_def)
qed

lemma sleep_call_facts:
  "arg sleep_call 0 = 25" "current_proc sleep_call = Table 0"
  "pid (pcbs sleep_call (Table 0)) = 1" "priority (pcbs sleep_call (Table 0)) = 3"
  "next (pcbs sleep_call (Table 0)) = NULL" "pid (pcbs sleep_call IdleProc) = 0"
  "sleep_queue sleep_call = \<lparr>dl_size = 0, dl_head = NULL\<rparr>"
  "ready_queues sleep_call i = \<lparr>q_size = 0, q_head = NULL, q_tail = NULL\<rparr>"
  "key (pcbs sleep_call NULL) = 0"
  by (simp_all add: sleep_call_def arg_syscall_trap1)
     (simp_all add: syscall_trap_def one_running_def upd_pcb_sel zero_kernel_def zero_pcb_def
        zero_queue_def)

lemma sole_process_sleep_example:
  "arg sleep_call 0 = 25
   \<and> (\<exists>s1 s2. service_syssleep sleep_call = Some s1
      \<and> dl_head (sleep_queue s1) = Table 0 \<and> key (pcbs s1 (Table 0)) = 3
      \<and> state (pcbs s1 (Table 0)) = BLOCKED \<and> blocked_queue (pcbs s1 (Table 0)) = SLEEP
      \<and> (\<forall>n<length [7, 8, 9 :: word32]. \<exists>u. timer_ints (take n [7, 8, 9]) s1 = Some u
             \<and> state (pcbs u (Table 0)) = BLOCKED \<and> blocked_queue (pcbs u (Table 0)) = SLEEP
             \<and> current_proc u = IdleProc)
      \<and> timer_ints [7, 8, 9] s1 = Some s2 \<and> current_proc s2 = Table 0
      \<and> state (pcbs s2 (Table 0)) = RUNNING \<and> returned_to_user s2 = 0)"
  using sole_process_sleep_returns_zero [of sleep_call "[7, 8, 9]"]
  by (simp add: sleep_call_facts IDLE_PROC_PID_def)

section \<open>Polling the delta list\<close>

text \<open>
  C7.  \<open>poll\<close> on a non-empty delta list follows the \<open>next\<close> pointer of the node it removes
  without testing it.  When the head is the only node left, that pointer is null, and
  \<open>poll\<close> reads and writes \<open>key\<close> through it: the \<open>key\<close> field of the cell at address 0
  grows by the key of the removed node, while the removal itself completes (the head
  becomes null, the size drops by one and the removed node is returned).
\<close>

theorem poll_dereferences_null_next:
  assumes "dl_size (sleep_queue s) \<noteq> 0" "next (pcbs s (dl_head (sleep_queue s))) = NULL"
    "dl_head (sleep_queue s) \<noteq> NULL"
  shows "fst (poll s) = dl_head (sleep_queue s)
     \<and> key (pcbs (snd (poll s)) NULL) = key (pcbs s NULL) + key (pcbs s (dl_head (sleep_queue s)))
     \<and> dl_head (sleep_queue (snd (poll s))) = NULL
     \<and> dl_size (sleep_queue (snd (poll s))) = dl_size (sleep_queue s) - 1"
  using assms by (simp add: poll_single upd_pcb_sel dl_sel)

lemma one_sleeper_eq:
  "one_sleeper =
     (upd_pcb IdleProc (\<lambda>c. c\<lparr>state := RUNNING\<rparr>)
       (upd_pcb (Table 0) (\<lambda>c. c\<lparr>blocked_queue := SLEEP\<rparr>)
         (upd_pcb (Table 0) (\<lambda>c. c\<lparr>state := BLOCKED\<rparr>)
           (dl_size_add 1 (dl_set_head (Table 0)
             (upd_pcb (Table 0) (\<lambda>c. c\<lparr>key := 3\<rparr>) sleep_call))))))\<lparr>current_proc := IdleProc\<rparr>"
proof -
  have t: "ms_to_time_slices 25 = 3" by (simp add: ms_to_time_slices_def TIME_SLICE_def)
  have "\<forall>i<4. q_size (ready_queues (upd_pcb (Table 0) (\<lambda>c. c\<lparr>blocked_queue := SLEEP\<rparr>)
         (upd_pcb (Table 0) (\<lambda>c. c\<lparr>state := BLOCKED\<rparr>)
           (dl_size_add 1 (dl_set_head (Table 0)
             (upd_pcb (Table 0) (\<lambda>c. c\<lparr>key := 3\<rparr>) sleep_call))))) i) = 0"
    by (simp add: upd_pcb_sel dl_sel sleep_call_facts)
  from schedule_next_empty [OF this] show ?thesis
    by (simp add: one_sleeper_def service_syssleep_def sleep_def insert_dl_def Let_def
        sleep_call_facts t word_sle_eq)
qed

theorem poll_dereferences_null_next_witness:
  "dl_size (sleep_queue one_sleeper) \<noteq> 0
   \<and> dl_head (sleep_queue one_sleeper) = Table 0
   \<and> next (pcbs one_sleeper (Table 0)) = NULL
   \<and> key (pcbs one_sleeper NULL) = 0
   \<and> fst (poll one_sleeper) = Table 0
   \<and> key (pcbs (snd (poll one_sleeper)) NULL) = 3
   \<and> dl_head (sleep_queue (snd (poll one_sleeper))) = NULL
   \<and> dl_size (sleep_queue (snd (poll one_sleeper))) = 0"
  using poll_dereferences_null_next [of one_sleeper]
  by (simp add: one_sleeper_eq upd_pcb_sel dl_sel sleep_call_facts)


lemma pids_stopped_queue: "pids (s\<lparr>stopped_queue := q\<rparr>) = pids s"
  by (simp add: pids_def fun_eq_iff)

lemma sint_32_times:
  assumes "n < 2 ^ 26"
  shows "sint (of_nat (32 * n) :: word32) = 32 * int n"
proof -
  have "32 * n < 2 ^ 31" using assms by simp
  from sint_of_nat32 [OF this] show ?thesis by simp
qed

lemma slot_31_pid_reachable:
  assumes "Suc k < 2 ^ 26"
  shows "\<exists>s. reachable s \<and> pids s (Table 31) = of_nat (32 * Suc k)"
  using assms
proof (induction k)
  case 0
  obtain b where b: "kdispinit 0x200000 0x4000 zero_kernel = Some b"
    using kdispinit_returns [of "0x200000" "0x4000" zero_kernel] by auto
  have "reachable b" using b by (rule reachable.boot)
  moreover from kdispinit_Some [OF b] have "pids b (Table 31) = 32"
    by (simp add: PCB_TABLE_SIZE_def)
  ultimately show ?case by auto
next
  case (Suc k)
  then obtain s where s: "reachable s" "pids s (Table 31) = of_nat (32 * Suc k)" by auto
  let ?p = "of_nat (32 * Suc k) :: word32"
  let ?s1 = "s\<lparr>stopped_queue := \<lparr>q_size = 1, q_head = Table 31, q_tail = Table 31\<rparr>\<rparr>"
  have r1: "reachable ?s1" using s(1) by (rule reachable.other) (simp add: pids_stopped_queue)
  have p1: "pids ?s1 (Table 31) = ?p" using s(2) by (simp add: pids_stopped_queue)
  have sp: "sint ?p = 32 * int (Suc k)" using Suc.prems by (intro sint_32_times) simp
  have o: "1 \<le>s ?p" unfolding word_sle_eq sp by simp
  have "sint ?p + 32 < 2 ^ 31" unfolding sp using Suc.prems by simp
  with reused_pid_eq [OF o] have rp: "reused_pid ?p = ?p + 32" by simp
  have e: "?p + 32 = of_nat (32 * Suc (Suc k))" by simp
  have "sint (of_nat (32 * Suc (Suc k)) :: word32) = 32 * int (Suc (Suc k))"
    using Suc.prems by (intro sint_32_times)
  then have n: "1 \<le>s reused_pid ?p" unfolding rp e word_sle_eq by simp
  have ne: "\<not> is_empty_q StoppedQ ?s1" by (simp add: is_empty_q_def)
  have h: "q_head (stopped_queue ?s1) = Table 31" by simp
  from get_unused_pcb_returns [OF ne] n obtain s' where
    g: "get_unused_pcb ?s1 = Some (Table 31, s')" unfolding h p1 by blast
  have "reachable s'" using r1 g by (rule reachable.reuse)
  moreover from get_unused_pcb_pids [OF g] ne have "pids s' (Table 31) = reused_pid ?p"
    unfolding p1 by auto
  ultimately show ?case unfolding rp e by blast
qed

section \<open>Reusing slot 31 at wraparound\<close>

text \<open>
  C8.  The PID of slot 31 starts at 32 and grows by 32 at every reuse, so it reaches
  \<open>0x7FFFFFE0\<close>.  At the next reuse \<open>prev_pid + PCB_TABLE_SIZE\<close> overflows, the wraparound
  rule gives \<open>prev_pid % PCB_TABLE_SIZE = 0\<close>, and \<open>assert(new_pid >= 1)\<close> fails:
  \<open>get_unused_pcb\<close> does not return, so the slot gets no PID at all, where the policy
  promises a reset to a valid PID.
\<close>

theorem slot_31_reuse_halts:
  "\<exists>s. reachable s \<and> \<not> is_empty_q StoppedQ s \<and> q_head (stopped_queue s) = Table 31
       \<and> pids s (Table 31) = 0x7FFFFFE0
       \<and> pids s (Table 31) + of_nat PCB_TABLE_SIZE <s 1
       \<and> c_rem (pids s (Table 31)) (of_nat PCB_TABLE_SIZE) = 0
       \<and> get_unused_pcb s = None"
proof -
  have "Suc 67108862 < (2 :: nat) ^ 26" by simp
  from slot_31_pid_reachable [OF this] obtain s where
    s: "reachable s" "pids s (Table 31) = 0x7FFFFFE0" by auto
  let ?s1 = "s\<lparr>stopped_queue := \<lparr>q_size = 1, q_head = Table 31, q_tail = Table 31\<rparr>\<rparr>"
  have r1: "reachable ?s1" using s(1) by (rule reachable.other) (simp add: pids_stopped_queue)
  have p1: "pids ?s1 (Table 31) = 0x7FFFFFE0" using s(2) by (simp add: pids_stopped_queue)
  have ne: "\<not> is_empty_q StoppedQ ?s1" by (simp add: is_empty_q_def)
  have f: "fst (dequeue StoppedQ ?s1) = Table 31" using ne by (simp add: fst_dequeue)
  have "pids (snd (dequeue StoppedQ ?s1)) (Table 31) = 0x7FFFFFE0"
    using p1 by (simp only: pids_dequeue)
  then have d: "pid (pcbs (snd (dequeue StoppedQ ?s1)) (Table 31)) = 0x7FFFFFE0"
    unfolding pids_def .
  have w: "(0x7FFFFFE0 :: word32) + 32 <s 1" by (simp add: word_sless_alt)
  have c: "c_rem (0x7FFFFFE0 :: word32) 32 = 0" by (simp add: c_rem_nonneg word_unat_eq_iff unat_mod)
  have "get_unused_pcb ?s1 = None"
    using ne w c by (simp add: get_unused_pcb_def Let_def f d PCB_TABLE_SIZE_def word_sle_eq)
  with r1 ne p1 w c show ?thesis
    by (intro exI [of _ ?s1]) (simp add: PCB_TABLE_SIZE_def)
qed


lemma lseg_cong:
  "(\<And>y. y \<in> set ys \<Longrightarrow> next (pcbs t y) = next (pcbs s y)) \<Longrightarrow> lseg t ys z = lseg s ys z"
  by (induction ys) auto

lemma due_cong:
  "(\<And>y. y \<in> set ys \<Longrightarrow> key (pcbs t y) = key (pcbs s y)) \<Longrightarrow> due t ys x = due s ys x"
  by (induction ys) auto

lemma sum_keys_cong:
  "(\<And>y. y \<in> set ys \<Longrightarrow> key (pcbs t y) = key (pcbs s y)) \<Longrightarrow> sum_keys t ys = sum_keys s ys"
  unfolding sum_keys_def by (induction ys) auto

lemma lseg_append:
  "lseg s (as @ bs) z = (lseg s as (case bs of [] \<Rightarrow> z | b # _ \<Rightarrow> b) \<and> lseg s bs z)"
  by (induction as) (auto split: list.splits)

lemma due_append:
  "due s (as @ bs) x = (if x \<in> set as then due s as x else sum_keys s as + due s bs x)"
  by (induction as) (auto simp add: sum_keys_def)

lemma lseg_not_NULL: "lseg s xs z \<Longrightarrow> NULL \<notin> set xs"
  by (induction xs) auto

lemma lseg_last:
  "lseg s as z \<Longrightarrow> as \<noteq> [] \<Longrightarrow> distinct as
   \<Longrightarrow> (\<And>y. y \<in> set as \<Longrightarrow> y \<noteq> last as \<Longrightarrow> next (pcbs t y) = next (pcbs s y))
   \<Longrightarrow> next (pcbs t (last as)) = z' \<Longrightarrow> lseg t as z'"
proof (induction as)
  case Nil
  then show ?case by simp
next
  case (Cons a as)
  show ?case
  proof (cases "as = []")
    case True
    with Cons.prems show ?thesis by simp
  next
    case False
    then obtain b bs where b: "as = b # bs" by (cases as) auto
    have l: "last (a # as) = last as" using False by simp
    have "a \<noteq> last as" using Cons.prems(3) False by auto
    with Cons.prems(4) [of a] l have n: "next (pcbs t a) = next (pcbs s a)" by simp
    have "lseg t as z'"
    proof (rule Cons.IH)
      show "lseg s as z" using Cons.prems(1) by simp
      show "as \<noteq> []" by (rule False)
      show "distinct as" using Cons.prems(3) by simp
      show "next (pcbs t y) = next (pcbs s y)" if "y \<in> set as" "y \<noteq> last as" for y
        using Cons.prems(4) [of y] that l by simp
      show "next (pcbs t (last as)) = z'" using Cons.prems(5) l by simp
    qed
    with Cons.prems(1) n show ?thesis by (simp add: b)
  qed
qed

lemma insert_loop_inserts:
  assumes "lseg s (as @ bs) NULL" "distinct (as @ bs)" "proc \<notin> set (as @ bs)" "proc \<noteq> NULL"
    "next (pcbs s proc) = NULL" "as \<noteq> [] \<or> bs \<noteq> []"
    "dl_head (sleep_queue s) = hd (as @ bs)"
  shows "\<exists>s' as' bs'.
      insert_loop proc d (if as = [] then NULL else last as) (case bs of [] \<Rightarrow> NULL | b # _ \<Rightarrow> b) s
        = Some s'
      \<and> as @ bs = as' @ bs' \<and> lseg s' (as' @ proc # bs') NULL
      \<and> dl_head (sleep_queue s') = hd (as' @ proc # bs')
      \<and> dl_size (sleep_queue s') = dl_size (sleep_queue s) + 1
      \<and> due s' (as' @ proc # bs') proc = sum_keys s as + d
      \<and> (\<forall>y\<in>set (as @ bs). due s' (as' @ proc # bs') y = due s (as @ bs) y)
      \<and> ready_queues s' = ready_queues s
      \<and> (\<forall>x. pid (pcbs s' x) = pid (pcbs s x) \<and> priority (pcbs s' x) = priority (pcbs s x))"
  using assms
proof (induction bs arbitrary: as d)
  case Nil
  then have ne: "as \<noteq> []" by simp
  let ?l = "last as"
  let ?s' = "dl_size_add 1 (upd_pcb ?l (\<lambda>c. c\<lparr>next := proc\<rparr>) (upd_pcb proc (\<lambda>c. c\<lparr>key := d\<rparr>) s))"
  have la: "?l \<in> set as" using ne by simp
  have pl: "proc \<noteq> ?l" using Nil.prems(3) la by auto
  have ln: "?l \<noteq> NULL" using lseg_not_NULL [OF Nil.prems(1)] la by auto
  have r: "insert_loop proc d ?l NULL s = Some ?s'"
    by (subst insert_loop.simps) (simp add: Let_def)
  have 1: "lseg ?s' as proc"
    by (rule lseg_last [where s = s and z = NULL])
       (use Nil.prems(1,2) ne pl in \<open>simp_all add: upd_pcb_sel dl_sel\<close>)
  have 2: "lseg ?s' [proc] NULL"
    using Nil.prems(4,5) pl by (simp add: upd_pcb_sel dl_sel)
  have k: "key (pcbs ?s' y) = key (pcbs s y)" if "y \<in> set as" for y
    using that Nil.prems(3) by (auto simp add: upd_pcb_sel dl_sel)
  have 3: "due ?s' (as @ [proc]) proc = sum_keys s as + d"
    using Nil.prems(3) pl sum_keys_cong [of as ?s' s, OF k]
    by (simp add: due_append upd_pcb_sel dl_sel)
  have 4: "\<forall>y\<in>set (as @ []). due ?s' (as @ [proc]) y = due s (as @ []) y"
    using due_cong [of as ?s' s, OF k] by (simp add: due_append)
  have 5: "dl_head (sleep_queue ?s') = hd (as @ [proc])"
    using Nil.prems(7) ne by (simp add: upd_pcb_sel dl_sel)
  have 6: "lseg ?s' (as @ [proc]) NULL" using 1 2 by (simp add: lseg_append)
  show ?case
    apply (rule exI [of _ ?s'], rule exI [of _ as], rule exI [of _ "[]"])
    using r 3 4 5 6 ne by (simp add: upd_pcb_sel dl_sel)
next
  case (Cons c cs)
  let ?prv = "if as = [] then NULL else last as"
  have lc: "lseg s (c # cs) NULL" and la: "lseg s as c"
    using Cons.prems(1) by (simp_all add: lseg_append)
  have cn: "c \<noteq> NULL" and nc: "next (pcbs s c) = (case cs of [] \<Rightarrow> NULL | b # _ \<Rightarrow> b)"
    using lc by simp_all
  show ?case
  proof (cases "d <s key (pcbs s c)")
    case False
    have r: "insert_loop proc d ?prv c s
        = insert_loop proc (d - key (pcbs s c)) c (case cs of [] \<Rightarrow> NULL | b # _ \<Rightarrow> b) s"
      using False cn nc by (subst insert_loop.simps) simp
    have "\<exists>s' as' bs'.
      insert_loop proc (d - key (pcbs s c))
         (if as @ [c] = [] then NULL else last (as @ [c])) (case cs of [] \<Rightarrow> NULL | b # _ \<Rightarrow> b) s
        = Some s'
      \<and> (as @ [c]) @ cs = as' @ bs' \<and> lseg s' (as' @ proc # bs') NULL
      \<and> dl_head (sleep_queue s') = hd (as' @ proc # bs')
      \<and> dl_size (sleep_queue s') = dl_size (sleep_queue s) + 1
      \<and> due s' (as' @ proc # bs') proc = sum_keys s (as @ [c]) + (d - key (pcbs s c))
      \<and> (\<forall>y\<in>set ((as @ [c]) @ cs). due s' (as' @ proc # bs') y = due s ((as @ [c]) @ cs) y)
      \<and> ready_queues s' = ready_queues s
      \<and> (\<forall>x. pid (pcbs s' x) = pid (pcbs s x) \<and> priority (pcbs s' x) = priority (pcbs s x))"
      using Cons.prems by (intro Cons.IH) simp_all
    then show ?thesis
      using r by (simp add: sum_keys_def)
  next
    case True
    let ?s1 = "upd_pcb proc (\<lambda>c. c\<lparr>key := d\<rparr>) s"
    let ?s2 = "if as \<noteq> [] then upd_pcb (last as) (\<lambda>c. c\<lparr>next := proc\<rparr>) ?s1 else dl_set_head proc ?s1"
    let ?s3 = "upd_pcb proc (\<lambda>x. x\<lparr>next := c\<rparr>) ?s2"
    let ?s' = "dl_size_add 1 (upd_pcb c (\<lambda>x. x\<lparr>key := key x - d\<rparr>) ?s3)"
    have r: "insert_loop proc d ?prv c s = Some ?s'"
    proof (cases "as = []")
      case True
      then show ?thesis using \<open>d <s key (pcbs s c)\<close> cn
        by (subst insert_loop.simps) (simp add: Let_def)
    next
      case False
      then have "last as \<noteq> NULL" using lseg_not_NULL [OF la] by (metis last_in_set)
      then show ?thesis using \<open>d <s key (pcbs s c)\<close> cn False
        by (subst insert_loop.simps) (simp add: Let_def)
    qed
    have pc: "proc \<noteq> c" "proc \<notin> set as" "proc \<notin> set cs" "c \<notin> set as" "c \<notin> set cs"
      using Cons.prems(2,3) by auto
    have nx: "next (pcbs ?s' y) = (if y = proc then c else if as \<noteq> [] \<and> y = last as then proc
        else next (pcbs s y))" for y
      by (simp add: upd_pcb_sel dl_sel)
    have ky: "key (pcbs ?s' y) = (if y = c then key (pcbs s c) - d else if y = proc then d
        else key (pcbs s y))" for y
      using pc(1) by (simp add: upd_pcb_sel dl_sel)
    have 1: "lseg ?s' as proc"
    proof (cases "as = []")
      case True
      then show ?thesis by simp
    next
      case False
      then have "last as \<in> set as" by simp
      with pc(2) have "proc \<noteq> last as" by auto
      then show ?thesis
        by (rule_tac lseg_last [where s = s and z = c])
           (use False la Cons.prems(2) pc(2) in \<open>auto simp add: upd_pcb_sel dl_sel\<close>)
    qed
    have "lseg ?s' (c # cs) NULL = lseg s (c # cs) NULL"
    proof (rule lseg_cong)
      fix y assume y: "y \<in> set (c # cs)"
      then have "y \<noteq> proc" using pc by auto
      moreover have "as \<noteq> [] \<Longrightarrow> y \<noteq> last as"
      proof
        assume "as \<noteq> []" "y = last as"
        then have "y \<in> set as" by simp
        with y Cons.prems(2) show False by auto
      qed
      ultimately show "next (pcbs ?s' y) = next (pcbs s y)" by (auto simp add: nx)
    qed
    with lc have 2: "lseg ?s' (c # cs) NULL" by simp
    have 6: "lseg ?s' (as @ proc # c # cs) NULL"
      using 1 2 Cons.prems(4) by (simp add: lseg_append nx)
    have ka: "key (pcbs ?s' y) = key (pcbs s y)" if "y \<in> set as" for y
      using that pc by (auto simp add: ky)
    have kc: "key (pcbs ?s' y) = key (pcbs s y)" if "y \<in> set cs" for y
      using that pc by (auto simp add: ky)
    have sa: "sum_keys ?s' as = sum_keys s as" by (rule sum_keys_cong) (rule ka)
    have 3: "due ?s' (as @ proc # c # cs) proc = sum_keys s as + d"
      using pc by (simp add: due_append sa ky)
    have 4: "\<forall>y\<in>set (as @ c # cs). due ?s' (as @ proc # c # cs) y = due s (as @ c # cs) y"
    proof
      fix y assume y: "y \<in> set (as @ c # cs)"
      show "due ?s' (as @ proc # c # cs) y = due s (as @ c # cs) y"
      proof (cases "y \<in> set as")
        case True
        then show ?thesis using due_cong [of as ?s' s y, OF ka] by (simp add: due_append)
      next
        case False
        then have yp: "y \<noteq> proc" using y pc by auto
        have "due ?s' cs y = due s cs y" by (rule due_cong) (rule kc)
        then show ?thesis using False yp pc by (simp add: due_append sa ky)
      qed
    qed
    have 5: "dl_head (sleep_queue ?s') = hd (as @ proc # c # cs)"
      using Cons.prems(7) by (cases as) (simp_all add: upd_pcb_sel dl_sel)
    have 7: "dl_size (sleep_queue ?s') = dl_size (sleep_queue s) + 1"
      by (simp add: upd_pcb_sel dl_sel)
    have 8: "ready_queues ?s' = ready_queues s"
      "\<forall>x. pid (pcbs ?s' x) = pid (pcbs s x) \<and> priority (pcbs ?s' x) = priority (pcbs s x)"
      by (simp_all add: upd_pcb_sel dl_sel)
    show ?thesis
      apply (rule exI [of _ ?s'], rule exI [of _ as], rule exI [of _ "c # cs"])
      using r 3 4 5 6 7 8 by simp
  qed
qed

lemma insert_dl_inserts:
  assumes "is_delta s ys" "proc \<notin> set ys" "proc \<noteq> NULL" "next (pcbs s proc) = NULL" "0 \<le>s d"
  shows "\<exists>s' as bs. insert_dl proc d s = Some s' \<and> ys = as @ bs
      \<and> is_delta s' (as @ proc # bs) \<and> due s' (as @ proc # bs) proc = d
      \<and> (\<forall>y\<in>set ys. due s' (as @ proc # bs) y = due s ys y)
      \<and> ready_queues s' = ready_queues s
      \<and> (\<forall>x. pid (pcbs s' x) = pid (pcbs s x) \<and> priority (pcbs s' x) = priority (pcbs s x))"
proof (cases ys)
  case Nil
  let ?s' = "dl_size_add 1 (dl_set_head proc (upd_pcb proc (\<lambda>c. c\<lparr>key := d\<rparr>) s))"
  have 1: "insert_dl proc d s = Some ?s'"
    using assms Nil by (simp add: insert_dl_def is_delta_def Let_def)
  have 2: "is_delta ?s' [proc]"
    using assms Nil by (simp add: is_delta_def upd_pcb_sel dl_sel)
  have 3: "due ?s' [proc] proc = d" by (simp add: upd_pcb_sel dl_sel)
  show ?thesis
    apply (rule exI [of _ ?s'], rule exI [of _ "[]"], rule exI [of _ "[]"])
    using 1 2 3 Nil by (simp add: upd_pcb_sel dl_sel)
next
  case (Cons y ys')
  have h: "dl_head (sleep_queue s) = y" "y \<noteq> NULL" "distinct ys" "lseg s ys NULL"
    "dl_size (sleep_queue s) = of_nat (length ys)"
    using assms(1) Cons by (simp_all add: is_delta_def)
  have i: "insert_dl proc d s = insert_loop proc d NULL y s"
    using assms h by (simp add: insert_dl_def)
  have "\<exists>s' as' bs'.
      insert_loop proc d NULL y s = Some s'
      \<and> ys = as' @ bs' \<and> lseg s' (as' @ proc # bs') NULL
      \<and> dl_head (sleep_queue s') = hd (as' @ proc # bs')
      \<and> dl_size (sleep_queue s') = dl_size (sleep_queue s) + 1
      \<and> due s' (as' @ proc # bs') proc = d
      \<and> (\<forall>y\<in>set ys. due s' (as' @ proc # bs') y = due s ys y)
      \<and> ready_queues s' = ready_queues s
      \<and> (\<forall>x. pid (pcbs s' x) = pid (pcbs s x) \<and> priority (pcbs s' x) = priority (pcbs s x))"
    using insert_loop_inserts [of s "[]" ys proc d] assms(2-4) h(1,3,4) Cons
    by (simp add: sum_keys_def)
  then obtain s' as' bs' where r:
    "insert_loop proc d NULL y s = Some s'" "ys = as' @ bs'" "lseg s' (as' @ proc # bs') NULL"
    "dl_head (sleep_queue s') = hd (as' @ proc # bs')"
    "dl_size (sleep_queue s') = dl_size (sleep_queue s) + 1"
    "due s' (as' @ proc # bs') proc = d"
    "\<forall>y\<in>set ys. due s' (as' @ proc # bs') y = due s ys y"
    "ready_queues s' = ready_queues s"
    "\<forall>x. pid (pcbs s' x) = pid (pcbs s x) \<and> priority (pcbs s' x) = priority (pcbs s x)"
    by blast
  have hd: "(case as' @ proc # bs' of [] \<Rightarrow> NULL | y # _ \<Rightarrow> y) = hd (as' @ proc # bs')"
    by (cases as') simp_all
  have dl: "is_delta s' (as' @ proc # bs')"
    unfolding is_delta_def hd using r(2-5) h(3,5) assms(2) by auto
  have "insert_dl proc d s = Some s'" using i r(1) by simp
  then show ?thesis
    apply (rule_tac exI [of _ s'], rule_tac exI [of _ as'], rule_tac exI [of _ bs'])
    using r(2,6-9) dl by simp
qed

lemma schedule_next_frame:
  assumes "\<forall>i<4. q_size (ready_queues s i) \<noteq> 0 \<longrightarrow> q_head (ready_queues s i) \<noteq> NULL"
  shows "sleep_queue (schedule_next s) = sleep_queue s
     \<and> (\<forall>y. key (pcbs (schedule_next s) y) = key (pcbs s y)
            \<and> pid (pcbs (schedule_next s) y) = pid (pcbs s y)
            \<and> priority (pcbs (schedule_next s) y) = priority (pcbs s y)
            \<and> blocked_queue (pcbs (schedule_next s) y) = blocked_queue (pcbs s y)
            \<and> ((\<forall>i<4. q_size (ready_queues s i) \<noteq> 0 \<longrightarrow> q_head (ready_queues s i) \<noteq> y)
                 \<longrightarrow> next (pcbs (schedule_next s) y) = next (pcbs s y)
                     \<and> (y \<noteq> IdleProc \<longrightarrow> state (pcbs (schedule_next s) y) = state (pcbs s y))))"
proof (cases "\<forall>i<4. q_size (ready_queues s i) = 0")
  case True
  from schedule_next_empty [OF this] show ?thesis by (simp add: upd_pcb_sel)
next
  case False
  define p where "p = (LEAST i. i < 4 \<and> q_size (ready_queues s i) \<noteq> 0)"
  from False have "\<exists>i. i < 4 \<and> q_size (ready_queues s i) \<noteq> 0" by auto
  from LeastI_ex [OF this] have p: "p < 4" "q_size (ready_queues s p) \<noteq> 0"
    unfolding p_def by simp_all
  have lt: "\<forall>i<p. q_size (ready_queues s i) = 0"
  proof (intro allI impI)
    fix i assume i: "i < p"
    then have "\<not> (i < 4 \<and> q_size (ready_queues s i) \<noteq> 0)"
      unfolding p_def by (rule not_less_Least)
    with i p(1) show "q_size (ready_queues s i) = 0" by simp
  qed
  have hn: "q_head (ready_queues s p) \<noteq> NULL" using assms p by simp
  have nl: "next_loop 0 NULL s = dequeue (ReadyQ p) s"
    using p lt hn by (intro next_loop_first)
  show ?thesis
    unfolding schedule_next_def next_proc_def nl
    using p hn by (auto simp add: dequeue_def Let_def upd_pcb_sel)
qed

lemma service_syssleep_inserts:
  assumes ms: "arg s 0 \<noteq> 0"
    and cp: "current_proc s \<noteq> NULL" "current_proc s \<noteq> IdleProc"
      "next (pcbs s (current_proc s)) = NULL"
    and dl: "is_delta s ys" "current_proc s \<notin> set ys"
    and rq: "\<forall>i<4. q_size (ready_queues s i) \<noteq> 0 \<longrightarrow>
               q_head (ready_queues s i) \<noteq> NULL \<and> q_head (ready_queues s i) \<notin> set (current_proc s # ys)"
  shows "\<exists>s1 as bs. service_syssleep s = Some s1 \<and> ys = as @ bs
      \<and> is_delta s1 (as @ current_proc s # bs)
      \<and> due s1 (as @ current_proc s # bs) (current_proc s) = of_nat ((unat (arg s 0) + 9) div 10)
      \<and> (\<forall>y\<in>set ys. due s1 (as @ current_proc s # bs) y = due s ys y)
      \<and> state (pcbs s1 (current_proc s)) = BLOCKED
      \<and> blocked_queue (pcbs s1 (current_proc s)) = SLEEP
      \<and> pid (pcbs s1 (current_proc s)) = pid (pcbs s (current_proc s))
      \<and> priority (pcbs s1 (current_proc s)) = priority (pcbs s (current_proc s))"
proof -
  let ?cp = "current_proc s"
  let ?k = "(unat (arg s 0) + 9) div 10"
  have e: "ms_to_time_slices (arg s 0) = of_nat ?k"
  proof -
    have "of_nat (unat (ms_to_time_slices (arg s 0))) = ms_to_time_slices (arg s 0)" by simp
    then show ?thesis by (simp only: unat_ms_to_time_slices)
  qed
  have nn: "0 \<le>s (of_nat ?k :: word32)"
    using ms_to_time_slices_bounds(1) [of "arg s 0"] by (simp add: word_sle_eq sint_of_nat32)
  from insert_dl_inserts [OF dl cp(1,3) nn] obtain s' as bs where i:
    "insert_dl ?cp (of_nat ?k) s = Some s'" "ys = as @ bs" "is_delta s' (as @ ?cp # bs)"
    "due s' (as @ ?cp # bs) ?cp = of_nat ?k"
    "\<forall>y\<in>set ys. due s' (as @ ?cp # bs) y = due s ys y"
    "ready_queues s' = ready_queues s"
    "\<forall>x. pid (pcbs s' x) = pid (pcbs s x) \<and> priority (pcbs s' x) = priority (pcbs s x)"
    by blast
  let ?L = "as @ ?cp # bs"
  let ?s2 = "upd_pcb ?cp (\<lambda>c. c\<lparr>blocked_queue := SLEEP\<rparr>) (upd_pcb ?cp (\<lambda>c. c\<lparr>state := BLOCKED\<rparr>) s')"
  have sl: "sleep ?cp (arg s 0) s = Some ?s2"
    using i(1) by (simp add: sleep_def e Let_def)
  have sv: "service_syssleep s = Some (schedule_next ?s2)"
    using ms sl by (simp add: service_syssleep_def Let_def word_greater_zero_iff)
  have rq2: "ready_queues ?s2 = ready_queues s" using i(6) by (simp add: upd_pcb_sel)
  have sL: "set ?L = set (?cp # ys)" using i(2) by auto
  have hn: "\<forall>i<4. q_size (ready_queues ?s2 i) \<noteq> 0 \<longrightarrow> q_head (ready_queues ?s2 i) \<noteq> NULL"
    using rq unfolding rq2 by blast
  note fr = schedule_next_frame [OF hn]
  have hy: "\<forall>i<4. q_size (ready_queues ?s2 i) \<noteq> 0 \<longrightarrow> q_head (ready_queues ?s2 i) \<noteq> y"
    if "y \<in> set ?L" for y
    using rq that unfolding rq2 sL by blast
  have nx: "next (pcbs (schedule_next ?s2) y) = next (pcbs s' y)" if "y \<in> set ?L" for y
    using fr hy [OF that] by (simp add: upd_pcb_sel)
  have ky: "key (pcbs (schedule_next ?s2) y) = key (pcbs s' y)" for y
    using fr by (simp add: upd_pcb_sel)
  have sq: "sleep_queue (schedule_next ?s2) = sleep_queue s'"
    using fr by (simp add: upd_pcb_sel)
  have "lseg (schedule_next ?s2) ?L NULL = lseg s' ?L NULL"
    by (rule lseg_cong) (rule nx)
  then have 1: "is_delta (schedule_next ?s2) ?L"
    using i(3) unfolding is_delta_def sq by simp
  have d: "due (schedule_next ?s2) ?L x = due s' ?L x" for x
    by (rule due_cong) (rule ky)
  have cpL: "?cp \<in> set ?L" by simp
  have st: "state (pcbs (schedule_next ?s2) ?cp) = BLOCKED"
    "blocked_queue (pcbs (schedule_next ?s2) ?cp) = SLEEP"
    "pid (pcbs (schedule_next ?s2) ?cp) = pid (pcbs s ?cp)"
    "priority (pcbs (schedule_next ?s2) ?cp) = priority (pcbs s ?cp)"
    using fr hy [OF cpL] cp(2) i(7) by (simp_all add: upd_pcb_sel)
  show ?thesis
    apply (rule exI [of _ "schedule_next ?s2"], rule exI [of _ as], rule exI [of _ bs])
    using sv i(2,4,5) 1 st by (simp add: d)
qed







section \<open>Sleeping among other sleepers and processes\<close>



lemma second_call_facts:
  "arg second_call 0 = 15" "current_proc second_call = Table 2"
  "pid (pcbs second_call (Table 2)) = 3" "next (pcbs second_call (Table 2)) = NULL"
  "sleep_queue second_call = \<lparr>dl_size = 1, dl_head = Table 0\<rparr>"
  "next (pcbs second_call (Table 0)) = NULL" "key (pcbs second_call (Table 0)) = 3"
  "q_size (ready_queues second_call i) = 0"
  by (simp_all add: second_call_def arg_syscall_trap1)
     (simp_all add: syscall_trap_def one_sleeper_eq upd_pcb_sel dl_sel sleep_call_facts
        sleep_call_def one_running_def zero_kernel_def zero_pcb_def zero_queue_def)

text \<open>
  An instance with another sleeper: the second caller is due in two ticks, and the
  first sleeper still in three.
\<close>

lemma syssleep_second_sleeper:
  "\<exists>s1 as bs. service_syssleep second_call = Some s1 \<and> [Table 0] = as @ bs
      \<and> is_delta s1 (as @ Table 2 # bs)
      \<and> due s1 (as @ Table 2 # bs) (Table 2) = 2
      \<and> due s1 (as @ Table 2 # bs) (Table 0) = 3
      \<and> state (pcbs s1 (Table 2)) = BLOCKED \<and> blocked_queue (pcbs s1 (Table 2)) = SLEEP"
proof -
  have d: "is_delta second_call [Table 0]" by (simp add: is_delta_def second_call_facts)
  have h: "arg second_call 0 \<noteq> 0" "current_proc second_call \<noteq> NULL"
    "current_proc second_call \<noteq> IdleProc"
    "next (pcbs second_call (current_proc second_call)) = NULL"
    "current_proc second_call \<notin> set [Table 0]"
    "\<forall>i<4. q_size (ready_queues second_call i) \<noteq> 0 \<longrightarrow>
       q_head (ready_queues second_call i) \<noteq> NULL
       \<and> q_head (ready_queues second_call i) \<notin> set (current_proc second_call # [Table 0])"
    by (simp_all add: second_call_facts)
  have k: "(unat (arg second_call 0) + 9) div 10 = 2" by (simp add: second_call_facts)
  from service_syssleep_inserts [OF h(1-4) d h(5,6)] show ?thesis
    unfolding k by (simp add: second_call_facts) blast
qed

end
